(* ===== verification/Prelude.thy ===== *)
theory Prelude
  imports Main "HOL-Library.Word" "HOL-Library.Char_ord" "HOL-Library.List_Lexorder"
    "HOL-Library.Monad_Syntax" "HOL-Library.Code_Target_Numeral"
begin

section \<open>Shared vocabulary of the Vaultine development\<close>

text \<open>
  What every component of the development uses: bytes and byte strings, the conversions C++ makes
  between \<open>size_t\<close> and \<open>int\<close>, decimal printing (\<open>std::to_string\<close>, \<open>%zu\<close>, \<open>%02d\<close>), splitting a
  string at a separator, oracles that say when a call into a library fails, and the interface
  \<open>codec\<close> of everything that is written by one routine and read back by another.
\<close>

named_theorems frame_simps \<open>which parts of a state an operation leaves alone\<close>
named_theorems guard_simps \<open>what an operation answers when a guard refuses its arguments\<close>
named_theorems parse_simps \<open>how a reader consumes what the matching writer produced\<close>

type_synonym byte = "8 word"
type_synonym bytes = "byte list"

subsection \<open>Characters and bytes\<close>

abbreviation char_code :: "char \<Rightarrow> nat" where
  "char_code c \<equiv> of_char c"

text \<open>\<open>reinterpret_cast<const unsigned char*>\<close> of a C string.\<close>

definition bytes_of_string :: "string \<Rightarrow> bytes" where
  "bytes_of_string s = map of_char s"

lemma length_bytes_of_string [simp]: "length (bytes_of_string s) = length s"
  by (simp add: bytes_of_string_def)

subsection \<open>Library failures\<close>

text \<open>
  A call into a library may fail for reasons outside the program (no memory, a full disk, a locked
  database). A list of booleans says which of the coming calls fail; once it is used up, every
  further call succeeds.
\<close>

fun next_fault :: "bool list \<Rightarrow> bool \<times> bool list" where
  "next_fault [] = (False, [])"
| "next_fault (b # bs) = (b, bs)"

lemma next_fault_split: "next_fault fs = (fs \<noteq> [] \<and> hd fs, tl fs)"
  by (cases fs) auto

lemma next_fault_none [simp]: "fst (next_fault fs) \<longleftrightarrow> fs \<noteq> [] \<and> hd fs"
  by (cases fs) auto

subsection \<open>From \<open>size_t\<close> to \<open>int\<close>\<close>

text \<open>
  \<open>static_cast<int>(n)\<close> of a 64-bit size keeps the low 32 bits and reads them as two's complement.
\<close>

definition c_int :: "nat \<Rightarrow> int" where
  "c_int n = sint (word_of_nat n :: 32 word)"

lemma c_int_exact: "n < 2 ^ 31 \<Longrightarrow> c_int n = int n"
  by (simp add: c_int_def signed_of_nat signed_take_bit_int_eq_self_iff)

lemma c_int_range: "- (2 ^ 31) \<le> c_int n \<and> c_int n < 2 ^ 31"
  unfolding c_int_def using sint_range_size [where w = "word_of_nat n :: 32 word"]
  by (simp add: word_size)

lemma c_int_wraps: "c_int (2 ^ 32 + n) = c_int n"
proof -
  have "(word_of_nat (2 ^ 32) :: 32 word) = 0"
    by (simp add: word_of_nat_eq_0_iff)
  then have "(word_of_nat (2 ^ 32 + n) :: 32 word) = word_of_nat n"
    by (simp only: of_nat_add) simp
  then show ?thesis by (simp only: c_int_def)
qed

lemma c_int_negative:
  assumes "n < 2 ^ 31"
  shows "c_int (2 ^ 31 + n) < 0"
proof -
  have "(2 ^ 31 + int n) div 2 ^ 31 = 1" using assms by simp
  then have "bit (2 ^ 31 + int n) 31" by (simp add: bit_iff_odd)
  then have "signed_take_bit 31 (2 ^ 31 + int n) = take_bit 32 (2 ^ 31 + int n) - 2 ^ 32"
    by (simp add: signed_take_bit_eq_take_bit_minus)
  moreover have "c_int (2 ^ 31 + n) = signed_take_bit 31 (int (2 ^ 31 + n))"
    unfolding c_int_def signed_of_nat by simp
  ultimately have "c_int (2 ^ 31 + n) = take_bit 32 (2 ^ 31 + int n) - 2 ^ 32" by simp
  moreover have "take_bit 32 (2 ^ 31 + int n) < 2 ^ 32" by (rule take_bit_int_less_exp)
  ultimately show ?thesis by linarith
qed

subsection \<open>Decimal numbers\<close>

definition digit_char :: "nat \<Rightarrow> char" where
  "digit_char d = char_of (48 + d)"

definition is_digit :: "char \<Rightarrow> bool" where
  "is_digit c \<longleftrightarrow> 48 \<le> char_code c \<and> char_code c \<le> 57"

definition digit_value :: "char \<Rightarrow> nat" where
  "digit_value c = char_code c - 48"

fun decimal :: "nat \<Rightarrow> string" where
  "decimal n = (if n < 10 then [digit_char n] else decimal (n div 10) @ [digit_char (n mod 10)])"

declare decimal.simps [simp del]

text \<open>\<open>%0<w>d\<close>: at least \<open>w\<close> digits, zeros in front.\<close>

definition zero_padded :: "nat \<Rightarrow> nat \<Rightarrow> string" where
  "zero_padded w n = replicate (w - length (decimal n)) (CHR ''0'') @ decimal n"

text \<open>\<open>std::to_string\<close> of a signed number.\<close>

definition to_string :: "int \<Rightarrow> string" where
  "to_string i = (if i < 0 then CHR ''-'' # decimal (nat (- i)) else decimal (nat i))"

definition decimal_value :: "string \<Rightarrow> nat" where
  "decimal_value s = foldl (\<lambda>v c. 10 * v + digit_value c) 0 s"

lemma digit_char_numerals [simp]:
  "digit_char 0 = CHR ''0''" "digit_char 1 = CHR ''1''" "digit_char (Suc 0) = CHR ''1''"
  "digit_char 2 = CHR ''2''" "digit_char 3 = CHR ''3''" "digit_char 4 = CHR ''4''"
  "digit_char 5 = CHR ''5''" "digit_char 6 = CHR ''6''" "digit_char 7 = CHR ''7''"
  "digit_char 8 = CHR ''8''" "digit_char 9 = CHR ''9''"
  by code_simp+

lemma char_code_digit [simp]: "d < 10 \<Longrightarrow> char_code (digit_char d) = 48 + d"
  by (simp add: digit_char_def)

lemma digit_char_is_digit [simp]: "d < 10 \<Longrightarrow> is_digit (digit_char d)"
  by (simp add: is_digit_def)

lemma digit_value_char [simp]: "d < 10 \<Longrightarrow> digit_value (digit_char d) = d"
  by (simp add: digit_value_def)

lemma digit_char_inject [simp]:
  "d < 10 \<Longrightarrow> e < 10 \<Longrightarrow> digit_char d = digit_char e \<longleftrightarrow> d = e"
  by (metis digit_value_char)

lemma decimal_not_Nil [simp]: "decimal n \<noteq> []"
  by (subst decimal.simps) simp

lemma decimal_digits: "c \<in> set (decimal n) \<Longrightarrow> is_digit c"
proof (induction n rule: decimal.induct)
  case (1 n)
  then show ?case by (subst (asm) (2) decimal.simps) (auto split: if_splits)
qed

lemma decimal_value_snoc: "decimal_value (s @ [c]) = 10 * decimal_value s + digit_value c"
  by (simp add: decimal_value_def)

lemma decimal_value_decimal [simp]: "decimal_value (decimal n) = n"
proof (induction n rule: decimal.induct)
  case (1 n)
  then show ?case
    by (subst decimal.simps) (auto simp: decimal_value_snoc, simp add: decimal_value_def)
qed

lemma decimal_inject [simp]: "decimal m = decimal n \<longleftrightarrow> m = n"
  by (metis decimal_value_decimal)

lemma decimal_1: "n < 10 \<Longrightarrow> decimal n = [digit_char n]"
  by (simp add: decimal.simps)

lemma decimal_2: "10 \<le> n \<Longrightarrow> n < 100 \<Longrightarrow> decimal n = [digit_char (n div 10), digit_char (n mod 10)]"
  by (simp add: decimal.simps [of n] decimal.simps [of "n div 10"])

lemma decimal_4:
  assumes "1000 \<le> n" and "n < 10000"
  shows "decimal n = [digit_char (n div 1000), digit_char (n div 100 mod 10),
                      digit_char (n div 10 mod 10), digit_char (n mod 10)]"
proof -
  have d: "n div 10 div 10 = n div 100" "n div 100 div 10 = n div 1000"
    by (simp_all add: div_mult2_eq [symmetric])
  have "\<not> n < 10" "\<not> n div 10 < 10" "\<not> n div 100 < 10" "n div 1000 < 10"
    using assms by auto
  then show ?thesis
    by (simp add: decimal.simps [of n] decimal.simps [of "n div 10"] decimal.simps [of "n div 100"]
        decimal.simps [of "n div 1000"] d)
qed

lemma zero_padded_2: "n < 100 \<Longrightarrow> zero_padded 2 n = [digit_char (n div 10), digit_char (n mod 10)]"
  by (cases "n < 10") (auto simp: zero_padded_def decimal_1 decimal_2)

subsection \<open>Splitting at a separator\<close>

fun split_at :: "'a \<Rightarrow> 'a list \<Rightarrow> 'a list list" where
  "split_at c [] = [[]]"
| "split_at c (x # xs) =
     (if x = c then [] # split_at c xs
      else (case split_at c xs of [] \<Rightarrow> [[x]] | p # ps \<Rightarrow> (x # p) # ps))"

lemma split_at_not_Nil [simp]: "split_at c xs \<noteq> []"
  by (induction xs) (auto split: list.splits)

lemma split_at_no_sep: "c \<notin> set xs \<Longrightarrow> split_at c xs = [xs]"
  by (induction xs) auto

lemma split_at_append: "c \<notin> set xs \<Longrightarrow> split_at c (xs @ c # ys) = xs # split_at c ys"
  by (induction xs) auto

lemma split_at_pieces: "p \<in> set (split_at c xs) \<Longrightarrow> c \<notin> set p"
  by (induction xs arbitrary: p) (auto split: list.splits if_splits)

subsection \<open>Lists as tables\<close>

lemma find_append: "find P (xs @ ys) = (case find P xs of None \<Rightarrow> find P ys | Some x \<Rightarrow> Some x)"
  by (induction xs) auto

lemma find_map_same:
  "(\<And>x. P (f x) = P x) \<Longrightarrow> find P (map f xs) = map_option f (find P xs)"
  by (induction xs) auto

lemma find_filter: "find P (filter Q xs) = find (\<lambda>x. Q x \<and> P x) xs"
  by (induction xs) auto

lemma find_cong_set: "(\<And>x. x \<in> set xs \<Longrightarrow> P x = Q x) \<Longrightarrow> find P xs = find Q xs"
  by (induction xs) auto

lemma find_unique:
  assumes "x \<in> set xs" and "P x" and u: "\<And>y. y \<in> set xs \<Longrightarrow> P y \<Longrightarrow> y = x"
  shows "find P xs = Some x"
proof (cases "find P xs")
  case None
  then show ?thesis using assms(1,2) by (auto simp: find_None_iff)
next
  case (Some y)
  then show ?thesis using u [of y] by (auto simp: find_Some_iff)
qed

lemma ball_key_cong:
  assumes "map g rs = map g rs'"
  shows "(\<forall>r \<in> set rs. P (g r)) \<longleftrightarrow> (\<forall>r \<in> set rs'. P (g r))"
proof -
  have "(\<forall>r \<in> set xs. P (g r)) \<longleftrightarrow> (\<forall>x \<in> set (map g xs). P x)" for xs by simp
  then show ?thesis using assms by metis
qed

lemma map_key_same: "(\<And>x. g (f x) = g x) \<Longrightarrow> map g (map f xs) = map g xs"
  by simp

lemma image_key_same: "(\<And>x. g (f x) = g x) \<Longrightarrow> g ` set (map f xs) = g ` set xs"
  by (simp add: image_image)

lemma distinct_map_filter_filter:
  "distinct (map f (filter P xs)) \<Longrightarrow> distinct (map f (filter P (filter Q xs)))"
  by (induction xs) auto

lemma distinct_map_same_key:
  "distinct (map f xs) \<Longrightarrow> x \<in> set xs \<Longrightarrow> y \<in> set xs \<Longrightarrow> f x = f y \<Longrightarrow> x = y"
  by (auto simp: distinct_map dest: inj_onD)

lemma find_SomeD: "find P xs = Some x \<Longrightarrow> x \<in> set xs \<and> P x"
  by (auto simp: find_Some_iff)

subsection \<open>Writers and readers\<close>

text \<open>
  An encoder and the decoder the code (or the format) pairs it with: what was written is read back.
  The components interpret it on their own pairs: hexadecimal keys, time stamps, the backup file.
\<close>

locale codec =
  fixes encode :: "'a \<Rightarrow> 'b"
    and decode :: "'b \<Rightarrow> 'a option"
    and valid :: "'a \<Rightarrow> bool"
  assumes decode_encode: "valid x \<Longrightarrow> decode (encode x) = Some x"
begin

lemma encode_inject: "valid x \<Longrightarrow> valid y \<Longrightarrow> encode x = encode y \<longleftrightarrow> x = y"
  by (metis decode_encode option.inject)

lemma decode_range: "valid x \<Longrightarrow> y = encode x \<Longrightarrow> decode y = Some x"
  by (simp add: decode_encode)

lemma inj_on_valid: "inj_on encode {x. valid x}"
  by (auto simp: inj_on_def encode_inject)

end

end
