(* ===== verification/Key_Cache.thy ===== *)
theory Key_Cache
  imports Prelude
begin

section \<open>The wrapping-key cache (\<open>src/ssm.cc\<close>)\<close>

text \<open>
  The handle keeps up to 256 derived wrapping keys, one slot per user, so that Argon2id need not run on
  every request: \<open>cache_lookup\<close>, \<open>cache_insert\<close> with its search for a free or least recently used slot,
  \<open>cache_invalidate\<close> and the counters behind \<open>ssm_cache_get_stats\<close>. The rest of the library relies on
  the interface \<open>key_store\<close>.
\<close>

definition SSM_CACHE_MAX :: nat where
  "SSM_CACHE_MAX = 256"

definition KEK_KEY_LEN :: nat where
  "KEK_KEY_LEN = 32"

record cache_entry =
  ce_user_id :: int
  ce_key :: bytes
  ce_last_used :: nat
  ce_valid :: bool

record cache =
  c_slots :: "cache_entry list"
  c_hits :: nat
  c_misses :: nat

text \<open>The handle is created in zero-filled memory.\<close>

definition empty_slot :: cache_entry where
  "empty_slot = \<lparr>ce_user_id = 0, ce_key = replicate KEK_KEY_LEN 0, ce_last_used = 0, ce_valid = False\<rparr>"

definition new_cache :: cache where
  "new_cache = \<lparr>c_slots = replicate SSM_CACHE_MAX empty_slot, c_hits = 0, c_misses = 0\<rparr>"

definition holds :: "int \<Rightarrow> cache_entry \<Rightarrow> bool" where
  "holds user_id e \<longleftrightarrow> ce_valid e \<and> ce_user_id e = user_id"

text \<open>The loop of \<open>cache_lookup\<close>: the first slot that holds the user, marked as used now.\<close>

fun lookup_slots :: "nat \<Rightarrow> int \<Rightarrow> cache_entry list \<Rightarrow> (bytes \<times> cache_entry list) option" where
  "lookup_slots now user_id [] = None"
| "lookup_slots now user_id (e # es) =
     (if holds user_id e then Some (ce_key e, e\<lparr>ce_last_used := now\<rparr> # es)
      else map_option (\<lambda>(k, es'). (k, e # es')) (lookup_slots now user_id es))"

definition cache_lookup :: "nat \<Rightarrow> int \<Rightarrow> cache \<Rightarrow> bytes option \<times> cache" where
  "cache_lookup now user_id c =
     (case lookup_slots now user_id (c_slots c) of
        Some (k, es) \<Rightarrow> (Some k, c\<lparr>c_slots := es, c_hits := c_hits c + 1\<rparr>)
      | None \<Rightarrow> (None, c\<lparr>c_misses := c_misses c + 1\<rparr>))"

text \<open>
  The loop of \<open>cache_insert\<close> with its variables \<open>i\<close>, \<open>oldest\<close> and \<open>slot\<close> (\<open>None\<close> for \<open>-1\<close>): it stops at a
  free slot, otherwise the slot used longest ago wins. \<open>oldest\<close> starts at one second from now.
\<close>

fun find_slot :: "nat \<Rightarrow> nat \<Rightarrow> nat option \<Rightarrow> cache_entry list \<Rightarrow> nat option" where
  "find_slot i oldest slot [] = slot"
| "find_slot i oldest slot (e # es) =
     (if \<not> ce_valid e then Some i
      else if ce_last_used e < oldest then find_slot (i + 1) (ce_last_used e) (Some i) es
      else find_slot (i + 1) oldest slot es)"

definition cache_insert :: "nat \<Rightarrow> int \<Rightarrow> bytes \<Rightarrow> cache \<Rightarrow> cache" where
  "cache_insert now user_id key c =
     (case find_slot 0 (now + 1) None (c_slots c) of
        None \<Rightarrow> c
      | Some i \<Rightarrow> c\<lparr>c_slots := (c_slots c)[i :=
          \<lparr>ce_user_id = user_id, ce_key = take KEK_KEY_LEN key, ce_last_used = now, ce_valid = True\<rparr>]\<rparr>)"

definition invalidate_slot :: "int \<Rightarrow> cache_entry \<Rightarrow> cache_entry" where
  "invalidate_slot user_id e =
     (if holds user_id e then e\<lparr>ce_key := replicate KEK_KEY_LEN 0, ce_valid := False\<rparr> else e)"

definition cache_invalidate :: "int \<Rightarrow> cache \<Rightarrow> cache" where
  "cache_invalidate user_id c = c\<lparr>c_slots := map (invalidate_slot user_id) (c_slots c)\<rparr>"

record ssm_cache_stats =
  total_entries :: nat
  valid_entries :: nat
  hit_count :: nat
  miss_count :: nat

definition cache_stats :: "cache \<Rightarrow> ssm_cache_stats" where
  "cache_stats c = \<lparr>total_entries = SSM_CACHE_MAX,
     valid_entries = length (filter ce_valid (c_slots c)),
     hit_count = c_hits c, miss_count = c_misses c\<rparr>"

text \<open>\<open>ssm_destroy\<close> wipes every valid key before the handle goes.\<close>

definition erase_all :: "cache \<Rightarrow> cache" where
  "erase_all c = c\<lparr>c_slots := map (\<lambda>e. if ce_valid e then e\<lparr>ce_key := replicate KEK_KEY_LEN 0\<rparr> else e)
                               (c_slots c)\<rparr>"

subsection \<open>The interface\<close>

text \<open>
  What a client may assume of a store of keys: it may forget anything at any time, but what it answers
  was put there for that user, and an invalidated user is gone. A property of keys that holds of
  everything inserted then holds of everything found, for as long as each change of the truth is
  followed by an invalidation.
\<close>

locale key_store =
  fixes lookup :: "'c \<Rightarrow> int \<Rightarrow> bytes option"
    and touch :: "nat \<Rightarrow> int \<Rightarrow> 'c \<Rightarrow> 'c"
    and insert :: "nat \<Rightarrow> int \<Rightarrow> bytes \<Rightarrow> 'c \<Rightarrow> 'c"
    and invalidate :: "int \<Rightarrow> 'c \<Rightarrow> 'c"
    and ok :: "'c \<Rightarrow> bool"
  assumes touch_lookup: "lookup (touch now u c) v = lookup c v"
    and insert_lookup: "ok c \<Longrightarrow> lookup c u = None \<Longrightarrow> length k = KEK_KEY_LEN \<Longrightarrow>
      lookup (insert now u k c) v = Some k' \<Longrightarrow> (v = u \<and> k' = k) \<or> (v \<noteq> u \<and> lookup c v = Some k')"
    and invalidate_lookup: "lookup (invalidate u c) v = (if v = u then None else lookup c v)"
    and touch_ok: "ok c \<Longrightarrow> ok (touch now u c)"
    and insert_ok: "ok c \<Longrightarrow> lookup c u = None \<Longrightarrow> length k = KEK_KEY_LEN \<Longrightarrow> ok (insert now u k c)"
    and invalidate_ok: "ok c \<Longrightarrow> ok (invalidate u c)"
begin

lemma agree_touch:
  "(\<And>v k. lookup c v = Some k \<Longrightarrow> truth v k) \<Longrightarrow> lookup (touch now u c) v = Some k \<Longrightarrow> truth v k"
  by (simp add: touch_lookup)

lemma agree_insert:
  assumes "ok c" and "lookup c u = None" and "length k = KEK_KEY_LEN"
    and "\<And>v k. lookup c v = Some k \<Longrightarrow> truth v k" and "truth u k"
    and "lookup (insert now u k c) v = Some k'"
  shows "truth v k'"
  using insert_lookup [OF assms(1-3,6)] assms(4,5) by auto

lemma agree_invalidate:
  assumes "\<And>v k. lookup c v = Some k \<Longrightarrow> truth v k"
    and "\<And>v k. v \<noteq> u \<Longrightarrow> truth v k \<Longrightarrow> truth' v k"
    and "lookup (invalidate u c) v = Some k"
  shows "truth' v k"
  using assms by (auto simp: invalidate_lookup split: if_splits)

end

subsection \<open>The cache implements it\<close>

text \<open>
  \<open>cached\<close> is what \<open>cache_lookup\<close> answers. \<open>cache_ok\<close>: 256 slots with 32-byte keys, at most one slot
  per user, and nothing but zeros in a slot that is not in use.
\<close>

definition cached :: "cache \<Rightarrow> int \<Rightarrow> bytes option" where
  "cached c user_id = map_option ce_key (find (holds user_id) (c_slots c))"

definition clean_slot :: "cache_entry \<Rightarrow> bool" where
  "clean_slot e \<longleftrightarrow> length (ce_key e) = KEK_KEY_LEN
     \<and> (ce_valid e \<or> ce_key e = replicate KEK_KEY_LEN 0)"

definition cache_ok :: "cache \<Rightarrow> bool" where
  "cache_ok c \<longleftrightarrow> length (c_slots c) = SSM_CACHE_MAX
     \<and> distinct (map ce_user_id (filter ce_valid (c_slots c)))
     \<and> (\<forall>e \<in> set (c_slots c). clean_slot e)"

lemma holds_last_used [simp]: "holds u (e\<lparr>ce_last_used := n\<rparr>) = holds u e"
  by (simp add: holds_def)

lemma lookup_slots_key: "map_option fst (lookup_slots now u es) = map_option ce_key (find (holds u) es)"
  by (induction es) (auto simp: option.map_comp comp_def split_beta)

text \<open>A lookup changes only when a slot was last used.\<close>

definition same_slot :: "cache_entry \<Rightarrow> cache_entry \<Rightarrow> bool" where
  "same_slot e e' \<longleftrightarrow> ce_user_id e' = ce_user_id e \<and> ce_key e' = ce_key e \<and> ce_valid e' = ce_valid e"

lemma lookup_slots_same:
  "lookup_slots now u es = Some (k, es') \<Longrightarrow> list_all2 same_slot es es'"
  by (induction es arbitrary: es') (auto simp: same_slot_def list_all2_refl split: if_splits)

lemma same_slots_find:
  "list_all2 same_slot es es' \<Longrightarrow>
   map_option ce_key (find (holds u) es') = map_option ce_key (find (holds u) es)"
  by (induction rule: list_all2_induct) (auto simp: holds_def same_slot_def)

lemma same_slots_ok:
  "list_all2 same_slot es es' \<Longrightarrow>
   length es' = length es
   \<and> map ce_user_id (filter ce_valid es') = map ce_user_id (filter ce_valid es)
   \<and> ((\<forall>e \<in> set es'. clean_slot e) \<longleftrightarrow> (\<forall>e \<in> set es. clean_slot e))"
  by (induction rule: list_all2_induct) (auto simp: same_slot_def clean_slot_def)

lemma cache_lookup_fst [simp]: "fst (cache_lookup now u c) = cached c u"
  using lookup_slots_key [of now u "c_slots c"]
  by (auto simp: cache_lookup_def cached_def split: option.splits)

lemma cached_lookup [simp]: "cached (snd (cache_lookup now u c)) v = cached c v"
  by (auto simp: cache_lookup_def cached_def dest: lookup_slots_same intro: same_slots_find
      split: option.splits)

lemma cache_lookup_ok [simp]:
  assumes "cache_ok c"
  shows "cache_ok (snd (cache_lookup now u c))"
proof (cases "lookup_slots now u (c_slots c)")
  case (Some p)
  then obtain k es where p: "lookup_slots now u (c_slots c) = Some (k, es)" by (cases p) simp
  note s = same_slots_ok [OF lookup_slots_same [OF p]]
  then show ?thesis using assms by (simp add: cache_lookup_def p cache_ok_def)
qed (use assms in \<open>simp add: cache_lookup_def cache_ok_def\<close>)

text \<open>
  \<open>find_slot\<close> answers the first free slot; when there is none, the first of the slots with the
  smallest \<open>last_used\<close>, provided it is below the bound it started with.
\<close>

lemma find_slot_free:
  "\<not> ce_valid e \<Longrightarrow> list_all ce_valid es \<Longrightarrow>
   find_slot i oldest slot (es @ e # fs) = Some (i + length es)"
  by (induction es arbitrary: i oldest slot) auto

lemma find_slot_full:
  "list_all ce_valid es \<Longrightarrow>
   find_slot i oldest slot es =
     (if \<exists>e \<in> set es. ce_last_used e < oldest
      then Some (i + (LEAST j. j < length es \<and> (\<forall>e \<in> set es. ce_last_used (es ! j) \<le> ce_last_used e)))
      else slot)"
proof (induction es arbitrary: i oldest slot)
  case (Cons e es)
  let ?P = "\<lambda>xs j. j < length xs \<and> (\<forall>x \<in> set xs. ce_last_used (xs ! j) \<le> ce_last_used x)"
  have ex: "\<exists>j. ?P es j" if "es \<noteq> []"
  proof -
    have "Min (ce_last_used ` set es) \<in> ce_last_used ` set es" using that by (intro Min_in) auto
    then obtain x where x: "x \<in> set es" "ce_last_used x = Min (ce_last_used ` set es)" by auto
    then obtain j where j: "j < length es" "es ! j = x" by (auto simp: in_set_conv_nth)
    have "ce_last_used (es ! j) \<le> ce_last_used y" if "y \<in> set es" for y
      using x j that by (simp add: Min_le)
    then show ?thesis using j by blast
  qed
  have head: "(LEAST j. ?P (e # es) j) = 0" if "\<forall>x \<in> set es. ce_last_used e \<le> ce_last_used x"
    by (rule Least_equality) (use that in auto)
  have tail: "(LEAST j. ?P (e # es) j) = Suc (LEAST j. ?P es j)"
    if "\<exists>x \<in> set es. ce_last_used x < ce_last_used e"
  proof -
    have ne: "es \<noteq> []" using that by auto
    obtain m where m: "?P es m" using ex [OF ne] by blast
    have lt: "ce_last_used (es ! j) < ce_last_used e" if "?P es j" for j
      using that \<open>\<exists>x \<in> set es. ce_last_used x < ce_last_used e\<close> by fastforce
    have eq: "?P (e # es) (Suc j) \<longleftrightarrow> ?P es j" for j
      using lt [of j] by (auto dest: less_imp_le)
    have "\<not> ?P (e # es) 0" using that by (auto simp: not_le)
    with eq m have "(LEAST j. ?P (e # es) j) = Suc (LEAST j. ?P (e # es) (Suc j))"
      by (intro Least_Suc [of _ "Suc m"]) blast+
    then show ?thesis by (simp only: eq)
  qed
  show ?case
    using Cons head tail by (auto simp: not_less not_le)
qed simp

lemma find_slot_range:
  "find_slot i oldest slot es = Some j \<Longrightarrow> slot = Some j \<or> (i \<le> j \<and> j < i + length es)"
proof (induction es arbitrary: i oldest slot)
  case (Cons e es)
  show ?case
    using Cons.prems Cons.IH [of "i + 1" "ce_last_used e" "Some i"] Cons.IH [of "i + 1" oldest slot]
    by (cases "ce_valid e"; cases "ce_last_used e < oldest") auto
qed simp

lemma find_slot_some:
  "find_slot i oldest slot es = None \<Longrightarrow> slot = None \<and> (\<forall>e \<in> set es. ce_valid e \<and> oldest \<le> ce_last_used e)"
proof (induction es arbitrary: i oldest slot)
  case (Cons e es)
  show ?case
    using Cons.prems Cons.IH [of "i + 1" "ce_last_used e" "Some i"] Cons.IH [of "i + 1" oldest slot]
    by (cases "ce_valid e"; cases "ce_last_used e < oldest") auto
qed simp

lemma cached_iff:
  assumes "cache_ok c"
  shows "cached c v = Some k \<longleftrightarrow> (\<exists>e \<in> set (c_slots c). holds v e \<and> ce_key e = k)"
proof
  show "\<exists>e \<in> set (c_slots c). holds v e \<and> ce_key e = k" if "cached c v = Some k"
    using that by (auto simp: cached_def dest!: find_SomeD)
next
  assume "\<exists>e \<in> set (c_slots c). holds v e \<and> ce_key e = k"
  then obtain e where e: "e \<in> set (c_slots c)" "holds v e" "ce_key e = k" by blast
  have d: "distinct (map ce_user_id (filter ce_valid (c_slots c)))"
    using assms by (simp add: cache_ok_def)
  have "find (holds v) (c_slots c) = Some e"
    using e by (intro find_unique) (auto intro!: distinct_map_same_key [OF d] simp: holds_def)
  then show "cached c v = Some k" using e by (simp add: cached_def)
qed

lemma cached_None: "cached c v = None \<longleftrightarrow> (\<forall>e \<in> set (c_slots c). \<not> holds v e)"
  by (auto simp: cached_def find_None_iff)

lemma update_slot_ok:
  assumes ok: "cache_ok c" and "cached c u = None" and k: "length k = KEK_KEY_LEN"
    and i: "i < length (c_slots c)"
  shows "cache_ok (c\<lparr>c_slots := (c_slots c)[i :=
    \<lparr>ce_user_id = u, ce_key = k, ce_last_used = now, ce_valid = True\<rparr>]\<rparr>)"
proof -
  let ?es = "c_slots c"
  have es: "?es = take i ?es @ ?es ! i # drop (Suc i) ?es" by (rule id_take_nth_drop [OF i])
  have "distinct (map ce_user_id (filter ce_valid (take i ?es @ ?es ! i # drop (Suc i) ?es)))"
    using ok es by (simp add: cache_ok_def)
  then have d: "distinct (map ce_user_id (filter ce_valid (take i ?es @ drop (Suc i) ?es)))"
    by (simp split: if_splits)
  have "set (take i ?es @ drop (Suc i) ?es) \<subseteq> set ?es"
    using set_take_subset set_drop_subset by fastforce
  then have "u \<notin> ce_user_id ` set (filter ce_valid (take i ?es @ drop (Suc i) ?es))"
    using assms(2) by (fastforce simp: cached_None holds_def)
  with d have "distinct (map ce_user_id (filter ce_valid
      (?es[i := \<lparr>ce_user_id = u, ce_key = k, ce_last_used = now, ce_valid = True\<rparr>])))"
    by (auto simp: upd_conv_take_nth_drop [OF i])
  then show ?thesis
    using ok k set_update_subset_insert [of ?es i] by (fastforce simp: cache_ok_def clean_slot_def)
qed

lemma cache_insert_ok:
  assumes "cache_ok c" and "cached c u = None" and "length k = KEK_KEY_LEN"
  shows "cache_ok (cache_insert now u k c)"
proof (cases "find_slot 0 (now + 1) None (c_slots c)")
  case (Some i)
  then have "i < length (c_slots c)" using find_slot_range [OF Some] by simp
  then show ?thesis using update_slot_ok [OF assms] Some assms(3) by (simp add: cache_insert_def)
qed (use assms in \<open>simp add: cache_insert_def\<close>)

lemma cached_insert:
  assumes ok: "cache_ok c" and n: "cached c u = None" and k: "length k = KEK_KEY_LEN"
    and "cached (cache_insert now u k c) v = Some k'"
  shows "(v = u \<and> k' = k) \<or> (v \<noteq> u \<and> cached c v = Some k')"
proof (cases "find_slot 0 (now + 1) None (c_slots c)")
  case (Some i)
  have "\<exists>e \<in> set (c_slots (cache_insert now u k c)). holds v e \<and> ce_key e = k'"
    using cached_iff [OF cache_insert_ok [OF ok n k]] assms(4) by blast
  then obtain e where e: "e \<in> set ((c_slots c)[i := \<lparr>ce_user_id = u, ce_key = k, ce_last_used = now,
      ce_valid = True\<rparr>])" "holds v e" "ce_key e = k'"
    using Some k by (auto simp: cache_insert_def)
  then consider "e = \<lparr>ce_user_id = u, ce_key = k, ce_last_used = now, ce_valid = True\<rparr>"
    | "e \<in> set (c_slots c)" using set_update_subset_insert by fastforce
  then show ?thesis
    using e cached_iff [OF ok, of v k'] n by cases (auto simp: holds_def cached_None)
qed (use assms in \<open>auto simp: cache_insert_def\<close>)

lemma cached_after_insert:
  assumes "cache_ok c" and "cached c u = None" and "length k = KEK_KEY_LEN"
    and "\<forall>e \<in> set (c_slots c). ce_last_used e \<le> now"
  shows "cached (cache_insert now u k c) u = Some k"
proof (cases "find_slot 0 (now + 1) None (c_slots c)")
  case None
  have "c_slots c \<noteq> []" using assms(1) by (auto simp: cache_ok_def SSM_CACHE_MAX_def)
  then obtain e where "e \<in> set (c_slots c)" by (cases "c_slots c") auto
  then show ?thesis using find_slot_some [OF None] assms(4) by fastforce
next
  case (Some i)
  then have i: "i < length (c_slots c)" using find_slot_range [OF Some] by simp
  have "\<lparr>ce_user_id = u, ce_key = k, ce_last_used = now, ce_valid = True\<rparr>
      \<in> set (c_slots (cache_insert now u k c))"
    using Some i assms(3) by (simp add: cache_insert_def set_update_memI)
  then show ?thesis
    using cached_iff [OF cache_insert_ok [OF assms(1-3)], of now u k] by (force simp: holds_def)
qed

lemma cached_invalidate: "cached (cache_invalidate u c) v = (if v = u then None else cached c v)"
proof -
  have "holds v (invalidate_slot u e) \<longleftrightarrow> v \<noteq> u \<and> holds v e" for e
    by (auto simp: holds_def invalidate_slot_def)
  moreover have "v \<noteq> u \<Longrightarrow> holds v e \<Longrightarrow> invalidate_slot u e = e" for e
    by (auto simp: holds_def invalidate_slot_def)
  ultimately have "find (holds v) (map (invalidate_slot u) es)
      = (if v = u then None else find (holds v) es)" for es
    by (induction es) auto
  then show ?thesis by (simp add: cached_def cache_invalidate_def)
qed

lemma cache_invalidate_ok: "cache_ok c \<Longrightarrow> cache_ok (cache_invalidate u c)"
proof -
  assume ok: "cache_ok c"
  have "map ce_user_id (filter ce_valid (map (invalidate_slot u) es))
      = filter (\<lambda>v. v \<noteq> u) (map ce_user_id (filter ce_valid es))" for es
    by (induction es) (auto simp: invalidate_slot_def holds_def)
  then show ?thesis using ok
    by (auto simp: cache_ok_def cache_invalidate_def invalidate_slot_def KEK_KEY_LEN_def clean_slot_def)
qed

lemma new_cache_ok: "cache_ok new_cache"
proof -
  have "filter ce_valid (replicate n empty_slot) = []" for n
    by (simp add: empty_slot_def)
  moreover have "clean_slot empty_slot" by (simp add: clean_slot_def empty_slot_def)
  ultimately show ?thesis by (simp add: cache_ok_def new_cache_def)
qed

lemma cached_new [simp]: "cached new_cache u = None"
  by (auto simp: cached_None new_cache_def empty_slot_def holds_def)

definition cache_touch :: "nat \<Rightarrow> int \<Rightarrow> cache \<Rightarrow> cache" where
  "cache_touch now u c = snd (cache_lookup now u c)"

interpretation keys: key_store cached cache_touch cache_insert cache_invalidate cache_ok
proof unfold_locales
  fix c :: cache and u v now k k'
  show "cached (cache_touch now u c) v = cached c v" by (simp add: cache_touch_def)
  show "v = u \<and> k' = k \<or> v \<noteq> u \<and> cached c v = Some k'"
    if "cache_ok c" "cached c u = None" "length k = KEK_KEY_LEN"
      "cached (cache_insert now u k c) v = Some k'" by (rule cached_insert [OF that])
  show "cached (cache_invalidate u c) v = (if v = u then None else cached c v)"
    by (rule cached_invalidate)
  show "cache_ok (cache_touch now u c)" if "cache_ok c" using that by (simp add: cache_touch_def)
  show "cache_ok (cache_insert now u k c)"
    if "cache_ok c" "cached c u = None" "length k = KEK_KEY_LEN" by (rule cache_insert_ok [OF that])
  show "cache_ok (cache_invalidate u c)" if "cache_ok c" by (rule cache_invalidate_ok [OF that])
qed

subsection \<open>Properties\<close>

lemma full_insert_slot:
  assumes ok: "cache_ok c" and full: "list_all ce_valid (c_slots c)"
    and t: "\<forall>e \<in> set (c_slots c). ce_last_used e \<le> now"
  shows "\<exists>i < SSM_CACHE_MAX. find_slot 0 (now + 1) None (c_slots c) = Some i
    \<and> (\<forall>e \<in> set (c_slots c). ce_last_used (c_slots c ! i) \<le> ce_last_used e)"
proof -
  let ?es = "c_slots c" and ?P = "\<lambda>j. j < length (c_slots c)
    \<and> (\<forall>e \<in> set (c_slots c). ce_last_used (c_slots c ! j) \<le> ce_last_used e)"
  have l: "length ?es = SSM_CACHE_MAX" using ok by (simp add: cache_ok_def)
  then have "?es \<noteq> []" by (auto simp: SSM_CACHE_MAX_def)
  then obtain e where e: "e \<in> set ?es" by (cases ?es) auto
  have "\<exists>j. ?P j"
  proof -
    have "Min (ce_last_used ` set ?es) \<in> ce_last_used ` set ?es" using e by (intro Min_in) auto
    then obtain x where x: "x \<in> set ?es" "ce_last_used x = Min (ce_last_used ` set ?es)" by auto
    obtain j where "j < length ?es" "?es ! j = x" using x(1) by (auto simp: in_set_conv_nth)
    then have "?P j" using x by (simp add: Min_le)
    then show ?thesis ..
  qed
  then have least: "?P (LEAST j. ?P j)" by (rule LeastI_ex)
  moreover have "\<exists>x \<in> set ?es. ce_last_used x < now + 1"
    using e t by (intro bexI [of _ e]) (auto simp: less_Suc_eq_le)
  then have "find_slot 0 (now + 1) None ?es = Some (LEAST j. ?P j)"
    using find_slot_full [OF full, of 0 "now + 1" None] by simp
  ultimately show ?thesis using l by (intro exI [of _ "LEAST j. ?P j"] conjI) simp_all
qed

text \<open>
  C29. When every slot is taken, inserting a key evicts exactly one entry, and that entry is one that was
  used longest ago; the new key takes its place and all other slots are untouched.
\<close>

theorem insert_evicts_least_recently_used:
  assumes "cache_ok c" and "list_all ce_valid (c_slots c)"
    and "\<forall>e \<in> set (c_slots c). ce_last_used e \<le> now"
  shows "\<exists>i < SSM_CACHE_MAX.
    (\<forall>e \<in> set (c_slots c). ce_last_used (c_slots c ! i) \<le> ce_last_used e)
    \<and> (\<forall>j < SSM_CACHE_MAX. c_slots (cache_insert now u k c) ! j =
         (if j = i then \<lparr>ce_user_id = u, ce_key = take KEK_KEY_LEN k, ce_last_used = now, ce_valid = True\<rparr>
          else c_slots c ! j))"
proof -
  obtain i where i: "i < SSM_CACHE_MAX" "find_slot 0 (now + 1) None (c_slots c) = Some i"
    "\<forall>e \<in> set (c_slots c). ce_last_used (c_slots c ! i) \<le> ce_last_used e"
    using full_insert_slot [OF assms] by blast
  have "length (c_slots c) = SSM_CACHE_MAX" using assms(1) by (simp add: cache_ok_def)
  then show ?thesis using i by (intro exI [of _ i]) (simp add: cache_insert_def nth_list_update)
qed

text \<open>
  The statistics count the slots in use, which are never more than the 256 there are and no two for
  the same user, and every lookup adds exactly one to the hits if the user is cached and to the misses
  if not.
\<close>

theorem cache_stats_count:
  assumes "cache_ok c"
  shows "valid_entries (cache_stats c) = card {u. cached c u \<noteq> None}
    \<and> valid_entries (cache_stats c) \<le> total_entries (cache_stats c)
    \<and> hit_count (cache_stats (snd (cache_lookup now u c)))
        = hit_count (cache_stats c) + (if cached c u = None then 0 else 1)
    \<and> miss_count (cache_stats (snd (cache_lookup now u c)))
        = miss_count (cache_stats c) + (if cached c u = None then 1 else 0)"
proof -
  have "{u. cached c u \<noteq> None} = ce_user_id ` set (filter ce_valid (c_slots c))"
    by (force simp: cached_None holds_def)
  moreover have d: "distinct (map ce_user_id (filter ce_valid (c_slots c)))"
    using assms by (simp add: cache_ok_def)
  ultimately have "card {u. cached c u \<noteq> None} = length (filter ce_valid (c_slots c))"
    using distinct_card [OF d] by simp
  moreover have "length (filter ce_valid (c_slots c)) \<le> SSM_CACHE_MAX"
    using assms length_filter_le [of ce_valid "c_slots c"] by (simp add: cache_ok_def)
  moreover have "cached c u = None \<longleftrightarrow> lookup_slots now u (c_slots c) = None"
    using cache_lookup_fst [of now u c] by (cases "cached c u") (auto simp: cache_lookup_def split: option.splits)
  ultimately show ?thesis by (auto simp: cache_stats_def cache_lookup_def split: option.split)
qed

lemma erase_all_zero:
  assumes "cache_ok c" and "e \<in> set (c_slots (erase_all c))"
  shows "ce_key e = replicate KEK_KEY_LEN 0"
proof -
  obtain x where "x \<in> set (c_slots c)"
    "e = (if ce_valid x then x\<lparr>ce_key := replicate KEK_KEY_LEN 0\<rparr> else x)"
    using assms(2) by (auto simp: erase_all_def)
  then show ?thesis using assms(1) by (auto simp: cache_ok_def clean_slot_def)
qed

end
