(* ===== verification/Secure_Memory.thy ===== *)
theory Secure_Memory
  imports Prelude
begin

section \<open>Locked memory and the operating system (\<open>src/utils\<close>, \<open>src/crypto/random.cc\<close>)\<close>

text \<open>
  The part of the machine the library reads: the clock, libsodium's random generator, and whether
  the next \<open>calloc\<close>/\<open>mlock\<close> succeeds. \<open>secure_alloc\<close> answers a zero-filled block or nothing;
  \<open>secure_buffer\<close> and \<open>secure_vector\<close> own such a block. A block of \<open>n\<close> elements is a list of length
  \<open>n\<close>; a null pointer is \<open>None\<close>.
\<close>

record machine =
  m_now :: nat
  m_rand :: "nat \<Rightarrow> byte"
  m_pos :: nat
  m_alloc :: "bool list"

definition SIZE_MAX :: nat where
  "SIZE_MAX = 2 ^ 64 - 1"

definition random_bytes :: "nat \<Rightarrow> machine \<Rightarrow> bytes \<times> machine" where
  "random_bytes len m =
     (map (\<lambda>i. m_rand m (m_pos m + i)) [0..<len], m\<lparr>m_pos := m_pos m + len\<rparr>)"

definition secure_alloc :: "nat \<Rightarrow> machine \<Rightarrow> bytes option \<times> machine" where
  "secure_alloc n m =
     (if n = 0 then (None, m)
      else (let (bad, rest) = next_fault (m_alloc m)
            in (if bad then None else Some (replicate n 0), m\<lparr>m_alloc := rest\<rparr>)))"

definition secure_erase :: "'a::zero list \<Rightarrow> 'a list" where
  "secure_erase buf = replicate (length buf) 0"

text \<open>\<open>data()\<close> of a \<open>std::vector\<close>: null when there is nothing in it.\<close>

definition vec_data :: "'a list \<Rightarrow> 'a list option" where
  "vec_data xs = (if xs = [] then None else Some xs)"

text \<open>
  The buffers a function declares one after the other are all constructed before the code tests
  them; the test succeeds when none is null.
\<close>

fun secure_buffers :: "nat list \<Rightarrow> machine \<Rightarrow> bool \<times> machine" where
  "secure_buffers [] m = (True, m)"
| "secure_buffers (n # ns) m =
     (let (b, m1) = secure_alloc n m; (ok, m2) = secure_buffers ns m1 in (b \<noteq> None \<and> ok, m2))"

subsection \<open>\<open>secure_buffer<T>\<close> and \<open>secure_vector<T>\<close>\<close>

text \<open>
  \<open>w\<close> is \<open>sizeof(T)\<close>. The pair of data pointer and size is one optional list: a null pointer goes
  with size 0. The two constructors differ in the guard on a zero count, which makes no difference.
\<close>

type_synonym 'a secure_vec = "'a list option"

definition alloc_elements :: "nat \<Rightarrow> nat \<Rightarrow> machine \<Rightarrow> 'a::zero secure_vec \<times> machine" where
  "alloc_elements w count m =
     (let (b, m1) = secure_alloc (count * w) m in (map_option (\<lambda>_. replicate count 0) b, m1))"

definition secure_buffer_new :: "nat \<Rightarrow> nat \<Rightarrow> machine \<Rightarrow> 'a::zero secure_vec \<times> machine" where
  "secure_buffer_new w count m =
     (if count \<noteq> 0 \<and> count > SIZE_MAX div w then (None, m) else alloc_elements w count m)"

definition secure_vector_new :: "nat \<Rightarrow> nat \<Rightarrow> machine \<Rightarrow> 'a::zero secure_vec \<times> machine" where
  "secure_vector_new w count m =
     (if count > SIZE_MAX div w then (None, m) else alloc_elements w count m)"

definition vec_size :: "'a secure_vec \<Rightarrow> nat" where
  "vec_size v = (case v of None \<Rightarrow> 0 | Some xs \<Rightarrow> length xs)"

text \<open>
  Moving out of a vector leaves it null; \<open>clear\<close> runs the erase on the block before it is freed and
  leaves null behind, so the second component is what the freed memory holds.
\<close>

definition vec_move :: "'a secure_vec \<Rightarrow> 'a secure_vec \<times> 'a secure_vec" where
  "vec_move v = (v, None)"

definition vec_clear :: "'a::zero secure_vec \<Rightarrow> 'a secure_vec \<times> 'a list" where
  "vec_clear v = (None, case v of None \<Rightarrow> [] | Some xs \<Rightarrow> secure_erase xs)"

text \<open>
  Move assignment clears the target first, unless it is the source itself; the source is left null. A
  \<open>secure_buffer\<close> does the same with \<open>release\<close>. The answers are the target, the source, and what the freed
  memory of the target holds.
\<close>

definition vec_assign :: "'a::zero secure_vec \<Rightarrow> 'a secure_vec \<Rightarrow> 'a secure_vec \<times> 'a secure_vec \<times> 'a list" where
  "vec_assign target source = (let (_, freed) = vec_clear target; (taken, left) = vec_move source in (taken, left, freed))"

definition buffer_release :: "'a::zero secure_vec \<Rightarrow> 'a secure_vec \<times> 'a list" where
  "buffer_release b = (None, case b of None \<Rightarrow> [] | Some xs \<Rightarrow> secure_erase xs)"

definition buffer_assign :: "'a::zero secure_vec \<Rightarrow> 'a secure_vec \<Rightarrow> 'a secure_vec \<times> 'a secure_vec \<times> 'a list" where
  "buffer_assign target source = (let (_, freed) = buffer_release target in (source, None, freed))"

text \<open>
  \<open>resize\<close> does not test the new block: when the allocation fails, the copying loops construct
  elements through a null pointer, undefined behaviour unless both loops are empty. That outcome is
  the value \<open>None\<close> of the outer option.
\<close>

definition vec_resize ::
  "nat \<Rightarrow> nat \<Rightarrow> 'a::zero secure_vec \<Rightarrow> machine \<Rightarrow> ('a secure_vec \<times> machine) option" where
  "vec_resize w new_size v m =
     (if new_size = vec_size v then Some (v, m)
      else if new_size > SIZE_MAX div w then Some (v, m)
      else (let (b, m1) = secure_alloc (new_size * w) m;
                copy_size = min (vec_size v) new_size;
                old = (case v of None \<Rightarrow> [] | Some xs \<Rightarrow> xs)
            in (case b of
                  None \<Rightarrow> if new_size = 0 then Some (None, m1) else None
                | Some _ \<Rightarrow> Some (Some (take copy_size old @ replicate (new_size - copy_size) 0), m1))))"

subsection \<open>What they guarantee\<close>

lemma length_random_bytes [simp]: "length (fst (random_bytes n m)) = n"
  by (simp add: random_bytes_def)

lemma random_bytes_frame [frame_simps]:
  "m_now (snd (random_bytes n m)) = m_now m" "m_alloc (snd (random_bytes n m)) = m_alloc m"
  "m_rand (snd (random_bytes n m)) = m_rand m"
  by (simp_all add: random_bytes_def)

lemma secure_alloc_frame [frame_simps]:
  "m_now (snd (secure_alloc n m)) = m_now m" "m_rand (snd (secure_alloc n m)) = m_rand m"
  "m_pos (snd (secure_alloc n m)) = m_pos m"
  by (auto simp: secure_alloc_def split: prod.splits)

lemma secure_alloc_Some: "secure_alloc n m = (Some b, m') \<Longrightarrow> b = replicate n 0 \<and> 0 < n"
  by (auto simp: secure_alloc_def split: if_splits prod.splits)

lemma secure_alloc_ok [simp]:
  "m_alloc m = [] \<Longrightarrow> 0 < n \<Longrightarrow> secure_alloc n m = (Some (replicate n 0), m)"
  by (simp add: secure_alloc_def)

lemma secure_buffers_frame [frame_simps]:
  "m_now (snd (secure_buffers ns m)) = m_now m" "m_rand (snd (secure_buffers ns m)) = m_rand m"
  "m_pos (snd (secure_buffers ns m)) = m_pos m"
  by (induction ns arbitrary: m; simp add: split_beta Let_def frame_simps)+

lemma secure_buffers_ok [simp]:
  "m_alloc m = [] \<Longrightarrow> \<forall>n \<in> set ns. 0 < n \<Longrightarrow> secure_buffers ns m = (True, m)"
  by (induction ns) auto

text \<open>Whatever a buffer or vector gives up, by assignment, release or clearing, is zeros when it is freed.\<close>

lemma freed_memory_erased:
  "snd (vec_clear v) = replicate (vec_size v) 0"
  "vec_assign v x = (x, None, replicate (vec_size v) 0)"
  "buffer_assign v x = (x, None, replicate (vec_size v) 0)"
  by (cases v; simp add: vec_clear_def vec_size_def vec_assign_def vec_move_def buffer_assign_def buffer_release_def
      secure_erase_def)+

lemma vec_resize_contents:
  assumes "vec_resize w n v m = Some (v', m')" and "n \<le> SIZE_MAX div w" and "0 < n"
  shows "vec_size v' = n
    \<and> (\<forall>i < n. the v' ! i = (if i < vec_size v then the v ! i else 0))"
  using assms
  by (cases v) (auto simp: vec_resize_def vec_size_def Let_def nth_append
      split: if_splits prod.splits option.splits)

text \<open>
  Growing or shrinking a \<open>secure_vector\<close> keeps the elements up to the smaller size and fills the rest
  with zeros, when the allocation succeeds; when it fails, there is no defined outcome, whatever the
  vector held.
\<close>

theorem vec_resize_keeps_elements:
  assumes "n \<le> SIZE_MAX div w" and "0 < n" and "0 < w" and "n \<noteq> vec_size v"
  shows "(m_alloc m = [] \<longrightarrow> (\<exists>v' m'. vec_resize w n v m = Some (v', m') \<and> vec_size v' = n
       \<and> (\<forall>i < n. the v' ! i = (if i < vec_size v then the v ! i else 0))))
    \<and> (m_alloc m = [True] \<longrightarrow> vec_resize w n v m = None)"
proof -
  have "\<exists>v' m'. vec_resize w n v m = Some (v', m')" if "m_alloc m = []"
    using assms that by (simp add: vec_resize_def Let_def)
  moreover have "vec_resize w n v m = None" if "m_alloc m = [True]"
    using assms that by (simp add: vec_resize_def secure_alloc_def)
  ultimately show ?thesis using vec_resize_contents [OF _ assms(1,2)] by blast
qed

end
