(* ===== verification/Crypto.thy ===== *)
theory Crypto
  imports Secure_Memory
begin

section \<open>The cryptographic wrappers (\<open>src/crypto\<close>)\<close>

text \<open>
  libsodium and OpenSSL are not part of the repository: their primitives are the fields of a record
  of functions every routine takes as its first argument. A primitive that can fail answers an
  option. \<open>lawful\<close> states what their documentation promises and the proofs use; a property names it
  as a hypothesis where it needs it.
\<close>

record provider =
  pv_pwhash :: "bytes \<Rightarrow> bytes \<Rightarrow> bytes option"
  pv_pwhash_str :: "bytes \<Rightarrow> bytes \<Rightarrow> bytes option"
  pv_pwhash_str_verify :: "bytes \<Rightarrow> bytes \<Rightarrow> bool"
  pv_gcm_seal :: "bytes \<Rightarrow> bytes \<Rightarrow> bytes \<Rightarrow> bytes \<Rightarrow> (bytes \<times> bytes) option"
  pv_gcm_open :: "bytes \<Rightarrow> bytes \<Rightarrow> bytes \<Rightarrow> bytes \<Rightarrow> bytes \<Rightarrow> bytes option"
  pv_kw_wrap :: "bytes \<Rightarrow> bytes \<Rightarrow> bytes option"
  pv_kw_unwrap :: "bytes \<Rightarrow> bytes \<Rightarrow> bytes option"
  pv_sha256 :: "bytes \<Rightarrow> bytes"
  pv_hmac :: "bytes \<Rightarrow> bytes \<Rightarrow> bytes"

text \<open>
  \<^item> \<open>pv_pwhash password salt\<close> is \<open>crypto_pwhash\<close> with a 32-byte output and the MODERATE limits;
    \<open>pv_pwhash_str password r\<close> is \<open>crypto_pwhash_str\<close> with the random salt \<open>r\<close> it draws, and
    \<open>pv_pwhash_str_verify hash password\<close> its check.
  \<^item> \<open>pv_gcm_seal key iv aad plaintext\<close> and \<open>pv_gcm_open key iv aad ciphertext tag\<close> are the EVP calls of
    AES-256-GCM in the order the wrappers make them, with the full 16-byte tag.
  \<^item> \<open>pv_kw_wrap key plaintext\<close> and \<open>pv_kw_unwrap key ciphertext\<close> are \<open>EVP_aes_256_wrap\<close> (RFC 3394).
  \<^item> \<open>pv_sha256\<close> and \<open>pv_hmac key\<close> are the streaming hashes of libsodium over everything fed to them.
\<close>

definition crypto_pwhash_STRBYTES :: nat where
  "crypto_pwhash_STRBYTES = 128"

definition crypto_pwhash_SALTBYTES :: nat where
  "crypto_pwhash_SALTBYTES = 16"

subsection \<open>\<open>argon2id.cc\<close>\<close>

definition argon2id_hash ::
  "provider \<Rightarrow> bytes \<Rightarrow> nat \<Rightarrow> machine \<Rightarrow> bytes option \<times> machine" where
  "argon2id_hash cr password hash_len m =
     (if hash_len < crypto_pwhash_STRBYTES then (None, m)
      else (let (salt, m1) = random_bytes crypto_pwhash_SALTBYTES m
            in (pv_pwhash_str cr password salt, m1)))"

definition argon2id_verify :: "provider \<Rightarrow> bytes \<Rightarrow> bytes \<Rightarrow> bool" where
  "argon2id_verify cr password hash =
     (if length hash < crypto_pwhash_STRBYTES then False
      else pv_pwhash_str_verify cr hash password)"

subsection \<open>\<open>aes_gcm.cc\<close>\<close>

definition AES_GCM_NONCE_LEN :: nat where
  "AES_GCM_NONCE_LEN = 12"

definition AES_GCM_TAG_LEN :: nat where
  "AES_GCM_TAG_LEN = 16"

text \<open>
  Pointers are options. The output buffer is passed with its contents, because only the bytes the
  cipher produces are overwritten. The length goes through \<open>static_cast<int>\<close>, so the cipher sees
  \<open>c_int plaintext_len\<close> bytes; a negative count is taken as a failing call. \<open>key_len\<close> is not looked
  at: 32 bytes are read.
\<close>

definition aes_gcm_encrypt ::
  "provider \<Rightarrow> bytes option \<Rightarrow> nat \<Rightarrow> bytes option \<Rightarrow> bytes option \<Rightarrow> bytes option
   \<Rightarrow> bytes option \<Rightarrow> nat \<Rightarrow> (bytes \<times> bytes) option" where
  "aes_gcm_encrypt cr plaintext plaintext_len key nonce aad ciphertext_out tag_len =
     (case (key, nonce, ciphertext_out) of
        (Some k, Some n, Some out) \<Rightarrow>
          (if plaintext_len > 0 \<and> plaintext = None then None
           else if c_int plaintext_len < 0 then None
           else (case pv_gcm_seal cr (take 32 k) n (case aad of None \<Rightarrow> [] | Some a \<Rightarrow> a)
                        (take (nat (c_int plaintext_len))
                           (case plaintext of None \<Rightarrow> [] | Some p \<Rightarrow> p)) of
                   None \<Rightarrow> None
                 | Some (c, t) \<Rightarrow>
                     if tag_len > 16 then None
                     else Some (c @ drop (length c) out, take tag_len t)))
      | _ \<Rightarrow> None)"

definition aes_gcm_decrypt ::
  "provider \<Rightarrow> bytes option \<Rightarrow> nat \<Rightarrow> bytes option \<Rightarrow> bytes option \<Rightarrow> bytes option
   \<Rightarrow> bytes option \<Rightarrow> bytes option \<Rightarrow> bytes option" where
  "aes_gcm_decrypt cr ciphertext ciphertext_len key nonce aad tag plaintext_out =
     (case (ciphertext, key, nonce, tag, plaintext_out) of
        (Some c, Some k, Some n, Some t, Some out) \<Rightarrow>
          (if c_int ciphertext_len < 0 then None
           else if length t > 64 then None
           else (case pv_gcm_open cr (take 32 k) n (case aad of None \<Rightarrow> [] | Some a \<Rightarrow> a)
                        (take (nat (c_int ciphertext_len)) c) t of
                   None \<Rightarrow> None
                 | Some p \<Rightarrow> Some (p @ drop (length p) out)))
      | _ \<Rightarrow> None)"

subsection \<open>\<open>aes_kw.cc\<close>\<close>

definition AES_KW_BLOCK :: nat where
  "AES_KW_BLOCK = 8"

definition AES_256_KEY_LEN :: nat where
  "AES_256_KEY_LEN = 32"

definition aes_kw_wrap :: "provider \<Rightarrow> bytes option \<Rightarrow> bytes option \<Rightarrow> bytes option" where
  "aes_kw_wrap cr plaintext kek =
     (case (plaintext, kek) of
        (Some p, Some k) \<Rightarrow>
          (if length k \<noteq> AES_256_KEY_LEN then None
           else if length p mod AES_KW_BLOCK \<noteq> 0 \<or> length p = 0 then None
           else pv_kw_wrap cr k p)
      | _ \<Rightarrow> None)"

text \<open>
  The answer is what the cipher writes through \<open>plaintext_out\<close>; its length is the new
  \<open>*plaintext_len\<close>. The code never compares it with the size of the buffer.
\<close>

definition aes_kw_unwrap :: "provider \<Rightarrow> bytes option \<Rightarrow> bytes option \<Rightarrow> bytes option" where
  "aes_kw_unwrap cr ciphertext kek =
     (case (ciphertext, kek) of
        (Some c, Some k) \<Rightarrow>
          (if length k \<noteq> AES_256_KEY_LEN then None
           else if length c mod AES_KW_BLOCK \<noteq> 0 then None
           else pv_kw_unwrap cr k c)
      | _ \<Rightarrow> None)"

subsection \<open>What the libraries promise\<close>

definition gcm_law :: "provider \<Rightarrow> bool" where
  "gcm_law cr \<longleftrightarrow>
     (\<forall>k n a p c t. pv_gcm_seal cr k n a p = Some (c, t) \<longrightarrow>
        pv_gcm_open cr k n a c t = Some p \<and> length c = length p \<and> length t = 16)
     \<and> (\<forall>k n a c t p. pv_gcm_open cr k n a c t = Some p \<longrightarrow> length p = length c)"

definition kw_law :: "provider \<Rightarrow> bool" where
  "kw_law cr \<longleftrightarrow>
     (\<forall>k p c. pv_kw_wrap cr k p = Some c \<longrightarrow>
        pv_kw_unwrap cr k c = Some p \<and> length c = length p + 8)"

definition pwhash_law :: "provider \<Rightarrow> bool" where
  "pwhash_law cr \<longleftrightarrow>
     (\<forall>p s k. pv_pwhash cr p s = Some k \<longrightarrow> length k = 32)
     \<and> (\<forall>p s h. pv_pwhash_str cr p s = Some h \<longrightarrow>
          length h = 128 \<and> pv_pwhash_str_verify cr h p)"

definition hash_law :: "provider \<Rightarrow> bool" where
  "hash_law cr \<longleftrightarrow> (\<forall>x. length (pv_sha256 cr x) = 32) \<and> (\<forall>k x. length (pv_hmac cr k x) = 32)"

definition lawful :: "provider \<Rightarrow> bool" where
  "lawful cr \<longleftrightarrow> gcm_law cr \<and> kw_law cr \<and> pwhash_law cr \<and> hash_law cr"

lemma lawful_seal:
  "lawful cr \<Longrightarrow> pv_gcm_seal cr k n a p = Some (c, t) \<Longrightarrow>
   pv_gcm_open cr k n a c t = Some p \<and> length c = length p \<and> length t = 16"
  by (simp add: lawful_def gcm_law_def)

lemma lawful_open:
  "lawful cr \<Longrightarrow> pv_gcm_open cr k n a c t = Some p \<Longrightarrow> length p = length c"
  unfolding lawful_def gcm_law_def by blast

lemma lawful_wrap:
  "lawful cr \<Longrightarrow> pv_kw_wrap cr k p = Some c \<Longrightarrow>
   pv_kw_unwrap cr k c = Some p \<and> length c = length p + 8"
  by (simp add: lawful_def kw_law_def)

lemma lawful_pwhash: "lawful cr \<Longrightarrow> pv_pwhash cr p s = Some k \<Longrightarrow> length k = 32"
  by (auto simp: lawful_def pwhash_law_def)

lemma lawful_pwhash_str:
  "lawful cr \<Longrightarrow> pv_pwhash_str cr p s = Some h \<Longrightarrow>
   length h = 128 \<and> pv_pwhash_str_verify cr h p"
  by (simp add: lawful_def pwhash_law_def)

lemma lawful_lengths:
  "lawful cr \<Longrightarrow> length (pv_sha256 cr x) = 32" "lawful cr \<Longrightarrow> length (pv_hmac cr k x) = 32"
  by (simp_all add: lawful_def hash_law_def)

subsection \<open>Properties\<close>

text \<open>
  The two wrappers undo each other: what \<open>aes_gcm_encrypt\<close> writes for a plaintext that fits an \<open>int\<close>,
  \<open>aes_gcm_decrypt\<close> opens to the same bytes under the same key, nonce and associated data; and a key
  wrapped by \<open>aes_kw_wrap\<close> unwraps to itself.
\<close>

theorem wrappers_round_trip:
  assumes law: "lawful cr" and len: "length p < 2 ^ 31" "length out = length p" "length buf = length p"
    and enc: "aes_gcm_encrypt cr (Some p) (length p) (Some k) (Some n) aad (Some out) AES_GCM_TAG_LEN
      = Some (c, t)"
    and wrap: "aes_kw_wrap cr (Some q) (Some kek) = Some w"
  shows "aes_gcm_decrypt cr (Some c) (length c) (Some k) (Some n) aad (Some t) (Some buf) = Some p
    \<and> aes_kw_unwrap cr (Some w) (Some kek) = Some q"
proof -
  obtain c0 t0 where s: "pv_gcm_seal cr (take 32 k) n (case aad of None \<Rightarrow> [] | Some a \<Rightarrow> a) p = Some (c0, t0)"
    and c: "c = c0 @ drop (length c0) out" "t = take 16 t0"
    using enc len(1) by (auto simp: aes_gcm_encrypt_def c_int_exact AES_GCM_TAG_LEN_def split: option.splits prod.splits)
  note l = lawful_seal [OF law s]
  then have "c = c0" "t = t0" using c len by simp_all
  then have dec: "aes_gcm_decrypt cr (Some c) (length c) (Some k) (Some n) aad (Some t) (Some buf) = Some p"
    using l len by (simp add: aes_gcm_decrypt_def c_int_exact)
  have q: "length q mod 8 = 0" "length kek = 32" "pv_kw_wrap cr kek q = Some w"
    using wrap by (auto simp: aes_kw_wrap_def AES_KW_BLOCK_def AES_256_KEY_LEN_def split: if_splits)
  show ?thesis
    using dec lawful_wrap [OF law q(3)] q by (simp add: aes_kw_unwrap_def AES_KW_BLOCK_def AES_256_KEY_LEN_def)
qed

text \<open>
  The length goes through \<open>static_cast<int>\<close>: a buffer of 4 GiB and \<open>n\<close> bytes more is accepted, but
  only its first \<open>n\<close> bytes are encrypted and authenticated, and one between 2 and 4 GiB is refused.
\<close>

theorem gcm_length_wraps:
  assumes law: "lawful cr" and n: "n < 2 ^ 31" and len: "length p = 2 ^ 32 + n"
    and enc: "aes_gcm_encrypt cr (Some p) (length p) (Some k) (Some nonce) aad (Some out) AES_GCM_TAG_LEN
      = Some (c, t)"
  shows "pv_gcm_open cr (take 32 k) nonce (case aad of None \<Rightarrow> [] | Some a \<Rightarrow> a) (take n c) t
      = Some (take n p)
    \<and> aes_gcm_encrypt cr (Some p) (2 ^ 31 + n) (Some k) (Some nonce) aad (Some out) AES_GCM_TAG_LEN = None"
proof -
  have ci: "c_int (length p) = int n" using c_int_wraps [of n] c_int_exact [OF n] len by simp
  obtain c0 t0 where s: "pv_gcm_seal cr (take 32 k) nonce (case aad of None \<Rightarrow> [] | Some a \<Rightarrow> a) (take n p)
      = Some (c0, t0)" and c: "c = c0 @ drop (length c0) out" "t = take 16 t0"
    using enc by (auto simp: aes_gcm_encrypt_def ci AES_GCM_TAG_LEN_def split: option.splits prod.splits)
  note l = lawful_seal [OF law s]
  have "length c0 = n" using l len n by simp
  then have "take n c = c0" using c by simp
  moreover have "c_int (2 ^ 31 + n) < 0"
    by (rule c_int_negative [OF n])
  ultimately show ?thesis using l c len n by (simp add: aes_gcm_encrypt_def)
qed

end
