(* ===== verification/Time_Format.thy ===== *)
theory Time_Format
  imports Prelude
begin

section \<open>Time stamps\<close>

text \<open>
  \<open>kek_expires_at\<close> and \<open>kek_is_expired\<close> of \<open>src/kek/kek.cc\<close> over a model of the C library calls they
  make: \<open>gmtime_r\<close>, \<open>timegm\<close>, and \<open>strftime\<close>/\<open>strptime\<close> with the format \<open>%Y-%m-%dT%H:%M:%SZ\<close>, the
  format SQLite's \<open>strftime\<close> writes for the same string. A \<open>time_t\<close> that comes from the clock is a
  natural number of seconds since 1970; \<open>timegm\<close> may answer a negative one.
\<close>

subsection \<open>The civil calendar\<close>

definition leap :: "nat \<Rightarrow> bool" where
  "leap y \<longleftrightarrow> 4 dvd y \<and> (\<not> 100 dvd y \<or> 400 dvd y)"

definition year_length :: "nat \<Rightarrow> nat" where
  "year_length y = (if leap y then 366 else 365)"

definition month_lengths :: "nat \<Rightarrow> nat list" where
  "month_lengths y = [31, if leap y then 29 else 28, 31, 30, 31, 30, 31, 31, 30, 31, 30, 31]"

text \<open>Days from 1 January of year 0 to 1 January of year \<open>y\<close>.\<close>

definition days_before_year :: "nat \<Rightarrow> nat" where
  "days_before_year y = 365 * y + (y + 3) div 4 + (y + 399) div 400 - (y + 99) div 100"

definition days_before_month :: "nat \<Rightarrow> nat \<Rightarrow> nat" where
  "days_before_month y m = sum_list (take (m - 1) (month_lengths y))"

record tm =
  tm_year :: nat
  tm_mon :: nat
  tm_mday :: nat
  tm_hour :: nat
  tm_min :: nat
  tm_sec :: nat

text \<open>The fields hold the calendar values (year 1970 and month 1 for January), not the offsets
  \<open>struct tm\<close> stores.\<close>

lemma year_length_pos: "0 < year_length y"
  by (simp add: year_length_def)

function split_year :: "nat \<Rightarrow> nat \<Rightarrow> nat \<times> nat" where
  "split_year y d =
     (if d < year_length y then (y, d) else split_year (Suc y) (d - year_length y))"
  by pat_completeness auto
termination
  by (relation "measure snd") (use year_length_pos in \<open>auto simp: not_less intro: diff_less less_le_trans\<close>)

declare split_year.simps [simp del]

fun split_month :: "nat list \<Rightarrow> nat \<Rightarrow> nat \<Rightarrow> nat \<times> nat" where
  "split_month [] m d = (m, d)"
| "split_month (l # ls) m d = (if d < l then (m, d) else split_month ls (Suc m) (d - l))"

definition gmtime :: "nat \<Rightarrow> tm" where
  "gmtime t =
     (let (y, yd) = split_year 1970 (t div 86400);
          (m, md) = split_month (month_lengths y) 1 yd;
          s = t mod 86400
      in \<lparr>tm_year = y, tm_mon = m, tm_mday = md + 1,
          tm_hour = s div 3600, tm_min = s div 60 mod 60, tm_sec = s mod 60\<rparr>)"

definition timegm :: "tm \<Rightarrow> int" where
  "timegm b =
     86400 * (int (days_before_year (tm_year b)) - int (days_before_year 1970)
              + int (days_before_month (tm_year b) (tm_mon b)) + int (tm_mday b) - 1)
     + 3600 * int (tm_hour b) + 60 * int (tm_min b) + int (tm_sec b)"

subsection \<open>\<open>strftime\<close> and \<open>strptime\<close>\<close>

definition strftime :: "tm \<Rightarrow> string" where
  "strftime b =
     decimal (tm_year b) @ ''-'' @ zero_padded 2 (tm_mon b) @ ''-'' @ zero_padded 2 (tm_mday b)
     @ ''T'' @ zero_padded 2 (tm_hour b) @ '':'' @ zero_padded 2 (tm_min b)
     @ '':'' @ zero_padded 2 (tm_sec b) @ ''Z''"

text \<open>
  A numeric field: skip white space, read at least one and at most \<open>n\<close> digits, stop early when one
  more digit would leave the range, refuse a value outside \<open>lo..hi\<close>.
\<close>

fun take_number :: "nat \<Rightarrow> nat \<Rightarrow> nat \<Rightarrow> string \<Rightarrow> nat \<times> string" where
  "take_number n hi v [] = (v, [])"
| "take_number n hi v (c # s) =
     (if 0 < n \<and> 10 * v \<le> hi \<and> is_digit c
      then take_number (n - 1) hi (10 * v + digit_value c) s
      else (v, c # s))"

definition is_space :: "char \<Rightarrow> bool" where
  "is_space c \<longleftrightarrow> char_code c = 32 \<or> (9 \<le> char_code c \<and> char_code c \<le> 13)"

definition get_number :: "nat \<Rightarrow> nat \<Rightarrow> nat \<Rightarrow> string \<Rightarrow> (nat \<times> string) option" where
  "get_number lo hi n s =
     (case dropWhile is_space s of
        [] \<Rightarrow> None
      | c # cs \<Rightarrow>
          if \<not> is_digit c then None
          else (let (v, rest) = take_number (n - 1) hi (digit_value c) cs
                in if lo \<le> v \<and> v \<le> hi then Some (v, rest) else None))"

definition get_literal :: "char \<Rightarrow> string \<Rightarrow> string option" where
  "get_literal c s = (case s of [] \<Rightarrow> None | d # ds \<Rightarrow> if d = c then Some ds else None)"

text \<open>What follows the closing \<open>Z\<close> is ignored: the code only tests the result for null.\<close>

definition strptime :: "string \<Rightarrow> tm option" where
  "strptime s =
     do {
       (y, s) \<leftarrow> get_number 0 9999 4 s;
       s \<leftarrow> get_literal (CHR ''-'') s;
       (m, s) \<leftarrow> get_number 1 12 2 s;
       s \<leftarrow> get_literal (CHR ''-'') s;
       (d, s) \<leftarrow> get_number 1 31 2 s;
       s \<leftarrow> get_literal (CHR ''T'') s;
       (h, s) \<leftarrow> get_number 0 23 2 s;
       s \<leftarrow> get_literal (CHR '':'') s;
       (mi, s) \<leftarrow> get_number 0 59 2 s;
       s \<leftarrow> get_literal (CHR '':'') s;
       (sec, s) \<leftarrow> get_number 0 61 2 s;
       s \<leftarrow> get_literal (CHR ''Z'') s;
       Some \<lparr>tm_year = y, tm_mon = m, tm_mday = d, tm_hour = h, tm_min = mi, tm_sec = sec\<rparr>
     }"

text \<open>The text SQLite and \<open>kek_expires_at\<close> write for a clock value, and its reading.\<close>

definition iso_time :: "nat \<Rightarrow> string" where
  "iso_time t = strftime (gmtime t)"

definition parse_iso :: "string \<Rightarrow> int option" where
  "parse_iso s = map_option timegm (strptime s)"

subsection \<open>\<open>kek_is_expired\<close> and \<open>kek_expires_at\<close>\<close>

definition KEK_DEFAULT_DAYS :: nat where
  "KEK_DEFAULT_DAYS = 90"

definition kek_is_expired :: "nat \<Rightarrow> string option \<Rightarrow> bool" where
  "kek_is_expired now expires_at =
     (case expires_at of
        None \<Rightarrow> True
      | Some s \<Rightarrow>
          (case strptime s of
             None \<Rightarrow> True
           | Some b \<Rightarrow> int now \<ge> timegm b))"

definition kek_expires_at :: "nat \<Rightarrow> nat \<Rightarrow> nat \<Rightarrow> string option" where
  "kek_expires_at now days out_size =
     (if out_size < 22 then None
      else Some (strftime (gmtime (now + days * 86400))))"


subsection \<open>The calendar round trip\<close>

lemma ceiling_step:
  assumes "0 < (k::nat)"
  shows "Suc (y + (k - 1)) div k = (y + (k - 1)) div k + (if k dvd y then 1 else 0)"
proof -
  have "Suc (y + (k - 1)) = y + k" using assms by simp
  then have "Suc (y + (k - 1)) mod k = 0 \<longleftrightarrow> k dvd y" by (simp add: dvd_eq_mod_eq_0)
  then show ?thesis by (simp only: div_Suc if_distrib) simp
qed

lemma days_before_year_Suc: "days_before_year (Suc y) = days_before_year y + year_length y"
proof -
  have a: "(y + 4) div 4 = (y + 3) div 4 + (if 4 dvd y then 1 else 0)"
    using ceiling_step [of 4 y] by simp
  have b: "(y + 400) div 400 = (y + 399) div 400 + (if 400 dvd y then 1 else 0)"
    using ceiling_step [of 400 y] by simp
  have c: "(y + 100) div 100 = (y + 99) div 100 + (if 100 dvd y then 1 else 0)"
    using ceiling_step [of 100 y] by simp
  have "100 * ((y + 99) div 100) \<le> y + 99" "y + 3 < 4 * ((y + 3) div 4) + 4" by simp_all
  then have d: "(y + 99) div 100 \<le> (y + 3) div 4" by linarith
  have e: "400 dvd y \<Longrightarrow> 100 dvd y" "100 dvd y \<Longrightarrow> 4 dvd y"
    using dvd_trans [of 100 400 y] dvd_trans [of 4 100 y] by simp_all
  have sum: "365 * Suc y + (p + (if A then 1 else 0)) + (r + (if C then 1 else 0))
      - (q + (if B then 1 else 0))
      = 365 * y + p + r - q + (if A \<and> (\<not> B \<or> C) then 366 else 365)"
    if "q \<le> p" "C \<Longrightarrow> B" "B \<Longrightarrow> A" for p q r :: nat and A B C
    using that by (cases A; cases B; cases C) simp_all
  have "Suc y + 3 = y + 4" "Suc y + 399 = y + 400" "Suc y + 99 = y + 100" by simp_all
  then show ?thesis
    by (simp only: days_before_year_def year_length_def leap_def a b c sum [OF d e])
qed

lemma days_before_year_mono: "y \<le> z \<Longrightarrow> days_before_year y \<le> days_before_year z"
  by (rule lift_Suc_mono_le) (simp_all add: days_before_year_Suc)

lemma split_year_sum:
  "split_year y d = (y', d') \<Longrightarrow>
   days_before_year y' + d' = days_before_year y + d \<and> d' < year_length y' \<and> y \<le> y'"
proof (induction y d rule: split_year.induct)
  case (1 y d)
  show ?case
  proof (cases "d < year_length y")
    case True
    with "1.prems" show ?thesis by (simp add: split_year.simps [of y d])
  next
    case False
    with "1.prems" have "split_year (Suc y) (d - year_length y) = (y', d')"
      by (simp add: split_year.simps [of y d])
    with "1.IH" False have
      "days_before_year y' + d' = days_before_year (Suc y) + (d - year_length y)
       \<and> d' < year_length y' \<and> Suc y \<le> y'"
      by blast
    with False show ?thesis by (auto simp: days_before_year_Suc)
  qed
qed

lemma sum_month_lengths: "sum_list (month_lengths y) = year_length y"
  by (simp add: month_lengths_def year_length_def)

lemma length_month_lengths [simp]: "length (month_lengths y) = 12"
  by (simp add: month_lengths_def)

lemma split_month_sum:
  "d < sum_list ls \<Longrightarrow> split_month ls m d = (m', d') \<Longrightarrow>
   m \<le> m' \<and> m' - m < length ls \<and> d' < ls ! (m' - m) \<and> sum_list (take (m' - m) ls) + d' = d"
proof (induction ls arbitrary: m d)
  case Nil
  then show ?case by simp
next
  case (Cons l ls)
  show ?case
  proof (cases "d < l")
    case True
    with Cons.prems show ?thesis by simp
  next
    case False
    with Cons.prems have "d - l < sum_list ls" "split_month ls (Suc m) (d - l) = (m', d')"
      by auto
    from Cons.IH [OF this] False show ?thesis
      by (cases "m' - m") (auto simp: Suc_diff_le diff_Suc split: nat.splits)
  qed
qed

definition valid_tm :: "tm \<Rightarrow> bool" where
  "valid_tm b \<longleftrightarrow>
     1970 \<le> tm_year b \<and> 1 \<le> tm_mon b \<and> tm_mon b \<le> 12
     \<and> 1 \<le> tm_mday b \<and> tm_mday b \<le> month_lengths (tm_year b) ! (tm_mon b - 1)
     \<and> tm_hour b < 24 \<and> tm_min b < 60 \<and> tm_sec b < 60"

lemma month_length_le_31: "m < 12 \<Longrightarrow> month_lengths y ! m \<le> 31"
  by (auto simp: month_lengths_def nth_Cons less_Suc_eq numeral_eq_Suc split: nat.splits)

lemma seconds_split:
  "86400 * int (t div 86400) + 3600 * int (t mod 86400 div 3600)
   + 60 * int (t mod 86400 div 60 mod 60) + int (t mod 86400 mod 60) = int t"
proof -
  have nat_split: "86400 * d + 3600 * h + 60 * m + sec = t"
    if "60 * h + m = q" "60 * q + sec = s" "86400 * d + s = t" for d h m sec q s :: nat
    using that by linarith
  define s where "s = t mod 86400"
  have h: "s div 3600 = s div 60 div 60" by (simp add: div_mult2_eq [symmetric])
  have "86400 * (t div 86400) + 3600 * (s div 60 div 60) + 60 * (s div 60 mod 60) + s mod 60 = t"
    by (rule nat_split [where q = "s div 60" and s = s]) (simp_all only: s_def mult_div_mod_eq)
  from arg_cong [OF this, of int] show ?thesis
    unfolding s_def [symmetric] h by (simp only: of_nat_add of_nat_mult of_nat_numeral)
qed

lemma gmtime_valid_and_inverse: "valid_tm (gmtime t) \<and> timegm (gmtime t) = int t"
proof -
  obtain y yd where sy: "split_year 1970 (t div 86400) = (y, yd)" by fastforce
  obtain m md where sm: "split_month (month_lengths y) 1 yd = (m, md)" by fastforce
  from split_year_sum [OF sy]
  have y: "days_before_year y + yd = days_before_year 1970 + t div 86400"
    and yd: "yd < sum_list (month_lengths y)" and y70: "1970 \<le> y"
    by (simp_all add: sum_month_lengths)
  from split_month_sum [OF yd sm]
  have m: "1 \<le> m" "m - 1 < 12" "md < month_lengths y ! (m - 1)"
    and dm: "days_before_month y m + md = yd"
    by (simp_all add: days_before_month_def)
  have g: "gmtime t = \<lparr>tm_year = y, tm_mon = m, tm_mday = md + 1,
      tm_hour = t mod 86400 div 3600, tm_min = t mod 86400 div 60 mod 60,
      tm_sec = t mod 86400 mod 60\<rparr>"
    using sm by (simp add: gmtime_def sy Let_def)
  have "timegm (gmtime t) = 86400 * int (t div 86400) + 3600 * int (t mod 86400 div 3600)
      + 60 * int (t mod 86400 div 60 mod 60) + int (t mod 86400 mod 60)"
    using y dm by (simp add: g timegm_def)
  also have "\<dots> = int t" by (simp only: seconds_split)
  finally have "timegm (gmtime t) = int t" .
  moreover have "valid_tm (gmtime t)"
    using m y70 by (simp add: g valid_tm_def less_mult_imp_div_less)
  ultimately show ?thesis by simp
qed

lemmas gmtime_valid = gmtime_valid_and_inverse [THEN conjunct1]
lemmas timegm_gmtime [simp] = gmtime_valid_and_inverse [THEN conjunct2]

text \<open>The first second of the year 10000, where the four-digit format ends.\<close>

definition time_limit :: nat where
  "time_limit = 253402300800"

lemma timegm_lower_bound:
  assumes "valid_tm b"
  shows "86400 * (int (days_before_year (tm_year b)) - int (days_before_year 1970)) \<le> timegm b"
  using assms by (simp add: valid_tm_def timegm_def)

lemma gmtime_year_bound:
  assumes "t < time_limit"
  shows "tm_year (gmtime t) < 10000"
proof (rule ccontr)
  assume "\<not> tm_year (gmtime t) < 10000"
  then have "days_before_year 10000 \<le> days_before_year (tm_year (gmtime t))"
    by (intro days_before_year_mono) simp
  with timegm_lower_bound [OF gmtime_valid, of t]
  have "86400 * (int (days_before_year 10000) - int (days_before_year 1970)) \<le> int t" by simp
  with assms show False by (simp add: days_before_year_def time_limit_def)
qed

subsection \<open>Reading what was printed\<close>

lemma digit_not_space [simp]: "is_digit c \<Longrightarrow> \<not> is_space c"
  by (auto simp: is_digit_def is_space_def)

lemma get_literal_same [parse_simps]: "get_literal c (c # s) = Some s"
  by (simp add: get_literal_def)

lemma get_number_2 [parse_simps]:
  assumes "lo \<le> n" "n \<le> hi" "n < 100" "hi < 100"
  shows "get_number lo hi 2 (zero_padded 2 n @ s) = Some (n, s)"
proof -
  have n: "10 * (n div 10) + n mod 10 = n" "n div 10 < 10" "n mod 10 < 10"
    using assms by auto
  then have "10 * (n div 10) \<le> hi" using assms by linarith
  then show ?thesis
    using n assms by (cases s) (auto simp: get_number_def zero_padded_2)
qed

lemma get_number_year [parse_simps]:
  assumes "1000 \<le> y" "y < 10000"
  shows "get_number 0 9999 4 (decimal y @ s) = Some (y, s)"
proof -
  let ?a = "y div 1000" and ?b = "y div 100 mod 10" and ?c = "y div 10 mod 10"
  have d: "?a < 10" "?b < 10" "?c < 10" "y mod 10 < 10" using assms by auto
  have "y div 10 div 10 = y div 100" "y div 100 div 10 = y div 1000"
    by (simp_all add: div_mult2_eq [symmetric])
  then have e: "10 * ?a + ?b = y div 100" "10 * (y div 100) + ?c = y div 10"
    by (metis mult_div_mod_eq)+
  then have v: "10 * (10 * (10 * ?a + ?b) + ?c) + y mod 10 = y"
    by (simp only: mult_div_mod_eq)
  have "10 * (y div 10) \<le> y" "10 * (y div 100) \<le> y div 10" "10 * ?a \<le> y div 100"
    using e by linarith+
  then have "10 * ?a \<le> 9999" "10 * (10 * ?a + ?b) \<le> 9999" "10 * (10 * (10 * ?a + ?b) + ?c) \<le> 9999"
    unfolding e using assms by linarith+
  then show ?thesis
    using d v assms by (cases s) (auto simp: get_number_def decimal_4)
qed

lemma strptime_strftime:
  assumes "valid_tm b" and "tm_year b < 10000"
  shows "strptime (strftime b @ rest) = Some b"
proof -
  have "tm_mday b \<le> 31"
    using assms month_length_le_31 [of "tm_mon b - 1" "tm_year b"]
    by (auto simp: valid_tm_def elim: order_trans)
  with assms show ?thesis
    by (cases b) (simp add: strptime_def strftime_def valid_tm_def parse_simps)
qed

lemma parse_iso_time: "t < time_limit \<Longrightarrow> parse_iso (iso_time t) = Some (int t)"
  using strptime_strftime [OF gmtime_valid, of t "[]"]
  by (simp add: parse_iso_def iso_time_def gmtime_year_bound)

interpretation iso: codec iso_time "\<lambda>s. map_option nat (parse_iso s)" "\<lambda>t. t < time_limit"
  by unfold_locales (simp add: parse_iso_time)

subsection \<open>The order of the text is the order of time\<close>

text \<open>
  SQLite compares the stored stamps as text (\<open>timestamp < ?\<close>, \<open>ORDER BY updated_at\<close>); for
  four-digit years that is the order of the clock values they print.
\<close>

lemma append_less_append:
  fixes a c :: "'a::linorder list"
  shows "length a = length c \<Longrightarrow> a @ b < c @ d \<longleftrightarrow> a < c \<or> (a = c \<and> b < d)"
  by (induction a c rule: list_induct2) auto

lemma digit_char_less: "d < 10 \<Longrightarrow> e < 10 \<Longrightarrow> digit_char d < digit_char e \<longleftrightarrow> d < e"
  by (simp add: less_char_def)

lemma less_by_div_mod:
  fixes m n :: nat
  shows "m < n \<longleftrightarrow> m div k < n div k \<or> (m div k = n div k \<and> m mod k < n mod k)"
proof (cases "m div k = n div k")
  case True
  then show ?thesis by (metis add_less_cancel_left less_irrefl mult_div_mod_eq)
next
  case False
  then show ?thesis
    by (cases "m < n") (use div_le_mono [of m n k] div_le_mono [of n m k] in auto)
qed

lemma eq_by_div_mod:
  fixes m n :: nat
  shows "m = n \<longleftrightarrow> m div k = n div k \<and> m mod k = n mod k"
  by (metis mult_div_mod_eq)

lemma digit_split: "n < 100 \<Longrightarrow> n div 10 < 10 \<and> n mod 10 < (10::nat)"
  by (simp add: less_mult_imp_div_less)

lemma two_digits_less:
  assumes "m < 100" "n < 100"
  shows "zero_padded 2 m < zero_padded 2 n \<longleftrightarrow> m < n"
  unfolding zero_padded_2 [OF assms(1)] zero_padded_2 [OF assms(2)] less_by_div_mod [of m n 10]
  using digit_split [OF assms(1)] digit_split [OF assms(2)]
  by (simp del: div_less mod_less add: digit_char_less)

lemma two_digits_inject: "m < 100 \<Longrightarrow> n < 100 \<Longrightarrow> zero_padded 2 m = zero_padded 2 n \<longleftrightarrow> m = n"
  by (metis two_digits_less nat_neq_iff order.irrefl)

lemma length_two_digits: "n < 100 \<Longrightarrow> length (zero_padded 2 n) = 2"
  by (simp add: zero_padded_2)

lemma four_digits_less:
  assumes "1000 \<le> m" "m < 10000" "1000 \<le> n" "n < 10000"
  shows "decimal m < decimal n \<longleftrightarrow> m < n"
proof -
  have d: "k div 100 = k div 10 div 10" "k div 1000 = k div 10 div 10 div 10" for k :: nat
    by (simp_all add: div_mult2_eq [symmetric])
  have b: "m div 10 div 10 div 10 < 10" "n div 10 div 10 div 10 < 10"
    using assms by (simp_all add: d [symmetric] less_mult_imp_div_less)
  show ?thesis
    unfolding decimal_4 [OF assms(1,2)] decimal_4 [OF assms(3,4)] d
      less_by_div_mod [of m n 10] less_by_div_mod [of "m div 10" "n div 10" 10]
      less_by_div_mod [of "m div 10 div 10" "n div 10 div 10" 10]
      eq_by_div_mod [of "m div 10" "n div 10" 10] eq_by_div_mod [of "m div 10 div 10" "n div 10 div 10" 10]
    using b by (simp add: digit_char_less del: div_less mod_less) blast
qed

lemma length_four_digits: "1000 \<le> n \<Longrightarrow> n < 10000 \<Longrightarrow> length (decimal n) = 4"
  by (simp add: decimal_4)

lemma fixed_width_less:
  "length a = length c \<Longrightarrow> a @ x # b < c @ x # d \<longleftrightarrow> a < c \<or> (a = c \<and> b < (d::string))"
  by (simp add: append_less_append)

text \<open>The fields of two broken-down times, compared from the year down.\<close>

definition tm_key :: "tm \<Rightarrow> nat list" where
  "tm_key b = [tm_year b, tm_mon b, tm_mday b, tm_hour b, tm_min b, tm_sec b]"

definition tm_less :: "tm \<Rightarrow> tm \<Rightarrow> bool" where
  "tm_less b c \<longleftrightarrow> tm_key b < tm_key c"

lemmas tm_less_fields = tm_less_def tm_key_def

lemma tm_mday_le: "valid_tm b \<Longrightarrow> tm_mday b \<le> 31"
  using month_length_le_31 [of "tm_mon b - 1" "tm_year b"]
  by (auto simp: valid_tm_def elim: order_trans)

lemma strftime_less:
  assumes "valid_tm b" "valid_tm c" "tm_year b < 10000" "tm_year c < 10000"
  shows "strftime b < strftime c \<longleftrightarrow> tm_less b c"
proof -
  have "tm_mday b < 100" "tm_mday c < 100"
    using tm_mday_le [OF assms(1)] tm_mday_le [OF assms(2)] by simp_all
  then show ?thesis
    using assms
    by (simp add: strftime_def tm_less_fields valid_tm_def fixed_width_less length_two_digits
        two_digits_less two_digits_inject four_digits_less length_four_digits)
qed

lemma days_before_month_Suc:
  "1 \<le> m \<Longrightarrow> m \<le> 12 \<Longrightarrow>
   days_before_month y (Suc m) = days_before_month y m + month_lengths y ! (m - 1)"
  by (cases m) (simp_all add: days_before_month_def take_Suc_conv_app_nth)

lemma days_before_month_mono: "m \<le> n \<Longrightarrow> days_before_month y m \<le> days_before_month y n"
proof -
  assume "m \<le> n"
  then have "take (n - 1) (month_lengths y) =
      take (m - 1) (month_lengths y) @ drop (m - 1) (take (n - 1) (month_lengths y))"
    by (metis append_take_drop_id diff_le_mono min.absorb1 take_take)
  then show ?thesis
    unfolding days_before_month_def by (metis le_add1 sum_list.append)
qed

lemma days_before_month_end: "days_before_month y 13 = year_length y"
  by (simp add: days_before_month_def sum_month_lengths)

text \<open>The day since the epoch and the second of the day, for a comparison field by field.\<close>

definition day_of_year :: "tm \<Rightarrow> nat" where
  "day_of_year b = days_before_month (tm_year b) (tm_mon b) + tm_mday b - 1"

lemma timegm_by_day:
  "valid_tm b \<Longrightarrow> timegm b =
     86400 * (int (days_before_year (tm_year b) + day_of_year b) - int (days_before_year 1970))
     + int (3600 * tm_hour b + 60 * tm_min b + tm_sec b)"
  by (simp add: timegm_def day_of_year_def valid_tm_def of_nat_diff algebra_simps)

lemma day_of_year_next_month:
  assumes "valid_tm b"
  shows "day_of_year b < days_before_month (tm_year b) (Suc (tm_mon b))"
  using assms days_before_month_Suc [of "tm_mon b" "tm_year b"]
  by (auto simp: day_of_year_def valid_tm_def)

lemma day_of_year_bound:
  assumes "valid_tm b"
  shows "day_of_year b < year_length (tm_year b)"
proof -
  have "days_before_month (tm_year b) (Suc (tm_mon b)) \<le> days_before_month (tm_year b) 13"
    using assms by (intro days_before_month_mono) (simp add: valid_tm_def)
  with day_of_year_next_month [OF assms] show ?thesis by (simp add: days_before_month_end)
qed

lemma earlier_day:
  assumes "d < e" and "(s::nat) < 86400"
  shows "86400 * (int d - k) + int s < 86400 * (int e - k) + int (r::nat)"
proof -
  have "int d + 1 \<le> int e" using assms by simp
  then have "86400 * (int d - k) + 86400 \<le> 86400 * (int e - k)" by simp
  with assms(2) show ?thesis by linarith
qed

lemma timegm_mono:
  assumes b: "valid_tm b" and c: "valid_tm c" and less: "tm_less b c"
  shows "timegm b < timegm c"
proof -
  let ?D = "\<lambda>b. days_before_year (tm_year b) + day_of_year b"
  let ?S = "\<lambda>b. 3600 * tm_hour b + 60 * tm_min b + tm_sec b"
  have S: "?S b < 86400" using b by (simp add: valid_tm_def)
  have "?D b < ?D c \<or> (?D b = ?D c \<and> ?S b < ?S c)"
  proof (cases "tm_year b = tm_year c")
    case False
    with less have "Suc (tm_year b) \<le> tm_year c" by (auto simp: tm_less_fields)
    from days_before_year_mono [OF this] day_of_year_bound [OF b]
    show ?thesis by (simp add: days_before_year_Suc)
  next
    case y: True
    show ?thesis
    proof (cases "tm_mon b = tm_mon c")
      case False
      with y less have "Suc (tm_mon b) \<le> tm_mon c" by (auto simp: tm_less_fields)
      from days_before_month_mono [OF this, of "tm_year b"] day_of_year_next_month [OF b]
      have "day_of_year b < days_before_month (tm_year c) (tm_mon c)" by (simp add: y)
      also have "\<dots> \<le> day_of_year c" 
        using c unfolding day_of_year_def valid_tm_def by linarith
      finally show ?thesis by (simp add: y)
    next
      case True
      with y less b c show ?thesis
        by (auto simp: tm_less_fields day_of_year_def valid_tm_def)
    qed
  qed
  then show ?thesis
    unfolding timegm_by_day [OF b] timegm_by_day [OF c]
    using earlier_day [OF _ S] by (elim disjE conjE) (blast, simp only: add_less_cancel_left of_nat_less_iff)
qed

lemma tm_less_linear: "tm_less b c \<or> b = c \<or> tm_less c b"
  unfolding tm_less_def using less_linear [of "tm_key b" "tm_key c"]
  by (cases b; cases c) (simp add: tm_key_def)

lemma tm_less_gmtime: "tm_less (gmtime s) (gmtime t) \<longleftrightarrow> s < t"
proof -
  have mono: "tm_less (gmtime u) (gmtime v) \<Longrightarrow> u < v" for u v
    using timegm_mono [OF gmtime_valid gmtime_valid, of u v] unfolding timegm_gmtime by simp
  have inj: "gmtime u = gmtime v \<Longrightarrow> u = v" for u v
    by (metis timegm_gmtime of_nat_eq_iff)
  show ?thesis
    using tm_less_linear [of "gmtime s" "gmtime t"] mono [of s t] mono [of t s] inj [of s t]
    by (metis less_asym less_irrefl)
qed

lemma iso_time_less:
  "s < time_limit \<Longrightarrow> t < time_limit \<Longrightarrow> iso_time s < iso_time t \<longleftrightarrow> s < t"
  by (simp add: iso_time_def strftime_less gmtime_valid gmtime_year_bound tm_less_gmtime)

text \<open>
  A KEK that gets its expiry date at \<open>now\<close> is good for exactly the number of days asked for: it is
  expired from the second \<open>now + days * 86400\<close> on, and not before.
\<close>

lemma expired_iff:
  assumes "t < time_limit"
  shows "kek_is_expired now (Some (iso_time t)) \<longleftrightarrow> t \<le> now"
  using parse_iso_time [OF assms]
  by (auto simp: kek_is_expired_def parse_iso_def split: option.splits)

text \<open>
  C33. A KEK that gets its expiry stamp at \<open>now\<close> is good for exactly the number of days asked for: read
  back from the database it counts as expired from the second \<open>now + days * 86400\<close> on, and not before,
  for every date up to the year 9999.
\<close>

theorem kek_lives_exactly_its_days:
  assumes "kek_expires_at now days 24 = Some e" and "now + days * 86400 < time_limit"
  shows "kek_is_expired t (Some e) \<longleftrightarrow> now + days * 86400 \<le> t"
  using assms expired_iff [OF assms(2)] by (auto simp: kek_expires_at_def iso_time_def)

text \<open>
  The text SQLite compares when it prunes the audit log orders time stamps as the clock does, up to
  the year 9999.
\<close>

theorem time_stamps_sort_by_time:
  assumes "s < time_limit" and "t < time_limit"
  shows "(iso_time s < iso_time t) = (s < t) \<and> parse_iso (iso_time s) = Some (int s)"
  using assms by (simp_all add: iso_time_less parse_iso_time)

end
