(* ===== verification/Database.thy ===== *)
theory Database
  imports Crypto Time_Format
begin

section \<open>The database connection (\<open>src/db/database.cc\<close>)\<close>

text \<open>
  The four tables of the schema, a connection with its transaction, \<open>db_open\<close> and
  \<open>db_create_schema\<close>. Each SQL statement of the source is translated into a function on the tables;
  the engine itself is SQLite's, and its failures are oracles of the connection:
  \<^item> \<open>fl_stmt\<close>: the coming prepare/exec/step calls whose result code the source tests;
  \<^item> \<open>fl_row\<close>: the coming \<open>sqlite3_step\<close> calls that fetch a row in a loop, where the source takes
    anything but \<open>SQLITE_ROW\<close> for the end;
  \<^item> \<open>fl_begin\<close> and \<open>fl_commit\<close>: the coming \<open>BEGIN IMMEDIATE\<close>s and \<open>COMMIT\<close>s.
  A statement that fails changes nothing. Outside a transaction every statement commits by itself;
  \<open>db_snap\<close> holds what a \<open>ROLLBACK\<close> goes back to. A null \<open>sqlite3*\<close> is a connection with \<open>db_null\<close>.
  One connection at a time works on the file.
\<close>

subsection \<open>Tables\<close>

record user_rec =
  u_id :: int
  u_username :: string
  u_password_hash :: bytes
  u_created_at :: string

record kek_rec =
  k_id :: int
  k_user_id :: int
  k_wrapped_kek :: bytes
  k_salt :: bytes
  k_expires_at :: string
  k_version :: int

record secret_rec =
  s_id :: int
  s_user_id :: int
  s_name :: "string option"
  s_private_key :: bytes
  s_public_key :: "bytes option"
  s_nonce :: bytes
  s_tag :: bytes
  s_description :: "string option"
  s_updated_at :: string

record audit_rec =
  a_id :: int
  a_user_id :: "int option"
  a_username :: string
  a_operation :: string
  a_target :: "string option"
  a_details :: "string option"
  a_result :: string
  a_timestamp :: string

text \<open>
  \<open>t_exists\<close> says that the four tables are there, \<open>t_unique_names\<close> that the table \<open>secrets\<close> was
  created with \<open>UNIQUE(user_id, name)\<close> (an older file may lack it), the \<open>_seq\<close> fields are the
  \<open>AUTOINCREMENT\<close> counters, \<open>t_version\<close> is \<open>PRAGMA user_version\<close> and the last two fields are the
  indexes the migrations create. Rows are in rowid order.
\<close>

record tables =
  t_exists :: bool
  t_unique_names :: bool
  t_users :: "user_rec list"
  t_keks :: "kek_rec list"
  t_secrets :: "secret_rec list"
  t_audit :: "audit_rec list"
  t_user_seq :: int
  t_kek_seq :: int
  t_secret_seq :: int
  t_audit_seq :: int
  t_version :: int
  t_idx_user :: bool
  t_idx_name :: bool

definition empty_tables :: tables where
  "empty_tables = \<lparr>t_exists = False, t_unique_names = False, t_users = [], t_keks = [],
     t_secrets = [], t_audit = [], t_user_seq = 0, t_kek_seq = 0, t_secret_seq = 0,
     t_audit_seq = 0, t_version = 0, t_idx_user = False, t_idx_name = False\<rparr>"

text \<open>\<open>AUTOINCREMENT\<close>: one more than any id ever used; the largest rowid is an error.\<close>

definition MAX_ROWID :: int where
  "MAX_ROWID = 2 ^ 63 - 1"

definition next_rowid :: "int \<Rightarrow> int option" where
  "next_rowid seq = (if seq \<ge> MAX_ROWID then None else Some (seq + 1))"

subsection \<open>Connection and transactions\<close>

record sqlite =
  db_null :: bool
  db_readonly :: bool
  db_tabs :: tables
  db_snap :: "tables option"
  db_fk :: bool
  fl_stmt :: "bool list"
  fl_row :: "bool list"
  fl_begin :: "bool list"
  fl_commit :: "bool list"

text \<open>One call whose result is tested, a statement that needs the tables, one that writes.\<close>

definition sql_call :: "sqlite \<Rightarrow> bool \<times> sqlite" where
  "sql_call db = (let (bad, rest) = next_fault (fl_stmt db) in (\<not> bad, db\<lparr>fl_stmt := rest\<rparr>))"

definition sql_prepare :: "sqlite \<Rightarrow> bool \<times> sqlite" where
  "sql_prepare db = (if t_exists (db_tabs db) then sql_call db else (False, db))"

definition sql_write :: "sqlite \<Rightarrow> bool \<times> sqlite" where
  "sql_write db = (if db_readonly db then (False, db) else sql_prepare db)"

text \<open>A row fetch in a \<open>while (sqlite3_step(stmt) == SQLITE_ROW)\<close> loop over a result set: the loop
  ends at the first step that answers anything else, a failure included.\<close>

fun fetch_rows :: "'r list \<Rightarrow> bool list \<Rightarrow> 'r list \<times> bool list" where
  "fetch_rows [] fs = ([], tl fs)"
| "fetch_rows (r # rs) fs =
     (let (bad, rest) = next_fault fs
      in if bad then ([], rest)
         else (let (out, rest') = fetch_rows rs rest in (r # out, rest')))"

text \<open>\<open>sqlite3_bind_blob(stmt, i, ptr, static_cast<int>(len), SQLITE_TRANSIENT)\<close>; a null pointer
  binds NULL, and a value longer than SQLite's limit (its default) is refused with \<open>SQLITE_TOOBIG\<close>.\<close>

definition SQLITE_MAX_LENGTH :: nat where
  "SQLITE_MAX_LENGTH = 1000000000"

definition bind_blob :: "bytes option \<Rightarrow> nat \<Rightarrow> bytes option option" where
  "bind_blob ptr len =
     (case ptr of
        None \<Rightarrow> Some None
      | Some b \<Rightarrow>
          (if c_int len < 0 \<or> c_int len > int SQLITE_MAX_LENGTH then None
           else Some (Some (take (nat (c_int len)) b))))"

definition exec_begin :: "sqlite \<Rightarrow> bool \<times> sqlite" where
  "exec_begin db =
     (if db_snap db \<noteq> None \<or> db_readonly db then (False, db)
      else (let (bad, rest) = next_fault (fl_begin db)
            in if bad then (False, db\<lparr>fl_begin := rest\<rparr>)
               else (True, db\<lparr>fl_begin := rest, db_snap := Some (db_tabs db)\<rparr>)))"

definition exec_commit :: "sqlite \<Rightarrow> bool \<times> sqlite" where
  "exec_commit db =
     (if db_snap db = None then (False, db)
      else (let (bad, rest) = next_fault (fl_commit db)
            in if bad then (False, db\<lparr>fl_commit := rest\<rparr>)
               else (True, db\<lparr>fl_commit := rest, db_snap := None\<rparr>)))"

definition exec_rollback :: "sqlite \<Rightarrow> sqlite" where
  "exec_rollback db =
     (case db_snap db of None \<Rightarrow> db | Some t \<Rightarrow> db\<lparr>db_tabs := t, db_snap := None\<rparr>)"

subsection \<open>\<open>db_get_version\<close>, \<open>db_set_version\<close>, \<open>db_create_schema\<close>\<close>

text \<open>
  \<open>PRAGMA user_version\<close>: a failing prepare is \<open>-1\<close>, a step that yields no row leaves 0. The two
  routines are \<open>migrations.cc\<close>'s; the schema needs them.
\<close>

definition db_get_version :: "sqlite \<Rightarrow> int \<times> sqlite" where
  "db_get_version db =
     (if db_null db then (-1, db)
      else (let (ok, db1) = sql_call db
            in if \<not> ok then (-1, db1)
               else (let (bad, rest) = next_fault (fl_row db1); db2 = db1\<lparr>fl_row := rest\<rparr>
                     in (if bad then 0 else t_version (db_tabs db2), db2))))"

definition db_set_version :: "sqlite \<Rightarrow> int \<Rightarrow> bool \<times> sqlite" where
  "db_set_version db version =
     (if db_null db then (False, db)
      else if db_readonly db then (False, db)
      else (let (ok, db1) = sql_call db
            in if ok then (True, db1\<lparr>db_tabs := (db_tabs db1)\<lparr>t_version := version\<rparr>\<rparr>)
               else (False, db1)))"

text \<open>
  The script is six statements: two pragmas and four \<open>CREATE TABLE IF NOT EXISTS\<close>.
  \<open>PRAGMA foreign_keys\<close> has no effect inside a transaction; \<open>journal_mode = WAL\<close> is not visible in
  the contents. The tables count as existing once the last of them does. On a read-only
  connection the \<open>CREATE\<close>s succeed only where there is nothing to create.
\<close>

fun sql_calls :: "nat \<Rightarrow> sqlite \<Rightarrow> bool \<times> sqlite" where
  "sql_calls n db =
     (if n = 0 then (True, db)
      else (let (ok, db1) = sql_call db in if ok then sql_calls (n - 1) db1 else (False, db1)))"

declare sql_calls.simps [simp del]

definition db_create_schema :: "sqlite \<Rightarrow> bool \<times> sqlite" where
  "db_create_schema db =
     (if db_null db then (False, db)
      else (let (ok1, db1) = sql_call db
            in if \<not> ok1 then (False, db1)
               else (let db2 = (if db_snap db1 = None then db1\<lparr>db_fk := True\<rparr> else db1);
                         (ok2, db3) = sql_calls 5 db2
                     in if \<not> ok2 \<or> (db_readonly db3 \<and> \<not> t_exists (db_tabs db3)) then (False, db3)
                        else (let t = db_tabs db3;
                                  db4 = (if t_exists t then db3
                                         else db3\<lparr>db_tabs := t\<lparr>t_exists := True, t_unique_names := True\<rparr>\<rparr>);
                                  (v, db5) = db_get_version db4
                              in (True, if v = 0 then snd (db_set_version db5 1) else db5)))))"

subsection \<open>\<open>db_open\<close>, \<open>db_close\<close>\<close>

text \<open>
  \<open>files\<close> is what \<open>sqlite3_open_v2\<close> finds at a path (a missing file is an empty database, \<open>None\<close> an
  error), \<open>has_cipher\<close> whether the library answers \<open>PRAGMA cipher_version\<close>. The new connection gets
  its oracles from \<open>conn\<close>. The key goes to SQLCipher as the text of a pragma.
\<close>

definition hex_digit :: "nat \<Rightarrow> char" where
  "hex_digit d = ''0123456789abcdef'' ! d"

definition key_pragma :: "bytes \<Rightarrow> string" where
  "key_pragma key =
     ''PRAGMA key = x''
     @ [char_of (39 :: nat)]
     @ concat (map (\<lambda>b. [hex_digit (unat b div 16), hex_digit (unat b mod 16)]) key)
     @ [char_of (39 :: nat)] @ '';''"

definition fresh_connection :: "sqlite \<Rightarrow> tables \<Rightarrow> sqlite" where
  "fresh_connection conn t =
     conn\<lparr>db_null := False, db_readonly := False, db_tabs := t, db_snap := None, db_fk := False\<rparr>"

definition db_open ::
  "bool \<Rightarrow> (string \<Rightarrow> tables option) \<Rightarrow> sqlite \<Rightarrow> string option \<Rightarrow> bytes option \<Rightarrow> bool \<times> sqlite" where
  "db_open has_cipher files conn path key =
     (case path of
        None \<Rightarrow> (False, conn)
      | Some p \<Rightarrow>
          (case files p of
             None \<Rightarrow> (False, conn)
           | Some t \<Rightarrow>
               (let db = fresh_connection conn t
                in if has_cipher
                   then (if key = None \<or> key = Some [] then (False, db\<lparr>db_null := True\<rparr>)
                         else (let (ok, db1) = sql_call db
                               in if ok then (True, db1) else (False, db1\<lparr>db_null := True\<rparr>)))
                   else (True, db))))"

text \<open>Closing rolls an open transaction back; what is left is what the file holds.\<close>

definition db_close :: "sqlite \<Rightarrow> tables" where
  "db_close db = db_tabs (exec_rollback db)"

subsection \<open>Well-formed tables\<close>

text \<open>
  What the constraints of the schema guarantee: keys are unique, the \<open>AUTOINCREMENT\<close> counters bound
  every id ever given out, and every KEK and every secret belongs to a user that exists.
\<close>

definition users_ok :: "tables \<Rightarrow> bool" where
  "users_ok t \<longleftrightarrow> distinct (map u_id (t_users t)) \<and> distinct (map u_username (t_users t))
     \<and> (\<forall>r \<in> set (t_users t). u_id r \<le> t_user_seq t)"

definition keks_ok :: "tables \<Rightarrow> bool" where
  "keks_ok t \<longleftrightarrow> distinct (map k_user_id (t_keks t))
     \<and> (\<forall>r \<in> set (t_keks t). k_user_id r \<in> u_id ` set (t_users t))"

definition secret_key :: "secret_rec \<Rightarrow> int \<times> string option" where
  "secret_key r = (s_user_id r, s_name r)"

definition secrets_ok :: "tables \<Rightarrow> bool" where
  "secrets_ok t \<longleftrightarrow> distinct (map s_id (t_secrets t))
     \<and> distinct (map secret_key (filter (\<lambda>r. s_name r \<noteq> None) (t_secrets t)))
     \<and> (\<forall>r \<in> set (t_secrets t). s_id r \<le> t_secret_seq t \<and> s_user_id r \<in> u_id ` set (t_users t))
     \<and> (t_unique_names t \<or> t_idx_name t)"

text \<open>A blob that went through \<open>sqlite3_bind_blob\<close> is shorter than two gigabytes.\<close>

definition sizes_ok :: "tables \<Rightarrow> bool" where
  "sizes_ok t \<longleftrightarrow> (\<forall>r \<in> set (t_secrets t). length (s_private_key r) < 2 ^ 31)"

definition audit_ok :: "tables \<Rightarrow> bool" where
  "audit_ok t \<longleftrightarrow> sorted_wrt (<) (map a_id (t_audit t))
     \<and> (\<forall>r \<in> set (t_audit t). a_id r \<le> t_audit_seq t)"

definition wf_tables :: "tables \<Rightarrow> bool" where
  "wf_tables t \<longleftrightarrow> users_ok t \<and> keks_ok t \<and> secrets_ok t \<and> sizes_ok t \<and> audit_ok t"

lemma next_rowid_Some: "next_rowid n = Some i \<longleftrightarrow> n < MAX_ROWID \<and> i = n + 1"
  by (auto simp: next_rowid_def)

text \<open>Well-formedness reads only the keys: an update of other columns keeps it.\<close>

lemma named_keys:
  "map secret_key (filter (\<lambda>r. s_name r \<noteq> None) rs) = filter (\<lambda>k. snd k \<noteq> None) (map secret_key rs)"
  by (induction rs) (auto simp: secret_key_def)

lemma wf_tables_same_keys:
  assumes wf: "wf_tables t"
    and u: "map u_id (t_users t') = map u_id (t_users t)"
           "map u_username (t_users t') = map u_username (t_users t)" "t_user_seq t' = t_user_seq t"
    and k: "map k_user_id (t_keks t') = map k_user_id (t_keks t)"
    and s: "map s_id (t_secrets t') = map s_id (t_secrets t)"
           "map secret_key (t_secrets t') = map secret_key (t_secrets t)"
           "t_secret_seq t' = t_secret_seq t"
    and a: "t_audit t' = t_audit t" "t_audit_seq t' = t_audit_seq t"
    and f: "t_unique_names t' = t_unique_names t" "t_idx_name t' = t_idx_name t"
    and z: "sizes_ok t \<Longrightarrow> sizes_ok t'"
  shows "wf_tables t'"
proof -
  have ids: "u_id ` set (t_users t') = u_id ` set (t_users t)" using u(1) by (metis list.set_map)
  have sids: "map s_user_id (t_secrets t') = map s_user_id (t_secrets t)"
    using arg_cong [OF s(2), of "map fst"] by (simp add: comp_def secret_key_def)
  have "users_ok t'"
    using wf u ball_key_cong [OF u(1), of "\<lambda>x. x \<le> t_user_seq t"]
    by (simp add: wf_tables_def users_ok_def)
  moreover have "keks_ok t'"
    using wf k ids ball_key_cong [OF k, of "\<lambda>x. x \<in> u_id ` set (t_users t)"]
    by (simp add: wf_tables_def keks_ok_def)
  moreover have "secrets_ok t'"
    using wf s ids f ball_key_cong [OF s(1), of "\<lambda>x. x \<le> t_secret_seq t"]
      ball_key_cong [OF sids, of "\<lambda>x. x \<in> u_id ` set (t_users t)"]
    unfolding wf_tables_def secrets_ok_def named_keys ball_conj_distrib by simp
  moreover have "audit_ok t'"
    using wf a unfolding wf_tables_def audit_ok_def by simp
  ultimately show ?thesis using wf z by (simp add: wf_tables_def)
qed

subsection \<open>Frame and success lemmas\<close>

text \<open>
  \<open>same_conn\<close>: everything of the connection but the tables and the two oracles a statement consumes
  is as it was. \<open>healthy\<close>: the connection is open, writable, outside a transaction, the tables are
  there and no call is going to fail.
\<close>

definition same_conn :: "sqlite \<Rightarrow> sqlite \<Rightarrow> bool" where
  "same_conn db db' \<longleftrightarrow> db_null db' = db_null db \<and> db_readonly db' = db_readonly db
     \<and> db_snap db' = db_snap db \<and> db_fk db' = db_fk db \<and> fl_begin db' = fl_begin db
     \<and> fl_commit db' = fl_commit db"

definition healthy :: "sqlite \<Rightarrow> bool" where
  "healthy db \<longleftrightarrow> \<not> db_null db \<and> \<not> db_readonly db \<and> db_snap db = None \<and> db_fk db
     \<and> t_exists (db_tabs db) \<and> fl_stmt db = [] \<and> fl_row db = [] \<and> fl_begin db = []
     \<and> fl_commit db = []"

lemma same_conn_refl [simp, intro]: "same_conn db db"
  by (simp add: same_conn_def)

lemma same_conn_trans [trans]: "same_conn a b \<Longrightarrow> same_conn b c \<Longrightarrow> same_conn a c"
  by (simp add: same_conn_def)

lemma same_conn_tabs [simp]:
  "same_conn db (db'\<lparr>db_tabs := t\<rparr>) \<longleftrightarrow> same_conn db db'"
  "same_conn db (db'\<lparr>fl_row := fs\<rparr>) \<longleftrightarrow> same_conn db db'"
  "same_conn db (db'\<lparr>fl_stmt := fs\<rparr>) \<longleftrightarrow> same_conn db db'"
  by (simp_all add: same_conn_def)

lemma sql_frame [simp]:
  "same_conn db (snd (sql_call db))" "same_conn db (snd (sql_prepare db))"
  "same_conn db (snd (sql_write db))"
  "db_tabs (snd (sql_call db)) = db_tabs db" "db_tabs (snd (sql_prepare db)) = db_tabs db"
  "db_tabs (snd (sql_write db)) = db_tabs db"
  "fl_row (snd (sql_call db)) = fl_row db" "fl_row (snd (sql_prepare db)) = fl_row db"
  "fl_row (snd (sql_write db)) = fl_row db"
  by (simp_all add: sql_call_def sql_prepare_def sql_write_def split_beta Let_def)

lemma sql_frameD:
  "sql_call db = (ok, db1) \<Longrightarrow> same_conn db db1 \<and> db_tabs db1 = db_tabs db \<and> fl_row db1 = fl_row db"
  "sql_prepare db = (ok, db1) \<Longrightarrow> same_conn db db1 \<and> db_tabs db1 = db_tabs db \<and> fl_row db1 = fl_row db"
  "sql_write db = (ok, db1) \<Longrightarrow> same_conn db db1 \<and> db_tabs db1 = db_tabs db \<and> fl_row db1 = fl_row db"
  using sql_frame [of db] by auto

lemma healthy_sql [simp]:
  "healthy db \<Longrightarrow> sql_call db = (True, db)" "healthy db \<Longrightarrow> sql_prepare db = (True, db)"
  "healthy db \<Longrightarrow> sql_write db = (True, db)"
  by (simp_all add: healthy_def sql_call_def sql_prepare_def sql_write_def)

lemma healthyD:
  assumes "healthy db"
  shows "\<not> db_null db" "db_fk db" "db_snap db = None" "fl_row db = []" "\<not> db_readonly db"
  using assms by (simp_all add: healthy_def)

lemma healthy_tabs [simp]:
  "healthy db \<Longrightarrow> healthy (db\<lparr>db_tabs := t\<rparr>) \<longleftrightarrow> t_exists t"
  "healthy db \<Longrightarrow> healthy (db\<lparr>fl_row := fs\<rparr>) \<longleftrightarrow> fs = []"
  by (simp_all add: healthy_def)

lemma fetch_rows_ok [simp]: "fetch_rows rs [] = (rs, [])"
  by (induction rs) auto

lemma fetch_rows_prefix: "\<exists>n. fst (fetch_rows rs fs) = take n rs"
proof (induction rs arbitrary: fs)
  case (Cons r rs)
  obtain n where n: "fst (fetch_rows rs (tl fs)) = take n rs" using Cons.IH by blast
  show ?case
  proof (cases "fs \<noteq> [] \<and> hd fs")
    case True
    then show ?thesis by (intro exI [of _ 0]) (simp add: next_fault_split)
  next
    case False
    then show ?thesis using n
      by (intro exI [of _ "Suc n"]) (simp add: next_fault_split split_beta Let_def)
  qed
qed simp

lemma bind_blob_exact [simp]:
  "length b < 2 ^ 31 \<Longrightarrow> bind_blob (Some b) (length b)
    = (if length b \<le> SQLITE_MAX_LENGTH then Some (Some b) else None)"
  by (simp add: bind_blob_def c_int_exact)

lemma bind_blob_null [simp]: "bind_blob None n = Some None"
  by (simp add: bind_blob_def)

lemma bind_blob_size:
  assumes "bind_blob p n = Some (Some b)"
  shows "length b < 2 ^ 31"
proof -
  have "length b \<le> nat (c_int n)"
    using assms by (auto simp: bind_blob_def split: option.splits if_splits)
  also have "nat (c_int n) < nat (2 ^ 31)" using c_int_range [of n] by (intro nat_mono_iff [THEN iffD2]) auto
  finally show ?thesis by simp
qed

text \<open>A transaction that is rolled back leaves the tables as they were when it began.\<close>

lemma exec_begin_ok:
  "db_snap db = None \<Longrightarrow> \<not> db_readonly db \<Longrightarrow> True \<notin> set (fl_begin db) \<Longrightarrow>
   exec_begin db = (True, db\<lparr>fl_begin := tl (fl_begin db), db_snap := Some (db_tabs db)\<rparr>)"
  by (cases "fl_begin db") (auto simp: exec_begin_def Let_def)

lemma exec_commit_ok:
  "db_snap db \<noteq> None \<Longrightarrow> True \<notin> set (fl_commit db) \<Longrightarrow>
   exec_commit db = (True, db\<lparr>fl_commit := tl (fl_commit db), db_snap := None\<rparr>)"
  by (cases "fl_commit db") (auto simp: exec_commit_def Let_def)

lemma rollback_restores:
  "db_snap db = Some t \<Longrightarrow> db_tabs (exec_rollback db) = t \<and> db_snap (exec_rollback db) = None"
  by (simp add: exec_rollback_def)

text \<open>
  \<open>steady\<close>: the connection is open for writing with foreign keys on, no transaction is open, and no
  \<open>BEGIN\<close> or \<open>COMMIT\<close> is going to fail; every other statement still may.
\<close>

definition steady :: "sqlite \<Rightarrow> bool" where
  "steady db \<longleftrightarrow> \<not> db_null db \<and> \<not> db_readonly db \<and> db_fk db \<and> db_snap db = None
     \<and> True \<notin> set (fl_begin db) \<and> True \<notin> set (fl_commit db)"

lemma same_conn_steady: "same_conn db db' \<Longrightarrow> steady db' \<longleftrightarrow> steady db"
  by (simp add: same_conn_def steady_def)

lemma healthy_steady: "healthy db \<Longrightarrow> steady db"
  by (simp add: healthy_def steady_def)

lemma same_conn_fk: "same_conn db db' \<Longrightarrow> db_fk db' = db_fk db"
  by (simp add: same_conn_def)

subsection \<open>The contract of a keyed table\<close>

text \<open>
  \<open>users\<close>, \<open>kek_metadata\<close> and \<open>secrets\<close> are used by the rest of the library as maps from a key to the
  columns it cares about: an insertion is refused when the key is there, otherwise it adds exactly
  that key, a deletion removes exactly that key, and both keep the tables well-formed.
\<close>

locale keyed_table =
  fixes view :: "'t \<Rightarrow> 'k \<Rightarrow> 'v option"
    and put :: "'k \<Rightarrow> 'v \<Rightarrow> 't \<Rightarrow> 't option"
    and remove :: "'k \<Rightarrow> 't \<Rightarrow> 't"
    and ok :: "'t \<Rightarrow> bool"
  assumes put_present: "ok t \<Longrightarrow> view t k \<noteq> None \<Longrightarrow> put k v t = None"
    and put_view: "ok t \<Longrightarrow> put k v t = Some t' \<Longrightarrow> view t' = (view t)(k \<mapsto> v)"
    and put_ok: "ok t \<Longrightarrow> put k v t = Some t' \<Longrightarrow> ok t'"
    and remove_view: "ok t \<Longrightarrow> view (remove k t) = (view t)(k := None)"
    and remove_ok: "ok t \<Longrightarrow> ok (remove k t)"
begin

lemma put_absent: "ok t \<Longrightarrow> put k v t = Some t' \<Longrightarrow> view t k = None"
  using put_present [of t k v] by (cases "view t k") auto

lemma put_remove: "ok t \<Longrightarrow> put k v t = Some t' \<Longrightarrow> view (remove k t') = view t"
  by (auto simp: put_view put_ok remove_view put_absent fun_eq_iff)

lemma puts_keep:
  assumes "ok t" and "view t k = Some v"
  shows "ok (fold (\<lambda>(k, v) t. case put k v t of None \<Rightarrow> t | Some t' \<Rightarrow> t') kvs t)
     \<and> view (fold (\<lambda>(k, v) t. case put k v t of None \<Rightarrow> t | Some t' \<Rightarrow> t') kvs t) k = Some v"
  using assms
proof (induction kvs arbitrary: t)
  case (Cons kv kvs)
  obtain k1 v1 where kv: "kv = (k1, v1)" by (cases kv)
  show ?case
  proof (cases "put k1 v1 t")
    case None
    then show ?thesis using Cons kv by simp
  next
    case (Some t')
    then have "k1 \<noteq> k" using put_absent [OF Cons.prems(1) Some] Cons.prems(2) by auto
    then have "view t' k = Some v" using put_view [OF Cons.prems(1) Some] Cons.prems(2) by simp
    then show ?thesis using Cons.IH [OF put_ok [OF Cons.prems(1) Some]] Some kv by simp
  qed
qed simp

end

end
