(* ===== verification/Kek_Table.thy ===== *)
theory Kek_Table
  imports Database
begin

section \<open>The table \<open>kek_metadata\<close> (\<open>src/db/kek_metadata.cc\<close>)\<close>

text \<open>
  \<open>kek_store\<close>, \<open>kek_find_by_user\<close>, \<open>kek_update\<close> with its version check, and \<open>kek_delete\<close>.
\<close>

record kek_row =
  kr_id :: int
  kr_user_id :: int
  kr_wrapped_kek :: bytes
  kr_salt :: bytes
  kr_expires_at :: string
  kr_version :: int

text \<open>\<open>kek_version\<close> has the default 1; \<open>UNIQUE(user_id)\<close> and the foreign key can refuse the row.\<close>

definition insert_kek ::
  "bool \<Rightarrow> int \<Rightarrow> bytes \<Rightarrow> bytes \<Rightarrow> string \<Rightarrow> tables \<Rightarrow> tables option" where
  "insert_kek fk user_id wrapped salt expires_at t =
     (if \<exists>r \<in> set (t_keks t). k_user_id r = user_id then None
      else if fk \<and> \<not> (\<exists>u \<in> set (t_users t). u_id u = user_id) then None
      else (case next_rowid (t_kek_seq t) of
              None \<Rightarrow> None
            | Some i \<Rightarrow>
                Some (t\<lparr>t_keks := t_keks t @ [\<lparr>k_id = i, k_user_id = user_id,
                          k_wrapped_kek = wrapped, k_salt = salt, k_expires_at = expires_at,
                          k_version = 1\<rparr>],
                        t_kek_seq := i\<rparr>)))"

definition kek_store ::
  "sqlite \<Rightarrow> int \<Rightarrow> bytes option \<Rightarrow> bytes option \<Rightarrow> string option \<Rightarrow> bool \<times> sqlite" where
  "kek_store db user_id wrapped_kek salt expires_at =
     (case (wrapped_kek, salt, expires_at) of
        (Some w, Some s, Some e) \<Rightarrow>
          (if db_null db then (False, db)
           else (let (ok, db1) = sql_write db
                 in if \<not> ok then (False, db1)
                    else (case (bind_blob (Some w) (length w), bind_blob (Some s) (length s)) of
                            (Some (Some wb), Some (Some sb)) \<Rightarrow>
                              (case insert_kek (db_fk db1) user_id wb sb e (db_tabs db1) of
                                 None \<Rightarrow> (False, db1)
                               | Some t \<Rightarrow> (True, db1\<lparr>db_tabs := t\<rparr>))
                          | _ \<Rightarrow> (False, db1))))
      | _ \<Rightarrow> (False, db))"

definition find_kek :: "int \<Rightarrow> tables \<Rightarrow> kek_rec option" where
  "find_kek user_id t = find (\<lambda>r. k_user_id r = user_id) (t_keks t)"

definition read_kek_row :: "kek_rec \<Rightarrow> kek_row" where
  "read_kek_row r = \<lparr>kr_id = k_id r, kr_user_id = k_user_id r, kr_wrapped_kek = k_wrapped_kek r,
     kr_salt = k_salt r, kr_expires_at = k_expires_at r, kr_version = k_version r\<rparr>"

definition kek_find_by_user :: "sqlite \<Rightarrow> int \<Rightarrow> kek_row option \<times> sqlite" where
  "kek_find_by_user db user_id =
     (if db_null db then (None, db)
      else (let (ok, db1) = sql_prepare db
            in if \<not> ok then (None, db1)
               else (map_option read_kek_row (find_kek user_id (db_tabs db1)), db1)))"

definition update_kek ::
  "int \<Rightarrow> int \<Rightarrow> bytes \<Rightarrow> bytes \<Rightarrow> string \<Rightarrow> tables \<Rightarrow> tables" where
  "update_kek user_id expected wrapped salt expires_at t =
     t\<lparr>t_keks := map (\<lambda>r.
         if k_user_id r = user_id \<and> k_version r = expected
         then r\<lparr>k_wrapped_kek := wrapped, k_salt := salt, k_expires_at := expires_at,
                k_version := k_version r + 1\<rparr>
         else r) (t_keks t)\<rparr>"

definition kek_update ::
  "sqlite \<Rightarrow> int \<Rightarrow> bytes option \<Rightarrow> bytes option \<Rightarrow> string option \<Rightarrow> int \<Rightarrow> bool \<times> sqlite" where
  "kek_update db user_id wrapped_kek salt expires_at expected_version =
     (case (wrapped_kek, salt, expires_at) of
        (Some w, Some s, Some e) \<Rightarrow>
          (if db_null db then (False, db)
           else if expected_version < 1 then (False, db)
           else (let (ok, db1) = sql_write db
                 in if \<not> ok then (False, db1)
                    else (case (bind_blob (Some w) (length w), bind_blob (Some s) (length s)) of
                            (Some (Some wb), Some (Some sb)) \<Rightarrow>
                              ((\<exists>r \<in> set (t_keks (db_tabs db1)).
                                  k_user_id r = user_id \<and> k_version r = expected_version),
                               db1\<lparr>db_tabs :=
                                  update_kek user_id expected_version wb sb e (db_tabs db1)\<rparr>)
                          | _ \<Rightarrow> (False, db1))))
      | _ \<Rightarrow> (False, db))"

definition kek_delete :: "sqlite \<Rightarrow> int \<Rightarrow> bool \<times> sqlite" where
  "kek_delete db user_id =
     (if db_null db then (False, db)
      else (let (ok, db1) = sql_write db
            in if \<not> ok then (False, db1)
               else (let t = db_tabs db1
                     in ((\<exists>r \<in> set (t_keks t). k_user_id r = user_id),
                         db1\<lparr>db_tabs := t\<lparr>t_keks := filter (\<lambda>r. k_user_id r \<noteq> user_id) (t_keks t)\<rparr>\<rparr>))))"

text \<open>
  \<open>UPDATE kek_metadata SET wrapped_kek = ? WHERE user_id = ?\<close> of \<open>ssm_user_change_password\<close>.
\<close>

definition set_wrapped_kek :: "int \<Rightarrow> bytes \<Rightarrow> tables \<Rightarrow> tables" where
  "set_wrapped_kek user_id wrapped t =
     t\<lparr>t_keks := map (\<lambda>r. if k_user_id r = user_id then r\<lparr>k_wrapped_kek := wrapped\<rparr> else r)
                  (t_keks t)\<rparr>"

definition update_wrapped_kek :: "sqlite \<Rightarrow> int \<Rightarrow> bytes \<Rightarrow> bool \<times> sqlite" where
  "update_wrapped_kek db user_id wrapped =
     (let (ok, db1) = sql_write db
      in if ok then (True, db1\<lparr>db_tabs := set_wrapped_kek user_id wrapped (db_tabs db1)\<rparr>)
         else (False, db1))"

subsection \<open>What the operations guarantee\<close>

lemma find_kek_Some: "find_kek u t = Some r \<Longrightarrow> r \<in> set (t_keks t) \<and> k_user_id r = u"
  by (auto simp: find_kek_def find_Some_iff)

lemma insert_kek_eq:
  assumes "insert_kek fk u w s e t = Some t'"
  shows "\<exists>i. t' = t\<lparr>t_keks := t_keks t @ [\<lparr>k_id = i, k_user_id = u, k_wrapped_kek = w, k_salt = s,
                k_expires_at = e, k_version = 1\<rparr>], t_kek_seq := i\<rparr>"
    and "find_kek u t = None" and "fk \<Longrightarrow> u \<in> u_id ` set (t_users t)"
  using assms by (auto simp: insert_kek_def find_kek_def find_None_iff
      split: if_splits option.splits)

lemma insert_kek_wf:
  assumes "insert_kek True u w s e t = Some t'" and "wf_tables t"
  shows "wf_tables t'"
proof -
  have "u \<notin> k_user_id ` set (t_keks t)"
    using insert_kek_eq(2) [OF assms(1)] by (auto simp: find_kek_def find_None_iff)
  then show ?thesis using insert_kek_eq(1,3) [OF assms(1)] assms(2)
    by (auto simp: wf_tables_def users_ok_def keks_ok_def secrets_ok_def sizes_ok_def audit_ok_def)
qed

lemma find_kek_insert:
  assumes "insert_kek fk u w s e t = Some t'"
  shows "find_kek v t' = (if v = u then find_kek u t' else find_kek v t)"
    and "\<exists>r. find_kek u t' = Some r \<and> k_wrapped_kek r = w \<and> k_salt r = s \<and> k_expires_at r = e
             \<and> k_version r = 1"
  using insert_kek_eq [OF assms] by (auto simp: find_kek_def find_append split: option.splits)

lemma kek_store_cases:
  assumes "kek_store db u w s e = (ok, db')"
  shows "same_conn db db' \<and> fl_row db' = fl_row db"
    and "\<not> ok \<Longrightarrow> db_tabs db' = db_tabs db"
    and "ok \<Longrightarrow> \<exists>wb sb eb. insert_kek (db_fk db) u wb sb eb (db_tabs db) = Some (db_tabs db')"
  using assms by (auto dest!: sql_frameD simp: kek_store_def Let_def same_conn_fk
      split: prod.splits if_splits option.splits) blast

lemma kek_store_wf:
  assumes "kek_store db u w s e = (ok, db')" and "db_fk db" and "wf_tables (db_tabs db)"
  shows "wf_tables (db_tabs db')"
proof (cases ok)
  case True
  then show ?thesis using kek_store_cases(3) [OF assms(1)] assms(2,3) insert_kek_wf by auto
next
  case False
  then show ?thesis using kek_store_cases(2) [OF assms(1)] assms(3) by simp
qed

lemma kek_find_frame [simp]:
  "same_conn db (snd (kek_find_by_user db u))"
  "db_tabs (snd (kek_find_by_user db u)) = db_tabs db"
  "fl_row (snd (kek_find_by_user db u)) = fl_row db"
  by (auto dest!: sql_frameD simp: kek_find_by_user_def Let_def split: prod.splits)

lemma kek_find_Some:
  assumes "kek_find_by_user db u = (Some kr, db')"
  shows "\<exists>r. find_kek u (db_tabs db) = Some r \<and> kr = read_kek_row r"
  using assms by (auto dest!: sql_frameD simp: kek_find_by_user_def Let_def split: prod.splits if_splits)

lemma kek_find_healthy:
  "healthy db \<Longrightarrow> kek_find_by_user db u = (map_option read_kek_row (find_kek u (db_tabs db)), db)"
  by (simp add: kek_find_by_user_def healthyD)

lemma find_kek_update:
  "find_kek v (update_kek u n w s e t) =
     map_option (\<lambda>r. if v = u \<and> k_version r = n
        then r\<lparr>k_wrapped_kek := w, k_salt := s, k_expires_at := e, k_version := k_version r + 1\<rparr>
        else r) (find_kek v t)"
  by (auto simp: find_kek_def update_kek_def find_map_same dest!: find_SomeD intro!: map_option_cong)

lemma update_kek_wf: "wf_tables t \<Longrightarrow> wf_tables (update_kek u n w s e t)"
  by (erule wf_tables_same_keys) (auto simp: update_kek_def sizes_ok_def)

lemma kek_update_cases:
  assumes "kek_update db u w s e n = (ok, db')"
  shows "same_conn db db' \<and> fl_row db' = fl_row db"
    and "db_tabs db' = db_tabs db
         \<or> (\<exists>wb sb eb. db_tabs db' = update_kek u n wb sb eb (db_tabs db))"
    and "ok \<Longrightarrow> w = Some wb \<Longrightarrow> s = Some sb \<Longrightarrow> e = Some eb \<Longrightarrow> length wb < 2 ^ 31 \<Longrightarrow> length sb < 2 ^ 31
         \<Longrightarrow> db_tabs db' = update_kek u n wb sb eb (db_tabs db)"
  using assms by (auto dest!: sql_frameD simp: kek_update_def Let_def
      split: prod.splits if_splits option.splits) blast+

lemma find_kek_set_wrapped:
  "find_kek v (set_wrapped_kek u w t) =
     map_option (\<lambda>r. if v = u then r\<lparr>k_wrapped_kek := w\<rparr> else r) (find_kek v t)"
  by (auto simp: find_kek_def set_wrapped_kek_def find_map_same dest!: find_SomeD intro!: map_option_cong)

lemma set_wrapped_kek_wf: "wf_tables t \<Longrightarrow> wf_tables (set_wrapped_kek u w t)"
  by (erule wf_tables_same_keys) (auto simp: set_wrapped_kek_def sizes_ok_def)

lemma update_wrapped_kek_cases:
  assumes "update_wrapped_kek db u w = (ok, db')"
  shows "same_conn db db' \<and> fl_row db' = fl_row db"
    and "db_tabs db' = (if ok then set_wrapped_kek u w (db_tabs db) else db_tabs db)"
  using assms by (auto dest!: sql_frameD simp: update_wrapped_kek_def Let_def
      split: prod.splits if_splits)

lemma kek_delete_cases:
  assumes "kek_delete db u = (ok, db')"
  shows "same_conn db db' \<and> fl_row db' = fl_row db"
    and "ok \<Longrightarrow> find_kek u (db_tabs db') = None"
    and "v \<noteq> u \<Longrightarrow> find_kek v (db_tabs db') = find_kek v (db_tabs db)"
  using assms by (auto dest!: sql_frameD simp: kek_delete_def Let_def find_kek_def find_filter
      find_None_iff intro!: find_cong_set split: prod.splits if_splits)

subsection \<open>The table as a map from users to wrapped keys\<close>

definition kek_columns :: "tables \<Rightarrow> int \<Rightarrow> (bytes \<times> bytes \<times> string) option" where
  "kek_columns t u = map_option (\<lambda>r. (k_wrapped_kek r, k_salt r, k_expires_at r)) (find_kek u t)"

definition put_kek :: "int \<Rightarrow> bytes \<times> bytes \<times> string \<Rightarrow> tables \<Rightarrow> tables option" where
  "put_kek u c t = insert_kek True u (fst c) (fst (snd c)) (snd (snd c)) t"

definition remove_kek :: "int \<Rightarrow> tables \<Rightarrow> tables" where
  "remove_kek u t = t\<lparr>t_keks := filter (\<lambda>r. k_user_id r \<noteq> u) (t_keks t)\<rparr>"

lemma find_kek_remove: "find_kek v (remove_kek u t) = (if v = u then None else find_kek v t)"
  by (auto simp: find_kek_def remove_kek_def find_filter find_None_iff intro!: find_cong_set)

interpretation kek_table: keyed_table kek_columns put_kek remove_kek wf_tables
proof unfold_locales
  fix t u c t'
  assume wf: "wf_tables t"
  show "kek_columns t u \<noteq> None \<Longrightarrow> put_kek u c t = None"
    by (auto simp: kek_columns_def put_kek_def insert_kek_def dest!: find_kek_Some)
  show "kek_columns t' = (kek_columns t)(u \<mapsto> c)" if "put_kek u c t = Some t'"
  proof
    fix v
    note i = that [unfolded put_kek_def]
    show "kek_columns t' v = ((kek_columns t)(u \<mapsto> c)) v"
      using find_kek_insert(1) [OF i, of v] find_kek_insert(2) [OF i]
      by (cases c) (auto simp: kek_columns_def)
  qed
  show "wf_tables t'" if "put_kek u c t = Some t'"
    using that wf insert_kek_wf by (auto simp: put_kek_def)
  show "kek_columns (remove_kek u t) = (kek_columns t)(u := None)"
    by (auto simp: kek_columns_def find_kek_remove fun_eq_iff)
  show "wf_tables (remove_kek u t)"
    using wf by (auto simp: wf_tables_def users_ok_def keks_ok_def secrets_ok_def sizes_ok_def
        audit_ok_def remove_kek_def distinct_map_filter)
qed

end
