(* ===== verification/Secrets_Table.thy ===== *)
theory Secrets_Table
  imports Database "HOL-Library.Multiset"
begin

section \<open>The table \<open>secrets\<close> (\<open>src/db/secrets.cc\<close>)\<close>

text \<open>
  \<open>secrets_store\<close>, \<open>secrets_find\<close>, \<open>secrets_delete\<close>, \<open>secrets_list_for_user\<close> and the update that
  \<open>kek_rotate\<close> prepares. A row as the C++ code sees it has empty strings and empty vectors where the
  table has NULL.
\<close>

record secret_row =
  sr_id :: int
  sr_user_id :: int
  sr_name :: string
  sr_private_key :: bytes
  sr_public_key :: bytes
  sr_nonce :: bytes
  sr_tag :: bytes
  sr_description :: string
  sr_updated_at :: string

definition read_secret_row :: "secret_rec \<Rightarrow> secret_row" where
  "read_secret_row r = \<lparr>sr_id = s_id r, sr_user_id = s_user_id r,
     sr_name = (case s_name r of None \<Rightarrow> [] | Some n \<Rightarrow> n),
     sr_private_key = s_private_key r,
     sr_public_key = (case s_public_key r of None \<Rightarrow> [] | Some p \<Rightarrow> p),
     sr_nonce = s_nonce r, sr_tag = s_tag r,
     sr_description = (case s_description r of None \<Rightarrow> [] | Some d \<Rightarrow> d),
     sr_updated_at = s_updated_at r\<rparr>"

text \<open>Uniqueness of \<open>(user_id, name)\<close> is enforced by the table or by the index of version 3; NULL
  names never collide.\<close>

definition name_taken :: "int \<Rightarrow> string option \<Rightarrow> tables \<Rightarrow> bool" where
  "name_taken user_id name t \<longleftrightarrow>
     name \<noteq> None \<and> (\<exists>r \<in> set (t_secrets t). s_user_id r = user_id \<and> s_name r = name)"

definition insert_secret ::
  "bool \<Rightarrow> nat \<Rightarrow> int \<Rightarrow> string option \<Rightarrow> bytes \<Rightarrow> bytes option \<Rightarrow> bytes \<Rightarrow> bytes
   \<Rightarrow> string option \<Rightarrow> tables \<Rightarrow> tables option" where
  "insert_secret fk now user_id name private_key public_key nonce tag description t =
     (if (t_unique_names t \<or> t_idx_name t) \<and> name_taken user_id name t then None
      else if fk \<and> \<not> (\<exists>u \<in> set (t_users t). u_id u = user_id) then None
      else (case next_rowid (t_secret_seq t) of
              None \<Rightarrow> None
            | Some i \<Rightarrow>
                Some (t\<lparr>t_secrets := t_secrets t @ [\<lparr>s_id = i, s_user_id = user_id, s_name = name,
                          s_private_key = private_key, s_public_key = public_key, s_nonce = nonce,
                          s_tag = tag, s_description = description, s_updated_at = iso_time now\<rparr>],
                        t_secret_seq := i\<rparr>)))"

definition secrets_store ::
  "nat \<Rightarrow> sqlite \<Rightarrow> int \<Rightarrow> string option \<Rightarrow> bytes option \<Rightarrow> bytes option \<Rightarrow> nat
   \<Rightarrow> bytes option \<Rightarrow> bytes option \<Rightarrow> string option \<Rightarrow> bool \<times> sqlite" where
  "secrets_store now db user_id name private_key public_key public_key_len nonce tag description =
     (case (private_key, nonce, tag) of
        (Some pk, Some n, Some tg) \<Rightarrow>
          (if db_null db then (False, db)
           else (let (ok, db1) = sql_write db
                 in if \<not> ok then (False, db1)
                    else (case (bind_blob (Some pk) (length pk), bind_blob public_key public_key_len,
                                bind_blob (Some n) (length n), bind_blob (Some tg) (length tg)) of
                            (Some (Some pkb), Some pubb, Some (Some nb), Some (Some tb)) \<Rightarrow>
                              (case insert_secret (db_fk db1) now user_id name pkb pubb nb tb
                                      description (db_tabs db1) of
                                 None \<Rightarrow> (False, db1)
                               | Some t \<Rightarrow> (True, db1\<lparr>db_tabs := t\<rparr>))
                          | _ \<Rightarrow> (False, db1))))
      | _ \<Rightarrow> (False, db))"

definition has_name :: "int \<Rightarrow> string \<Rightarrow> secret_rec \<Rightarrow> bool" where
  "has_name user_id name r \<longleftrightarrow> s_user_id r = user_id \<and> s_name r = Some name"

definition find_secret :: "int \<Rightarrow> string \<Rightarrow> tables \<Rightarrow> secret_rec option" where
  "find_secret user_id name t = find (has_name user_id name) (t_secrets t)"

definition secrets_find :: "sqlite \<Rightarrow> int \<Rightarrow> string option \<Rightarrow> secret_row option \<times> sqlite" where
  "secrets_find db user_id name =
     (case name of
        None \<Rightarrow> (None, db)
      | Some n \<Rightarrow>
          (if db_null db then (None, db)
           else (let (ok, db1) = sql_prepare db
                 in if \<not> ok then (None, db1)
                    else (map_option read_secret_row (find_secret user_id n (db_tabs db1)), db1))))"

definition delete_secret :: "int \<Rightarrow> string \<Rightarrow> tables \<Rightarrow> tables" where
  "delete_secret user_id name t =
     t\<lparr>t_secrets := filter (\<lambda>r. \<not> has_name user_id name r) (t_secrets t)\<rparr>"

definition secrets_delete :: "sqlite \<Rightarrow> int \<Rightarrow> string option \<Rightarrow> bool \<times> sqlite" where
  "secrets_delete db user_id name =
     (case name of
        None \<Rightarrow> (False, db)
      | Some n \<Rightarrow>
          (if db_null db then (False, db)
           else (let (ok, db1) = sql_write db
                 in if \<not> ok then (False, db1)
                    else ((\<exists>r \<in> set (t_secrets (db_tabs db1)). has_name user_id n r),
                          db1\<lparr>db_tabs := delete_secret user_id n (db_tabs db1)\<rparr>))))"

text \<open>
  \<open>ORDER BY updated_at DESC\<close>; rows with the same stamp come in no promised order, here in rowid
  order. The loop that collects the rows takes a failing step for the end of the result.
\<close>

definition secrets_of_user :: "int \<Rightarrow> tables \<Rightarrow> secret_rec list" where
  "secrets_of_user user_id t =
     rev (sort_key s_updated_at (rev (filter (\<lambda>r. s_user_id r = user_id) (t_secrets t))))"

definition secrets_list_for_user :: "sqlite \<Rightarrow> int \<Rightarrow> secret_row list option \<times> sqlite" where
  "secrets_list_for_user db user_id =
     (if db_null db then (None, db)
      else (let (ok, db1) = sql_prepare db
            in if \<not> ok then (None, db1)
               else (let (rows, rest) =
                           fetch_rows (secrets_of_user user_id (db_tabs db1)) (fl_row db1)
                     in (Some (map read_secret_row rows), db1\<lparr>fl_row := rest\<rparr>))))"

text \<open>
  \<open>UPDATE secrets SET private_key = ?, public_key = ?, nonce = ?, tag = ?, updated_at = now WHERE
  id = ?\<close> of \<open>kek_rotate\<close>.
\<close>

definition reencrypt_row :: "nat \<Rightarrow> bytes \<Rightarrow> bytes option \<Rightarrow> bytes \<Rightarrow> bytes \<Rightarrow> secret_rec \<Rightarrow> secret_rec" where
  "reencrypt_row now private_key public_key nonce tag r =
     r\<lparr>s_private_key := private_key, s_public_key := public_key, s_nonce := nonce, s_tag := tag,
       s_updated_at := iso_time now\<rparr>"

definition update_secret ::
  "nat \<Rightarrow> int \<Rightarrow> bytes \<Rightarrow> bytes option \<Rightarrow> bytes \<Rightarrow> bytes \<Rightarrow> tables \<Rightarrow> tables" where
  "update_secret now i private_key public_key nonce tag t =
     t\<lparr>t_secrets := map (\<lambda>r. if s_id r = i
                            then reencrypt_row now private_key public_key nonce tag r else r)
                     (t_secrets t)\<rparr>"

subsection \<open>What the operations guarantee\<close>

lemma find_secret_Some:
  "find_secret u n t = Some r \<Longrightarrow> r \<in> set (t_secrets t) \<and> s_user_id r = u \<and> s_name r = Some n"
  by (auto simp: find_secret_def has_name_def dest!: find_SomeD)

lemma find_secret_None:
  "find_secret u n t = None \<longleftrightarrow> \<not> name_taken u (Some n) t"
  by (auto simp: find_secret_def find_None_iff has_name_def name_taken_def)

lemma find_secret_unique:
  assumes "secrets_ok t" and "r \<in> set (t_secrets t)" and "s_name r = Some n"
  shows "find_secret (s_user_id r) n t = Some r"
  unfolding find_secret_def
proof (rule find_unique [OF assms(2)])
  have d: "distinct (map secret_key (filter (\<lambda>r. s_name r \<noteq> None) (t_secrets t)))"
    using assms(1) by (simp add: secrets_ok_def)
  show "has_name (s_user_id r) n r" using assms(3) by (simp add: has_name_def)
  show "y = r" if "y \<in> set (t_secrets t)" "has_name (s_user_id r) n y" for y
    by (rule distinct_map_same_key [OF d]) (use that assms in \<open>auto simp: has_name_def secret_key_def\<close>)
qed

lemma insert_secret_eq:
  assumes "insert_secret fk now u n pk pub nc tg d t = Some t'"
  shows "t' = t\<lparr>t_secrets := t_secrets t @ [\<lparr>s_id = t_secret_seq t + 1, s_user_id = u, s_name = n,
            s_private_key = pk, s_public_key = pub, s_nonce = nc, s_tag = tg, s_description = d,
            s_updated_at = iso_time now\<rparr>], t_secret_seq := t_secret_seq t + 1\<rparr>"
    and "t_unique_names t \<or> t_idx_name t \<Longrightarrow> \<not> name_taken u n t"
    and "fk \<Longrightarrow> u \<in> u_id ` set (t_users t)"
  using assms by (auto simp: insert_secret_def next_rowid_Some split: if_splits option.splits)

lemma insert_secret_wf:
  assumes "insert_secret True now u n pk pub nc tg d t = Some t'" and wf: "wf_tables t"
    and "length pk < 2 ^ 31"
  shows "wf_tables t'"
proof -
  note eq = insert_secret_eq [OF assms(1)]
  have nt: "\<not> name_taken u n t" using eq(2) wf by (auto simp: wf_tables_def secrets_ok_def)
  have "(u, n) \<notin> secret_key ` set (filter (\<lambda>r. s_name r \<noteq> None) (t_secrets t))" if "n \<noteq> None"
    using nt that by (auto simp: name_taken_def secret_key_def)
  then have "secrets_ok t'"
    using wf eq by (auto simp: wf_tables_def secrets_ok_def) (auto simp: secret_key_def)
  moreover have "users_ok t'" "keks_ok t'" "sizes_ok t'" "audit_ok t'"
    using wf eq(1) assms(3) by (auto simp: wf_tables_def users_ok_def keks_ok_def sizes_ok_def audit_ok_def)
  ultimately show ?thesis by (simp add: wf_tables_def)
qed

lemma find_secret_insert:
  assumes "insert_secret fk now u (Some n) pk pub nc tg d t = Some t'"
    and "t_unique_names t \<or> t_idx_name t"
  shows "find_secret v m t' =
     (if v = u \<and> m = n
      then Some \<lparr>s_id = t_secret_seq t + 1, s_user_id = u, s_name = Some n, s_private_key = pk,
             s_public_key = pub, s_nonce = nc, s_tag = tg, s_description = d,
             s_updated_at = iso_time now\<rparr>
      else find_secret v m t)"
proof -
  have "find_secret u n t = None" using insert_secret_eq(2) [OF assms] by (simp add: find_secret_None)
  then show ?thesis
    unfolding insert_secret_eq(1) [OF assms(1)] find_secret_def
    by (auto simp: find_append has_name_def split: option.splits)
qed

lemma secrets_store_frame:
  "same_conn db (snd (secrets_store now db u n pk pub publen nc tg d))"
  "fl_row (snd (secrets_store now db u n pk pub publen nc tg d)) = fl_row db"
  by (auto dest!: sql_frameD simp: secrets_store_def Let_def
      split: prod.splits if_splits option.splits)

lemma secrets_store_failed:
  "\<not> fst (secrets_store now db u n pk pub publen nc tg d) \<Longrightarrow>
   db_tabs (snd (secrets_store now db u n pk pub publen nc tg d)) = db_tabs db"
  by (auto dest!: sql_frameD simp: secrets_store_def Let_def
      split: prod.splits if_splits option.splits)

lemma secrets_store_stored:
  assumes "secrets_store now db u n (Some p) pub publen (Some x) (Some y) d = (True, db')"
    and "length p < 2 ^ 31" and "length x < 2 ^ 31" and "length y < 2 ^ 31"
  shows "\<exists>pub'. bind_blob pub publen = Some pub'
    \<and> insert_secret (db_fk db) now u n p pub' x y d (db_tabs db) = Some (db_tabs db')"
proof -
  obtain ok db1 where w: "sql_write db = (ok, db1)" by fastforce
  from assms(1) have ok: "\<not> db_null db" "ok"
    by (auto simp: secrets_store_def w Let_def split: if_splits)
  have fits: "length p \<le> SQLITE_MAX_LENGTH" "length x \<le> SQLITE_MAX_LENGTH" "length y \<le> SQLITE_MAX_LENGTH"
    using assms by (auto simp: secrets_store_def w Let_def split: if_splits option.splits)
  have b: "bind_blob (Some p) (length p) = Some (Some p)" "bind_blob (Some x) (length x) = Some (Some x)"
    "bind_blob (Some y) (length y) = Some (Some y)" using assms(2-4) fits by simp_all
  from assms(1) obtain pub' where p: "bind_blob pub publen = Some pub'"
    by (cases "bind_blob pub publen") (simp_all add: secrets_store_def w b ok Let_def)
  from assms(1) obtain t where i: "insert_secret (db_fk db1) now u n p pub' x y d (db_tabs db1) = Some t"
    by (cases "insert_secret (db_fk db1) now u n p pub' x y d (db_tabs db1)")
      (simp_all add: secrets_store_def w b p ok Let_def)
  with assms(1) have "db' = db1\<lparr>db_tabs := t\<rparr>"
    by (simp add: secrets_store_def w b p ok Let_def)
  then show ?thesis using p i sql_frameD(3) [OF w] by (auto simp: same_conn_fk)
qed

lemma secrets_store_wf:
  assumes "db_fk db" and "wf_tables (db_tabs db)"
  shows "wf_tables (db_tabs (snd (secrets_store now db u n pk pub publen nc tg d)))"
  using assms by (auto dest!: sql_frameD simp: secrets_store_def Let_def same_conn_fk
      intro: insert_secret_wf bind_blob_size split: prod.splits if_splits option.splits)

lemma secrets_find_frame [simp]:
  "same_conn db (snd (secrets_find db u n))" "db_tabs (snd (secrets_find db u n)) = db_tabs db"
  "fl_row (snd (secrets_find db u n)) = fl_row db"
  by (auto dest!: sql_frameD simp: secrets_find_def Let_def split: prod.splits option.splits)

lemma secrets_find_Some:
  assumes "secrets_find db u n = (Some sr, db')"
  shows "\<exists>m r. n = Some m \<and> find_secret u m (db_tabs db) = Some r \<and> sr = read_secret_row r"
  using assms by (auto dest!: sql_frameD simp: secrets_find_def Let_def
      split: prod.splits if_splits option.splits)

lemma find_secret_delete:
  "find_secret v m (delete_secret u n t) = (if v = u \<and> m = n then None else find_secret v m t)"
  by (auto simp: find_secret_def delete_secret_def find_filter find_None_iff has_name_def
      intro!: find_cong_set)

lemma delete_secret_wf: "wf_tables t \<Longrightarrow> wf_tables (delete_secret u n t)"
  by (auto simp: wf_tables_def users_ok_def keks_ok_def secrets_ok_def sizes_ok_def audit_ok_def delete_secret_def
      distinct_map_filter distinct_map_filter_filter simp del: filter_filter)

lemma secrets_delete_cases:
  assumes "secrets_delete db u n = (ok, db')"
  shows "same_conn db db' \<and> fl_row db' = fl_row db"
    and "db_tabs db' = db_tabs db \<or> (\<exists>m. n = Some m \<and> db_tabs db' = delete_secret u m (db_tabs db))"
    and "ok \<Longrightarrow> \<exists>m. n = Some m \<and> name_taken u n (db_tabs db)
              \<and> db_tabs db' = delete_secret u m (db_tabs db)"
  using assms by (auto dest!: sql_frameD simp: secrets_delete_def Let_def name_taken_def has_name_def
      split: prod.splits if_splits option.splits)

lemma secrets_of_user_set:
  "set (secrets_of_user u t) = {r \<in> set (t_secrets t). s_user_id r = u}"
  by (auto simp: secrets_of_user_def)

lemma secrets_of_user_ids: "secrets_ok t \<Longrightarrow> distinct (map s_id (secrets_of_user u t))"
proof -
  assume ok: "secrets_ok t"
  let ?xs = "rev (filter (\<lambda>r. s_user_id r = u) (t_secrets t))"
  have "distinct (map s_id ?xs)"
    using ok by (simp add: secrets_ok_def distinct_map_filter rev_map [symmetric])
  moreover have "mset (map s_id (sort_key s_updated_at ?xs)) = mset (map s_id ?xs)" by simp
  ultimately have "distinct (map s_id (sort_key s_updated_at ?xs))"
    using mset_eq_imp_distinct_iff by blast
  then show ?thesis by (simp add: secrets_of_user_def rev_map [symmetric])
qed

lemma secrets_list_cases:
  assumes "secrets_list_for_user db u = (r, db')"
  shows "same_conn db db'" and "db_tabs db' = db_tabs db"
    and "r = Some rows \<Longrightarrow> fl_row db = [] \<Longrightarrow> rows = map read_secret_row (secrets_of_user u (db_tabs db))"
    and "r = Some rows \<Longrightarrow> \<exists>n. rows = map read_secret_row (take n (secrets_of_user u (db_tabs db)))"
proof -
  let ?rs = "secrets_of_user u (db_tabs db)"
  obtain m where m: "fst (fetch_rows ?rs (fl_row db)) = take m ?rs" using fetch_rows_prefix by blast
  show "same_conn db db'" "db_tabs db' = db_tabs db"
    using assms by (auto dest!: sql_frameD simp: secrets_list_for_user_def Let_def
        split: prod.splits if_splits)
  show "rows = map read_secret_row ?rs" if "r = Some rows" "fl_row db = []"
    using assms that by (auto dest!: sql_frameD simp: secrets_list_for_user_def Let_def
        split: prod.splits if_splits)
  have "rows = map read_secret_row (fst (fetch_rows ?rs (fl_row db)))" if "r = Some rows"
    using assms that by (auto dest!: sql_frameD simp: secrets_list_for_user_def Let_def
        split: prod.splits if_splits)
  then show "\<exists>n. rows = map read_secret_row (take n ?rs)" if "r = Some rows"
    using that m by auto
qed

lemma find_secret_update:
  "find_secret u n (update_secret now i pk pub nc tg t) =
     map_option (\<lambda>r. if s_id r = i then reencrypt_row now pk pub nc tg r else r) (find_secret u n t)"
  by (simp add: find_secret_def update_secret_def find_map_same has_name_def reencrypt_row_def)

lemma update_secret_wf:
  "wf_tables t \<Longrightarrow> length pk < 2 ^ 31 \<Longrightarrow> wf_tables (update_secret now i pk pub nc tg t)"
  by (erule wf_tables_same_keys)
    (auto simp: update_secret_def reencrypt_row_def secret_key_def sizes_ok_def)

subsection \<open>The table as a map from users and names to sealed keys\<close>

type_synonym sealed = "bytes \<times> bytes option \<times> bytes \<times> bytes \<times> string option"

definition sealed_of :: "secret_rec \<Rightarrow> sealed" where
  "sealed_of r = (s_private_key r, s_public_key r, s_nonce r, s_tag r, s_description r)"

definition sealed_secrets :: "tables \<Rightarrow> int \<times> string \<Rightarrow> sealed option" where
  "sealed_secrets t k = map_option sealed_of (find_secret (fst k) (snd k) t)"

definition put_secret :: "nat \<Rightarrow> int \<times> string \<Rightarrow> sealed \<Rightarrow> tables \<Rightarrow> tables option" where
  "put_secret now k c t =
     (case c of (pk, pub, nc, tg, d) \<Rightarrow>
        if length pk < 2 ^ 31 then insert_secret True now (fst k) (Some (snd k)) pk pub nc tg d t
        else None)"

definition remove_secret :: "int \<times> string \<Rightarrow> tables \<Rightarrow> tables" where
  "remove_secret k t = delete_secret (fst k) (snd k) t"

interpretation secret_table: keyed_table sealed_secrets "put_secret now" remove_secret wf_tables for now
proof unfold_locales
  fix t k c t'
  assume wf: "wf_tables t"
  then have u: "t_unique_names t \<or> t_idx_name t" by (simp add: wf_tables_def secrets_ok_def)
  show "sealed_secrets t k \<noteq> None \<Longrightarrow> put_secret now k c t = None"
    using u by (auto simp: sealed_secrets_def put_secret_def insert_secret_def name_taken_def
        dest!: find_secret_Some split: prod.split)
  show "sealed_secrets t' = (sealed_secrets t)(k \<mapsto> c)" if "put_secret now k c t = Some t'"
    using that u by (auto simp: put_secret_def sealed_secrets_def sealed_of_def find_secret_insert
        fun_eq_iff split: prod.splits if_splits)
  show "wf_tables t'" if "put_secret now k c t = Some t'"
    using that wf by (auto simp: put_secret_def intro: insert_secret_wf split: prod.splits if_splits)
  show "sealed_secrets (remove_secret k t) = (sealed_secrets t)(k := None)"
    by (auto simp: sealed_secrets_def remove_secret_def find_secret_delete fun_eq_iff)
  show "wf_tables (remove_secret k t)"
    using wf by (simp add: remove_secret_def delete_secret_wf)
qed

end
