(* ===== verification/Kek.thy ===== *)
theory Kek
  imports Key_Cache Kek_Table Secrets_Table
begin

section \<open>Key-encryption keys (\<open>src/kek/kek.cc\<close>)\<close>

text \<open>
  Derivation of the wrapping key, generation and unwrapping of a KEK, and \<open>kek_rotate\<close>, which gives a
  user a new KEK and seals every secret again under it. The time functions of the same file are in
  \<open>Time_Format\<close>. Pointers that may be null are options; a KEK is read into a zero-filled buffer of 32
  bytes, of which the cipher always takes the first 32.
\<close>

definition KEK_SALT_LEN :: nat where
  "KEK_SALT_LEN = 16"

definition kek_derive_wrapping_key ::
  "provider \<Rightarrow> bytes option \<Rightarrow> bytes option \<Rightarrow> nat \<Rightarrow> bytes option" where
  "kek_derive_wrapping_key cr auth_hash salt wrapping_key_len =
     (case (auth_hash, salt) of
        (Some a, Some s) \<Rightarrow>
          (if length a = 0 \<or> length s < KEK_SALT_LEN then None
           else if wrapping_key_len \<noteq> KEK_KEY_LEN then None
           else pv_pwhash cr a (take crypto_pwhash_SALTBYTES s))
      | _ \<Rightarrow> None)"

text \<open>
  On failure the callers ignore what was written so far; on success the answer is the wrapped key, the
  salt and the expiry stamp. The two buffers are one allocation each.
\<close>

definition kek_generate ::
  "provider \<Rightarrow> bytes option \<Rightarrow> nat \<Rightarrow> nat \<Rightarrow> machine \<Rightarrow> (bytes \<times> bytes \<times> string) option \<times> machine" where
  "kek_generate cr auth_hash salt_len expires_at_size m =
     (if auth_hash = None \<or> salt_len < KEK_SALT_LEN then (None, m)
      else (let (ok, m1) = secure_buffers [KEK_KEY_LEN, KEK_KEY_LEN] m
            in if \<not> ok then (None, m1)
               else (let (kek, m2) = random_bytes KEK_KEY_LEN m1;
                         (salt, m3) = random_bytes KEK_SALT_LEN m2
                     in (do {
                           wk \<leftarrow> kek_derive_wrapping_key cr auth_hash (Some salt) KEK_KEY_LEN;
                           wrapped \<leftarrow> aes_kw_wrap cr (Some kek) (Some wk);
                           expires \<leftarrow> kek_expires_at (m_now m3) KEK_DEFAULT_DAYS expires_at_size;
                           Some (wrapped, salt, expires)
                         }, m3))))"

definition kek_unwrap ::
  "provider \<Rightarrow> bytes option \<Rightarrow> bytes option \<Rightarrow> bytes option \<Rightarrow> machine \<Rightarrow> bytes option \<times> machine" where
  "kek_unwrap cr wrapped_kek auth_hash salt m =
     (case (wrapped_kek, auth_hash, salt) of
        (Some w, Some a, Some s) \<Rightarrow>
          (if length s < KEK_SALT_LEN then (None, m)
           else (let (ok, m1) = secure_buffers [KEK_KEY_LEN] m
                 in if \<not> ok then (None, m1)
                    else (do {
                            wk \<leftarrow> kek_derive_wrapping_key cr auth_hash salt KEK_KEY_LEN;
                            aes_kw_unwrap cr wrapped_kek (Some wk)
                          }, m1)))
      | _ \<Rightarrow> (None, m))"

text \<open>What a zero-filled key buffer holds after the unwrapped key was written to it.\<close>

definition load_key :: "bytes \<Rightarrow> bytes" where
  "load_key k = k @ drop (length k) (replicate KEK_KEY_LEN 0)"

subsection \<open>\<open>kek_rotate\<close>\<close>

text \<open>
  The step of the prepared \<open>UPDATE secrets\<close>. A private key that could not be bound would be NULL, which
  the column refuses.
\<close>

definition step_update_secret ::
  "nat \<Rightarrow> sqlite \<Rightarrow> int \<Rightarrow> bytes option option \<Rightarrow> bytes option \<Rightarrow> bytes \<Rightarrow> bytes \<Rightarrow> bool \<times> sqlite" where
  "step_update_secret now db i private_key public_key nonce tag =
     (let (ok, db1) = sql_write db
      in case private_key of
           Some (Some pk) \<Rightarrow>
             (if ok then (True, db1\<lparr>db_tabs := update_secret now i pk public_key nonce tag (db_tabs db1)\<rparr>)
              else (False, db1))
         | _ \<Rightarrow> (False, db1))"

text \<open>
  The body of the loop and the loop; the state is the connection, the machine and the two work buffers
  that all iterations share.
\<close>

definition reencrypt_one ::
  "provider \<Rightarrow> bytes \<Rightarrow> bytes \<Rightarrow> nat \<Rightarrow> secret_row
   \<Rightarrow> sqlite \<times> machine \<times> bytes option \<times> bytes option
   \<Rightarrow> bool \<times> sqlite \<times> machine \<times> bytes option \<times> bytes option" where
  "reencrypt_one cr old_kek new_kek max_priv_len s st =
     (case st of (db, m, plain_priv, new_priv) \<Rightarrow>
        (if length (sr_private_key s) > max_priv_len then (False, st)
         else (case aes_gcm_decrypt cr (vec_data (sr_private_key s)) (length (sr_private_key s))
                      (Some old_kek) (vec_data (sr_nonce s)) None (vec_data (sr_tag s)) plain_priv of
                 None \<Rightarrow> (False, st)
               | Some plain \<Rightarrow>
                   (let (nonce, m1) = random_bytes AES_GCM_NONCE_LEN m
                    in case aes_gcm_encrypt cr (Some plain) (length (sr_private_key s)) (Some new_kek)
                              (Some nonce) None new_priv AES_GCM_TAG_LEN of
                         None \<Rightarrow> (False, db, m1, Some plain, new_priv)
                       | Some (sealed, tag) \<Rightarrow>
                           (let (ok, db1) = step_update_secret (m_now m1) db (sr_id s)
                                  (bind_blob (Some sealed) (length (sr_private_key s)))
                                  (if sr_public_key s = [] then None else Some (sr_public_key s))
                                  nonce tag
                            in (ok, db1, m1, Some plain, Some sealed))))))"

fun reencrypt_all ::
  "provider \<Rightarrow> bytes \<Rightarrow> bytes \<Rightarrow> nat \<Rightarrow> secret_row list
   \<Rightarrow> sqlite \<times> machine \<times> bytes option \<times> bytes option \<Rightarrow> bool \<times> sqlite \<times> machine" where
  "reencrypt_all cr old_kek new_kek max_priv_len [] st = (True, fst st, fst (snd st))"
| "reencrypt_all cr old_kek new_kek max_priv_len (s # ss) st =
     (let (ok, st1) = reencrypt_one cr old_kek new_kek max_priv_len s st
      in if ok then reencrypt_all cr old_kek new_kek max_priv_len ss st1
         else (False, fst st1, fst (snd st1)))"

definition max_private_len :: "secret_row list \<Rightarrow> nat" where
  "max_private_len rows =
     foldl (\<lambda>n s. if length (sr_private_key s) > n then length (sr_private_key s) else n) 0 rows"

text \<open>The part from the fresh key on, once the old KEK and the rows are loaded.\<close>

definition rotate_secrets ::
  "provider \<Rightarrow> int \<Rightarrow> bytes option \<Rightarrow> kek_row \<Rightarrow> bytes \<Rightarrow> secret_row list \<Rightarrow> sqlite \<Rightarrow> machine
   \<Rightarrow> bool \<times> sqlite \<times> machine" where
  "rotate_secrets cr user_id auth_hash old_row old_kek rows db m =
     (let (new_kek, m1) = random_bytes KEK_KEY_LEN m;
          (new_salt, m2) = random_bytes KEK_SALT_LEN m1
      in case do {
             wk \<leftarrow> kek_derive_wrapping_key cr auth_hash (Some new_salt) KEK_KEY_LEN;
             wrapped \<leftarrow> aes_kw_wrap cr (Some new_kek) (Some wk);
             expires \<leftarrow> kek_expires_at (m_now m2) KEK_DEFAULT_DAYS 24;
             Some (wrapped, expires)
           } of
           None \<Rightarrow> (False, db, m2)
         | Some (wrapped, expires) \<Rightarrow>
             (let n = max_private_len rows;
                  (plain_priv, m3) = secure_vector_new 1 n m2;
                  (new_priv, m4) = secure_vector_new 1 n m3;
                  (ok, db1) = sql_prepare db
              in if \<not> ok then (False, db1, m4)
                 else (let (ok', db2, m5) =
                             reencrypt_all cr old_kek new_kek n rows (db1, m4, plain_priv, new_priv)
                       in if \<not> ok' then (False, db2, m5)
                          else (let (ok'', db3) = kek_update db2 user_id (Some wrapped) (Some new_salt)
                                                    (Some expires) (kr_version old_row)
                                in (ok'', db3, m5)))))"

text \<open>The body of the \<open>do\<close> block after \<open>BEGIN\<close>.\<close>

definition rotate_body ::
  "provider \<Rightarrow> int \<Rightarrow> bytes option \<Rightarrow> sqlite \<Rightarrow> machine \<Rightarrow> bool \<times> sqlite \<times> machine" where
  "rotate_body cr user_id auth_hash db m =
     (case kek_find_by_user db user_id of
        (None, db1) \<Rightarrow> (False, db1, m)
      | (Some old_row, db1) \<Rightarrow>
          (case kek_unwrap cr (vec_data (kr_wrapped_kek old_row)) auth_hash
                  (vec_data (kr_salt old_row)) m of
             (None, m1) \<Rightarrow> (False, db1, m1)
           | (Some k, m1) \<Rightarrow>
               (case secrets_list_for_user db1 user_id of
                  (None, db2) \<Rightarrow> (False, db2, m1)
                | (Some rows, db2) \<Rightarrow>
                    rotate_secrets cr user_id auth_hash old_row (load_key k) rows db2 m1)))"

text \<open>The results of \<open>BEGIN\<close> and \<open>COMMIT\<close> are not looked at.\<close>

definition rotate_buffers :: "nat list" where
  "rotate_buffers = [KEK_KEY_LEN, KEK_KEY_LEN, KEK_KEY_LEN, KEK_SALT_LEN, 64, KEK_KEY_LEN]"

definition kek_rotate ::
  "provider \<Rightarrow> sqlite \<Rightarrow> int \<Rightarrow> bytes option \<Rightarrow> machine \<Rightarrow> bool \<times> sqlite \<times> machine" where
  "kek_rotate cr db user_id auth_hash m =
     (if db_null db \<or> auth_hash = None then (False, db, m)
      else (let (ok, m1) = secure_buffers rotate_buffers m
            in if \<not> ok then (False, db, m1)
               else (let (ok', db1, m2) = rotate_body cr user_id auth_hash (snd (exec_begin db)) m1
                     in (ok', if ok' then snd (exec_commit db1) else exec_rollback db1, m2))))"

subsection \<open>Opening what is stored\<close>

text \<open>
  The specification the operations are measured against: the KEK a row gives with a password hash, the
  plaintext a secret row gives with a KEK, and the plaintext the database holds for a user and a name.
\<close>

definition kek_open :: "provider \<Rightarrow> bytes \<Rightarrow> kek_rec \<Rightarrow> bytes option" where
  "kek_open cr hash r =
     do {
       wk \<leftarrow> kek_derive_wrapping_key cr (vec_data hash) (vec_data (k_salt r)) KEK_KEY_LEN;
       k \<leftarrow> aes_kw_unwrap cr (vec_data (k_wrapped_kek r)) (Some wk);
       Some (load_key k)
     }"

definition open_secret :: "provider \<Rightarrow> bytes \<Rightarrow> secret_rec \<Rightarrow> bytes option" where
  "open_secret cr kek r =
     (if s_private_key r = [] \<or> s_nonce r = [] \<or> s_tag r = [] \<or> length (s_tag r) > 64 then None
      else pv_gcm_open cr (take 32 kek) (s_nonce r) [] (s_private_key r) (s_tag r))"

definition stored_plaintext :: "provider \<Rightarrow> tables \<Rightarrow> bytes \<Rightarrow> int \<Rightarrow> string \<Rightarrow> bytes option" where
  "stored_plaintext cr t hash user_id name =
     do {
       k \<leftarrow> find_kek user_id t;
       kek \<leftarrow> kek_open cr hash k;
       r \<leftarrow> find_secret user_id name t;
       open_secret cr kek r
     }"

lemma bind_Some_conv: "Option.bind x f = Some y \<longleftrightarrow> (\<exists>z. x = Some z \<and> f z = Some y)"
  by (cases x) auto

lemma vec_data_Some [simp]: "vec_data xs = Some ys \<longleftrightarrow> xs = ys \<and> ys \<noteq> []"
  by (auto simp: vec_data_def)

lemma vec_data_None [simp]: "vec_data xs = None \<longleftrightarrow> xs = []" "None = vec_data xs \<longleftrightarrow> xs = []"
  by (auto simp: vec_data_def)

lemma load_key_32 [simp]: "length k = KEK_KEY_LEN \<Longrightarrow> load_key k = k"
  by (simp add: load_key_def)

lemma kek_derive_length:
  "lawful cr \<Longrightarrow> kek_derive_wrapping_key cr a s n = Some wk \<Longrightarrow> length wk = KEK_KEY_LEN"
  by (auto simp: kek_derive_wrapping_key_def KEK_KEY_LEN_def dest: lawful_pwhash
      split: option.splits if_splits)

lemma kek_unwrap_Some:
  assumes "kek_unwrap cr (vec_data (k_wrapped_kek r)) (vec_data h) (vec_data (k_salt r)) m = (Some k, m1)"
  shows "kek_open cr h r = Some (load_key k)"
  using assms by (auto simp: kek_unwrap_def kek_open_def bind_Some_conv Let_def
      split: option.splits if_splits prod.splits)

lemma kek_unwrap_machine:
  "m_now (snd (kek_unwrap cr w a s m)) = m_now m" "m_rand (snd (kek_unwrap cr w a s m)) = m_rand m"
  using secure_buffers_frame [of "[KEK_KEY_LEN]" m]
  by (auto simp: kek_unwrap_def Let_def split_beta split: option.splits)

text \<open>Both ciphers on blobs that fit an \<open>int\<close>.\<close>

lemma decrypt_row:
  assumes "length (s_private_key r) < 2 ^ 31"
  shows "aes_gcm_decrypt cr (vec_data (s_private_key r)) (length (s_private_key r)) (Some kek)
      (vec_data (s_nonce r)) None (vec_data (s_tag r)) out
    = (case out of None \<Rightarrow> None
       | Some buf \<Rightarrow> map_option (\<lambda>p. p @ drop (length p) buf) (open_secret cr kek r))"
  using assms
  by (auto simp: aes_gcm_decrypt_def open_secret_def vec_data_def c_int_exact split: option.splits)

lemma encrypt_exact:
  assumes "n < 2 ^ 31" and "n \<le> length plain"
  shows "aes_gcm_encrypt cr (Some plain) n (Some kek) (Some nonce) None (Some out) AES_GCM_TAG_LEN
    = (case pv_gcm_seal cr (take 32 kek) nonce [] (take n plain) of None \<Rightarrow> None
       | Some (c, t) \<Rightarrow> Some (c @ drop (length c) out, take 16 t))"
  using assms by (simp add: aes_gcm_encrypt_def c_int_exact AES_GCM_TAG_LEN_def split: option.splits)

lemma encrypt_null [simp]: "aes_gcm_encrypt cr p n k nonce aad None l = None"
  by (simp add: aes_gcm_encrypt_def split: option.splits)

lemma open_sealed:
  assumes "lawful cr" and "pv_gcm_seal cr (take 32 kek) nonce [] p = Some (c, t)" and "p \<noteq> []"
    and "nonce \<noteq> []" and "s_private_key r = c" and "s_nonce r = nonce" and "s_tag r = t"
  shows "open_secret cr kek r = Some p"
  using lawful_seal [OF assms(1,2)] assms(3-7) by (auto simp: open_secret_def)

subsection \<open>The loop of \<open>kek_rotate\<close>\<close>

lemma step_update_frame:
  "same_conn db (snd (step_update_secret now db i pk pub nc tg))
   \<and> fl_row (snd (step_update_secret now db i pk pub nc tg)) = fl_row db"
  by (auto simp: step_update_secret_def Let_def dest!: sql_frameD split: prod.splits option.splits)

lemma step_update_tabs:
  "db_tabs (snd (step_update_secret now db i pk pub nc tg)) =
     (if fst (step_update_secret now db i pk pub nc tg)
      then update_secret now i (the (the pk)) pub nc tg (db_tabs db) else db_tabs db)"
  "fst (step_update_secret now db i pk pub nc tg) \<Longrightarrow> \<exists>b. pk = Some (Some b)"
  by (auto simp: step_update_secret_def Let_def dest!: sql_frameD split: prod.splits option.splits)

definition rotated :: "provider \<Rightarrow> bytes \<Rightarrow> bytes \<Rightarrow> secret_rec \<Rightarrow> secret_rec \<Rightarrow> bool" where
  "rotated cr old_kek new_kek r r' \<longleftrightarrow>
     (\<exists>p. open_secret cr old_kek r = Some p \<and> open_secret cr new_kek r' = Some p)
     \<and> sr_public_key (read_secret_row r') = sr_public_key (read_secret_row r)"

definition same_identity :: "secret_rec \<Rightarrow> secret_rec \<Rightarrow> bool" where
  "same_identity r r' \<longleftrightarrow> s_id r' = s_id r \<and> s_user_id r' = s_user_id r \<and> s_name r' = s_name r
     \<and> s_description r' = s_description r"

lemma reencrypt_one_ok:
  assumes run: "reencrypt_one cr old new n (read_secret_row r) (db, m, pp, np) = (True, db', m', pp', np')"
    and law: "lawful cr" and len: "length (s_private_key r) < 2 ^ 31"
  shows "\<exists>c pub nonce t. db_tabs db' = update_secret (m_now m) (s_id r) c pub nonce t (db_tabs db)
    \<and> length c < 2 ^ 31 \<and> rotated cr old new r (reencrypt_row (m_now m) c pub nonce t r)"
proof -
  let ?n = "length (s_private_key r)"
  let ?pub = "if sr_public_key (read_secret_row r) = [] then None else Some (sr_public_key (read_secret_row r))"
  obtain nonce m1 where rnd: "random_bytes AES_GCM_NONCE_LEN m = (nonce, m1)" by fastforce
  have m1: "m_now m1 = m_now m" "length nonce = AES_GCM_NONCE_LEN"
    using random_bytes_frame [of AES_GCM_NONCE_LEN m] length_random_bytes [of AES_GCM_NONCE_LEN m] rnd
    by simp_all
  have sel: "sr_private_key (read_secret_row r) = s_private_key r" "sr_nonce (read_secret_row r) = s_nonce r"
    "sr_tag (read_secret_row r) = s_tag r" "sr_id (read_secret_row r) = s_id r"
    by (simp_all add: read_secret_row_def)
  note body = run [unfolded reencrypt_one_def prod.case sel rnd Let_def decrypt_row [OF len]]
  obtain buf p where pp: "pp = Some buf" and p: "open_secret cr old r = Some p"
    using body by (cases pp; cases "open_secret cr old r") (auto split: if_splits)
  have lp: "length p = ?n"
    using p by (auto simp: open_secret_def dest: lawful_open [OF law] split: if_splits)
  have ne: "p \<noteq> []" using p lp by (auto simp: open_secret_def split: if_splits)
  obtain out where np: "np = Some out"
    using body pp p by (cases np) (auto split: if_splits)
  obtain c t where seal: "pv_gcm_seal cr (take 32 new) nonce [] p = Some (c, t)"
    using body pp p np lp len by (cases "pv_gcm_seal cr (take 32 new) nonce [] p")
      (auto simp: encrypt_exact split: if_splits)
  have lc: "length c = ?n" "length t = 16" using lawful_seal [OF law seal] lp by simp_all
  let ?st = "step_update_secret (m_now m1) db (s_id r)
    (bind_blob (Some (c @ drop (length c) out)) ?n) ?pub nonce t"
  have st: "?st = (True, db')"
    using body pp p np lp len seal lc by (auto simp: encrypt_exact split: if_splits prod.splits)
  have "bind_blob (Some (c @ drop (length c) out)) ?n \<noteq> None"
    using step_update_tabs(2) [of "m_now m1" db "s_id r"] st by (metis fst_conv option.distinct(1))
  then have "bind_blob (Some (c @ drop (length c) out)) ?n = Some (Some c)"
    using len lc by (simp add: bind_blob_def c_int_exact split: if_splits)
  then have tabs: "db_tabs db' = update_secret (m_now m) (s_id r) c ?pub nonce t (db_tabs db)"
    using step_update_tabs(1) [of "m_now m1" db "s_id r"] st m1 by (metis fst_conv option.sel snd_conv)
  have "open_secret cr new (reencrypt_row (m_now m) c ?pub nonce t r) = Some p"
    by (rule open_sealed [OF law seal ne])
      (use m1 in \<open>auto simp: AES_GCM_NONCE_LEN_def reencrypt_row_def\<close>)
  then have "rotated cr old new r (reencrypt_row (m_now m) c ?pub nonce t r)"
    using p by (auto simp: rotated_def read_secret_row_def reencrypt_row_def split: option.splits)
  then show ?thesis using tabs len lc by metis
qed

text \<open>What every iteration, failed or not, leaves alone.\<close>

definition others_keep_keys :: "int \<Rightarrow> tables \<Rightarrow> tables \<Rightarrow> bool" where
  "others_keep_keys u t t' \<longleftrightarrow> map u_id (t_users t') = map u_id (t_users t)
     \<and> (\<forall>r' \<in> set (t_users t'). u_id r' \<noteq> u \<longrightarrow> r' \<in> set (t_users t))
     \<and> t_user_seq t' = t_user_seq t \<and> (\<forall>w. w \<noteq> u \<longrightarrow> find_kek w t' = find_kek w t)"

lemma others_keep_keys_refl [simp]: "others_keep_keys u t t"
  by (simp add: others_keep_keys_def)

lemma others_keep_keys_trans:
  "others_keep_keys u a b \<Longrightarrow> others_keep_keys u b c \<Longrightarrow> others_keep_keys u a c"
  by (simp add: others_keep_keys_def)

definition rotation_frame :: "int \<Rightarrow> sqlite \<Rightarrow> machine \<Rightarrow> sqlite \<Rightarrow> machine \<Rightarrow> bool" where
  "rotation_frame u db m db' m' \<longleftrightarrow> same_conn db db' \<and> fl_row db' = fl_row db
     \<and> others_keep_keys u (db_tabs db) (db_tabs db')
     \<and> (wf_tables (db_tabs db) \<longrightarrow> wf_tables (db_tabs db')) \<and> m_now m' = m_now m \<and> m_rand m' = m_rand m"

lemma rotation_frame_refl [simp]: "rotation_frame u db m db m"
  by (simp add: rotation_frame_def)

lemma rotation_frame_trans:
  "rotation_frame u a m b m1 \<Longrightarrow> rotation_frame u b m1 c m2 \<Longrightarrow> rotation_frame u a m c m2"
  unfolding rotation_frame_def using same_conn_trans others_keep_keys_trans by metis

lemma step_update_wf:
  assumes "wf_tables (db_tabs db)"
  shows "wf_tables (db_tabs (snd (step_update_secret now db i (bind_blob p n) pub nc tg)))"
proof (cases "fst (step_update_secret now db i (bind_blob p n) pub nc tg)")
  case True
  then obtain b where b: "bind_blob p n = Some (Some b)" using step_update_tabs(2) by blast
  then show ?thesis using True assms bind_blob_size [OF b]
    by (simp add: step_update_tabs update_secret_wf)
qed (use assms in \<open>simp add: step_update_tabs\<close>)

lemma reencrypt_one_frame:
  assumes "reencrypt_one cr old new n s (db, m, pp, np) = (ok, db', m', pp', np')"
  shows "rotation_frame u db m db' m'"
proof -
  have "rotation_frame u db m (snd (step_update_secret now db i (bind_blob p k) pub nc tg))
      (snd (random_bytes l m))" for now i p k pub nc tg l
    using step_update_frame step_update_wf
    by (simp add: rotation_frame_def frame_simps step_update_tabs others_keep_keys_def update_secret_def
        find_kek_def)
  moreover have "rotation_frame u db m db (snd (random_bytes l m))" for l
    by (simp add: rotation_frame_def frame_simps)
  ultimately show ?thesis
    using assms by (auto simp: reencrypt_one_def Let_def split_beta split: if_splits option.splits)
qed

lemma reencrypt_all_frame:
  "reencrypt_all cr old new n ss (db, m, pp, np) = (ok, db', m') \<Longrightarrow> rotation_frame u db m db' m'"
proof (induction ss arbitrary: db m pp np)
  case (Cons s ss)
  obtain ok1 db1 m1 pp1 np1
    where one: "reencrypt_one cr old new n s (db, m, pp, np) = (ok1, db1, m1, pp1, np1)"
    by (metis prod_cases5)
  note f1 = reencrypt_one_frame [OF one]
  show ?case
  proof (cases ok1)
    case True
    then show ?thesis using Cons one rotation_frame_trans [OF f1] by auto
  qed (use Cons.prems one f1 in auto)
qed simp

text \<open>
  A loop that runs to its end has sealed every secret of the list again under the new KEK and touched
  no other row.
\<close>

lemma reencrypt_all_ok:
  assumes "reencrypt_all cr old new n (map read_secret_row rs) (db, m, pp, np) = (True, db', m')"
    and law: "lawful cr" and "wf_tables (db_tabs db)" and "set rs \<subseteq> set (t_secrets (db_tabs db))"
    and "distinct (map s_id rs)"
  shows "\<exists>f. db_tabs db' = (db_tabs db)\<lparr>t_secrets := map f (t_secrets (db_tabs db))\<rparr>
    \<and> (\<forall>r. same_identity r (f r))
    \<and> (\<forall>r \<in> set (t_secrets (db_tabs db)).
          (r \<in> set rs \<longrightarrow> rotated cr old new r (f r)) \<and> (r \<notin> set rs \<longrightarrow> f r = r))"
  using assms
proof (induction rs arbitrary: db m pp np)
  case Nil
  then show ?case by (intro exI [of _ id]) (simp add: same_identity_def)
next
  case (Cons r rs)
  let ?t = "db_tabs db"
  obtain ok1 db1 m1 pp1 np1 where one: "reencrypt_one cr old new n (read_secret_row r) (db, m, pp, np)
      = (ok1, db1, m1, pp1, np1)" by (metis prod_cases5)
  have ok1: "ok1" and rest: "reencrypt_all cr old new n (map read_secret_row rs) (db1, m1, pp1, np1)
      = (True, db', m')" using Cons.prems(1) one by (auto split: if_splits)
  have rin: "r \<in> set (t_secrets ?t)" and dist: "distinct (map s_id (t_secrets ?t))"
    using Cons.prems by (auto simp: wf_tables_def secrets_ok_def)
  have "length (s_private_key r) < 2 ^ 31" using rin Cons.prems(3) by (auto simp: wf_tables_def sizes_ok_def)
  then obtain c pub nonce t where up: "db_tabs db1 = update_secret (m_now m) (s_id r) c pub nonce t ?t"
    and rot: "rotated cr old new r (reencrypt_row (m_now m) c pub nonce t r)"
    using reencrypt_one_ok [OF one [unfolded eqTrueI [OF ok1]] law] by blast
  define g where "g = (\<lambda>x. if s_id x = s_id r then reencrypt_row (m_now m) c pub nonce t x else x)"
  have t1: "db_tabs db1 = ?t\<lparr>t_secrets := map g (t_secrets ?t)\<rparr>"
    unfolding up update_secret_def g_def ..
  have gid: "same_identity x (g x)" for x
    by (simp add: g_def same_identity_def reencrypt_row_def)
  have uniq: "x = r" if "x \<in> set (t_secrets ?t)" "s_id x = s_id r" for x
    using distinct_map_same_key [OF dist that(1) rin that(2)] .
  have keep: "g x = x" if "x \<in> set rs" for x
    using that Cons.prems(5) by (auto simp: g_def) (metis imageI)
  have sub: "set rs \<subseteq> set (t_secrets (db_tabs db1))"
  proof
    fix x assume x: "x \<in> set rs"
    then have "x \<in> set (t_secrets ?t)" using Cons.prems(4) by auto
    then show "x \<in> set (t_secrets (db_tabs db1))" using keep [OF x] t1 by (force simp: image_iff)
  qed
  have wf1: "wf_tables (db_tabs db1)"
    using reencrypt_one_frame [OF one] Cons.prems(3) by (simp add: rotation_frame_def)
  obtain f where f: "db_tabs db' = (db_tabs db1)\<lparr>t_secrets := map f (t_secrets (db_tabs db1))\<rparr>"
    "\<forall>x. same_identity x (f x)"
    "\<forall>x \<in> set (t_secrets (db_tabs db1)).
        (x \<in> set rs \<longrightarrow> rotated cr old new x (f x)) \<and> (x \<notin> set rs \<longrightarrow> f x = x)"
    using Cons.IH [OF rest law wf1 sub] Cons.prems(5) by auto
  have member: "g x \<in> set (t_secrets (db_tabs db1))" if "x \<in> set (t_secrets ?t)" for x
    using that t1 by simp
  have "rotated cr old new r (f (g r))"
  proof -
    have "g r \<notin> set rs" using Cons.prems(5) gid [of r] by (force simp: same_identity_def image_iff)
    then have "f (g r) = g r" using f(3) member [OF rin] by blast
    then show ?thesis using rot by (simp add: g_def)
  qed
  moreover have "rotated cr old new x (f (g x))" if "x \<in> set rs" for x
    using that f(3) sub keep by auto
  moreover have "f (g x) = x" if "x \<in> set (t_secrets ?t)" "x \<notin> set (r # rs)" for x
  proof -
    have "g x = x" using that uniq [of x] by (auto simp: g_def)
    then show ?thesis using f(3) member [OF that(1)] that(2) by auto
  qed
  moreover have "same_identity x (f (g x))" for x
    using f(2) gid by (auto simp: same_identity_def)
  ultimately show ?case
    using f(1) t1 by (intro exI [of _ "\<lambda>x. f (g x)"]) auto
qed

subsection \<open>Rotation as a whole\<close>

lemma kek_update_wf:
  "kek_update db u w s e n = (ok, db') \<Longrightarrow> wf_tables (db_tabs db) \<Longrightarrow> wf_tables (db_tabs db')"
  using kek_update_cases(2) update_kek_wf by metis

lemma update_kek_keys: "others_keep_keys u t (update_kek u n w s e t)"
proof -
  have "find_kek v (update_kek u n w s e t) = find_kek v t" if "v \<noteq> u" for v
    using that by (simp add: find_kek_update option.map_ident)
  then show ?thesis by (simp add: others_keep_keys_def update_kek_def)
qed

lemma kek_update_keys:
  "kek_update db u w s e n = (ok, db') \<Longrightarrow> others_keep_keys u (db_tabs db) (db_tabs db')"
  using kek_update_cases(2) update_kek_keys others_keep_keys_refl by metis

lemma secure_vector_new_now:
  "secure_vector_new w n m = (v, m') \<Longrightarrow> m_now m' = m_now m \<and> m_rand m' = m_rand m"
  by (auto simp: secure_vector_new_def alloc_elements_def secure_alloc_def Let_def
      split: if_splits prod.splits)

lemma random_bytesD:
  "random_bytes n m = (b, m') \<Longrightarrow> length b = n \<and> m_now m' = m_now m \<and> m_rand m' = m_rand m"
  using length_random_bytes [of n m] random_bytes_frame [of n m] by simp

text \<open>A successful pass: what was there, and what each step produced.\<close>

lemma rotate_secrets_ok:
  assumes run: "rotate_secrets cr u (Some h) row old rows db m = (True, db', m')"
  shows "\<exists>new salt wk w e n m2 pp np db1 db2. length new = KEK_KEY_LEN \<and> length salt = KEK_SALT_LEN
    \<and> kek_derive_wrapping_key cr (Some h) (Some salt) KEK_KEY_LEN = Some wk
    \<and> aes_kw_wrap cr (Some new) (Some wk) = Some w
    \<and> kek_expires_at (m_now m) KEK_DEFAULT_DAYS 24 = Some e
    \<and> sql_prepare db = (True, db1)
    \<and> reencrypt_all cr old new n rows (db1, m2, pp, np) = (True, db2, m') \<and> m_now m2 = m_now m
    \<and> kek_update db2 u (Some w) (Some salt) (Some e) (kr_version row) = (True, db')"
proof -
  obtain new m1 where r1: "random_bytes KEK_KEY_LEN m = (new, m1)" by fastforce
  obtain salt m2 where r2: "random_bytes KEK_SALT_LEN m1 = (salt, m2)" by fastforce
  let ?n = "max_private_len rows"
  obtain pp m3 where v1: "secure_vector_new 1 ?n m2 = (pp :: bytes option, m3)" by fastforce
  obtain np m4 where v2: "secure_vector_new 1 ?n m3 = (np :: bytes option, m4)" by fastforce
  obtain ok1 db1 where p: "sql_prepare db = (ok1, db1)" by fastforce
  obtain ok2 db2 m5 where l: "reencrypt_all cr old new ?n rows (db1, m4, pp, np) = (ok2, db2, m5)"
    by (metis prod_cases3)
  note eqs = run [unfolded rotate_secrets_def Let_def r1 r2 prod.case v1 v2 p l]
  obtain wk w e where k: "kek_derive_wrapping_key cr (Some h) (Some salt) KEK_KEY_LEN = Some wk"
      "aes_kw_wrap cr (Some new) (Some wk) = Some w"
      "kek_expires_at (m_now m2) KEK_DEFAULT_DAYS 24 = Some e"
    using eqs by (auto simp: bind_Some_conv split: option.splits)
  have ok: "ok1" "ok2" using eqs k by (auto split: if_splits)
  then have "kek_update db2 u (Some w) (Some salt) (Some e) (kr_version row) = (True, db')" "m5 = m'"
    using eqs k by (auto split: prod.splits)
  then show ?thesis
    using k p l ok random_bytesD [OF r1] random_bytesD [OF r2] secure_vector_new_now [OF v1]
      secure_vector_new_now [OF v2] by metis
qed

lemma rotate_secrets_frame:
  assumes run: "rotate_secrets cr u h row old rows db m = (ok, db', m')"
  shows "rotation_frame u db m db' m'"
proof -
  obtain new m1 where r1: "random_bytes KEK_KEY_LEN m = (new, m1)" by fastforce
  obtain salt m2 where r2: "random_bytes KEK_SALT_LEN m1 = (salt, m2)" by fastforce
  let ?n = "max_private_len rows"
  obtain pp m3 where v1: "secure_vector_new 1 ?n m2 = (pp :: bytes option, m3)" by fastforce
  obtain np m4 where v2: "secure_vector_new 1 ?n m3 = (np :: bytes option, m4)" by fastforce
  obtain ok1 db1 where p: "sql_prepare db = (ok1, db1)" by fastforce
  obtain ok2 db2 m5 where l: "reencrypt_all cr old new ?n rows (db1, m4, pp, np) = (ok2, db2, m5)"
    by (metis prod_cases3)
  note eqs = run [unfolded rotate_secrets_def Let_def r1 r2 prod.case v1 v2 p l]
  have m: "m_now m2 = m_now m" "m_now m4 = m_now m" "m_rand m2 = m_rand m" "m_rand m4 = m_rand m"
    using random_bytesD [OF r1] random_bytesD [OF r2] secure_vector_new_now [OF v1]
      secure_vector_new_now [OF v2] by simp_all
  have f1: "rotation_frame u db m db m2" "rotation_frame u db m db1 m4"
    using m sql_frameD(2) [OF p] by (simp_all add: rotation_frame_def)
  have f2: "rotation_frame u db m db2 m5"
    by (rule rotation_frame_trans [OF f1(2) reencrypt_all_frame [OF l]])
  have f3: "rotation_frame u db m db3 m5"
    if "kek_update db2 u w s e (kr_version row) = (ok3, db3)" for w s e ok3 db3
    by (rule rotation_frame_trans [OF f2])
      (use kek_update_cases(1) [OF that] kek_update_wf [OF that] kek_update_keys [OF that]
        in \<open>simp add: rotation_frame_def\<close>)
  show ?thesis
    using eqs f1 f2 f3 by (auto split: option.splits if_splits prod.splits)
qed

lemma rotate_body_frame:
  assumes "rotate_body cr u h db m = (ok, db', m')"
  shows "same_conn db db' \<and> (wf_tables (db_tabs db) \<longrightarrow> wf_tables (db_tabs db'))
    \<and> others_keep_keys u (db_tabs db) (db_tabs db') \<and> m_now m' = m_now m \<and> m_rand m' = m_rand m"
proof -
  obtain kr db1 where k: "kek_find_by_user db u = (kr, db1)" by fastforce
  have d1: "same_conn db db1" "db_tabs db1 = db_tabs db" using kek_find_frame [of db u] k by simp_all
  show ?thesis
  proof (cases kr)
    case None
    then show ?thesis using assms d1 k by (simp add: rotate_body_def)
  next
    case (Some row)
    obtain ku m1 where w: "kek_unwrap cr (vec_data (kr_wrapped_kek row)) h (vec_data (kr_salt row)) m
        = (ku, m1)" by fastforce
    have m1: "m_now m1 = m_now m" "m_rand m1 = m_rand m" using kek_unwrap_machine w by (metis snd_conv)+
    obtain rows db2 where l: "secrets_list_for_user db1 u = (rows, db2)" by fastforce
    note d2 = secrets_list_cases(1,2) [OF l]
    have s2: "same_conn db db2" by (rule same_conn_trans [OF d1(1) d2(1)])
    note run = assms [unfolded rotate_body_def k Some prod.case option.case w l]
    consider "db' = db1" "m' = m1" | "db' = db2" "m' = m1"
      | k rs where "rotate_secrets cr u h row k rs db2 m1 = (ok, db', m')"
      using run by (cases ku; cases rows) simp_all
    then show ?thesis
    proof cases
      case 3
      from rotate_secrets_frame [OF this] show ?thesis
        using s2 d1(2) d2(2) m1 same_conn_trans by (auto simp: rotation_frame_def)
    qed (use s2 d1 d2(2) m1 in auto)
  qed
qed

lemma kek_rotate_run:
  assumes "kek_rotate cr db u h m = (ok, db', m')" and "steady db"
  shows "(\<not> ok \<and> db' = db \<and> m_now m' = m_now m \<and> m_rand m' = m_rand m)
    \<or> (\<exists>db1 m1. rotate_body cr u h (db\<lparr>fl_begin := tl (fl_begin db), db_snap := Some (db_tabs db)\<rparr>) m1
              = (ok, db1, m') \<and> m_now m1 = m_now m \<and> m_rand m1 = m_rand m
          \<and> db' = (if ok then db1\<lparr>fl_commit := tl (fl_commit db1), db_snap := None\<rparr>
                   else exec_rollback db1))"
proof (cases "db_null db \<or> h = None
    \<or> \<not> fst (secure_buffers rotate_buffers m)")
  case True
  then show ?thesis
    using assms secure_buffers_frame [of rotate_buffers m]
    by (auto simp: kek_rotate_def Let_def split_beta split: if_splits)
next
  case False
  let ?db0 = "db\<lparr>fl_begin := tl (fl_begin db), db_snap := Some (db_tabs db)\<rparr>"
  obtain m1 where b: "secure_buffers rotate_buffers m = (True, m1)" using False by (metis eq_fst_iff)
  have m1: "m_now m1 = m_now m" "m_rand m1 = m_rand m" using secure_buffers_frame [of rotate_buffers m] b by simp_all
  have bg: "exec_begin db = (True, ?db0)" using assms(2) by (intro exec_begin_ok) (auto simp: steady_def)
  obtain ok1 db1 m2 where r: "rotate_body cr u h ?db0 m1 = (ok1, db1, m2)" by (metis prod_cases3)
  have "db_snap db1 \<noteq> None" "True \<notin> set (fl_commit db1)"
    using rotate_body_frame [OF r] assms(2) by (auto simp: same_conn_def steady_def)
  then have c: "exec_commit db1 = (True, db1\<lparr>fl_commit := tl (fl_commit db1), db_snap := None\<rparr>)"
    by (rule exec_commit_ok)
  have "ok = ok1" "m' = m2" "db' = (if ok1 then db1\<lparr>fl_commit := tl (fl_commit db1), db_snap := None\<rparr>
      else exec_rollback db1)"
    using assms(1) [unfolded kek_rotate_def Let_def b prod.case bg snd_conv r c] False
    by (auto split: if_splits)
  then show ?thesis using r m1 by blast
qed

lemma kek_open_wrapped:
  assumes law: "lawful cr" and d: "kek_derive_wrapping_key cr (Some h) (Some salt) KEK_KEY_LEN = Some wk"
    and w: "aes_kw_wrap cr (Some new) (Some wk) = Some w" and n: "length new = KEK_KEY_LEN"
  shows "length w = 40"
    and "k_wrapped_kek r = w \<Longrightarrow> k_salt r = salt \<Longrightarrow> kek_open cr h r = Some new"
proof -
  have raw: "pv_kw_wrap cr wk new = Some w" using w by (auto simp: aes_kw_wrap_def split: if_splits)
  note l = lawful_wrap [OF law raw]
  have wk: "length wk = 32" using kek_derive_length [OF law d] by (simp add: KEK_KEY_LEN_def)
  show lw: "length w = 40" using l n by (simp add: KEK_KEY_LEN_def)
  have "h \<noteq> []" "salt \<noteq> []"
    using d by (auto simp: kek_derive_wrapping_key_def KEK_SALT_LEN_def split: if_splits)
  then have v: "vec_data h = Some h" "vec_data salt = Some salt" by simp_all
  have u: "aes_kw_unwrap cr (vec_data w) (Some wk) = Some new"
  proof -
    have "w \<noteq> []" using lw by auto
    then show ?thesis using l wk lw
      by (simp add: vec_data_def aes_kw_unwrap_def AES_256_KEY_LEN_def AES_KW_BLOCK_def)
  qed
  show "kek_open cr h r = Some new" if "k_wrapped_kek r = w" "k_salt r = salt"
    unfolding kek_open_def that v d using n u by simp
qed

text \<open>
  What a successful rotation did: a new KEK for the user, and the rows \<open>S\<close>, all of that user, sealed
  again under it. When no row fetch failed \<open>S\<close> is every row of the user.
\<close>

definition rotation_result ::
  "provider \<Rightarrow> nat \<Rightarrow> bytes \<Rightarrow> int \<Rightarrow> secret_rec set \<Rightarrow> tables \<Rightarrow> tables \<Rightarrow> bool" where
  "rotation_result cr now h u S t t' \<longleftrightarrow>
     (\<exists>kr old new salt w e f. find_kek u t = Some kr \<and> kek_open cr h kr = Some old
        \<and> kek_open cr h (kr\<lparr>k_wrapped_kek := w, k_salt := salt, k_expires_at := e,
                           k_version := k_version kr + 1\<rparr>) = Some new
        \<and> kek_expires_at now KEK_DEFAULT_DAYS 24 = Some e
        \<and> t' = update_kek u (k_version kr) w salt e (t\<lparr>t_secrets := map f (t_secrets t)\<rparr>)
        \<and> (\<forall>r. same_identity r (f r))
        \<and> (\<forall>r \<in> set (t_secrets t). (r \<in> S \<longrightarrow> rotated cr old new r (f r)) \<and> (r \<notin> S \<longrightarrow> f r = r)))"

definition rows_of :: "int \<Rightarrow> tables \<Rightarrow> secret_rec set" where
  "rows_of u t = {r \<in> set (t_secrets t). s_user_id r = u}"

lemma rotate_body_ok:
  assumes run: "rotate_body cr u (vec_data h) db m = (True, db', m')"
    and law: "lawful cr" and wf: "wf_tables (db_tabs db)"
  shows "\<exists>S \<subseteq> rows_of u (db_tabs db). rotation_result cr (m_now m) h u S (db_tabs db) (db_tabs db')
    \<and> (fl_row db = [] \<longrightarrow> S = rows_of u (db_tabs db))"
proof -
  let ?t = "db_tabs db"
  obtain kro db1 where k0: "kek_find_by_user db u = (kro, db1)" by fastforce
  have d1: "db_tabs db1 = ?t" "fl_row db1 = fl_row db" using kek_find_frame [of db u] k0 by simp_all
  obtain row where kro: "kro = Some row" using run k0 by (cases kro) (simp_all add: rotate_body_def)
  obtain kr where kr: "find_kek u ?t = Some kr" "row = read_kek_row kr"
    using kek_find_Some [of db u row db1] k0 kro by blast
  obtain ku m1 where w0: "kek_unwrap cr (vec_data (kr_wrapped_kek row)) (vec_data h)
      (vec_data (kr_salt row)) m = (ku, m1)" by fastforce
  have m1: "m_now m1 = m_now m" using kek_unwrap_machine w0 by (metis snd_conv)
  note run1 = run [unfolded rotate_body_def k0 kro prod.case option.case w0]
  obtain k where k: "ku = Some k" using run1 by (cases ku) simp_all
  have old: "kek_open cr h kr = Some (load_key k)"
    by (rule kek_unwrap_Some [of cr kr h m k m1]) (use w0 k kr in \<open>simp add: read_kek_row_def\<close>)
  obtain ro db2 where l: "secrets_list_for_user db1 u = (ro, db2)" by fastforce
  have d2: "db_tabs db2 = ?t" using secrets_list_cases(2) [OF l] d1 by simp
  obtain rows where ro: "ro = Some rows" using run1 k l by (cases ro) simp_all
  obtain j where rows: "rows = map read_secret_row (take j (secrets_of_user u ?t))"
    and all: "fl_row db = [] \<longrightarrow> rows = map read_secret_row (secrets_of_user u ?t)"
    using secrets_list_cases(3,4) [OF l ro] d1 by auto
  define rs where "rs = (if fl_row db = [] then secrets_of_user u ?t else take j (secrets_of_user u ?t))"
  have rs: "rows = map read_secret_row rs" "set rs \<subseteq> rows_of u ?t"
    "fl_row db = [] \<longrightarrow> set rs = rows_of u ?t"
    using rows all secrets_of_user_set [of u ?t] set_take_subset [of j "secrets_of_user u ?t"]
    by (auto simp: rs_def rows_of_def)
  have dist: "distinct (map s_id rs)"
    using secrets_of_user_ids [of ?t u] wf by (simp add: rs_def wf_tables_def flip: take_map)
  have vh: "vec_data h = Some h"
    using old by (auto simp: kek_open_def kek_derive_wrapping_key_def bind_Some_conv vec_data_def
        split: if_splits)
  have "rotate_secrets cr u (vec_data h) row (load_key k) (map read_secret_row rs) db2 m1 = (True, db', m')"
    using run1 k l ro rs(1) by simp
  then have run2: "rotate_secrets cr u (Some h) row (load_key k) (map read_secret_row rs) db2 m1
      = (True, db', m')" unfolding vh .
  obtain new salt wk w e n m2 pp np db3 db4 where
    ln: "length new = KEK_KEY_LEN" "length salt = KEK_SALT_LEN"
    and dk: "kek_derive_wrapping_key cr (Some h) (Some salt) KEK_KEY_LEN = Some wk"
    and wr: "aes_kw_wrap cr (Some new) (Some wk) = Some w"
    and ex: "kek_expires_at (m_now m1) KEK_DEFAULT_DAYS 24 = Some e"
    and pr: "sql_prepare db2 = (True, db3)"
    and lp: "reencrypt_all cr (load_key k) new n (map read_secret_row rs) (db3, m2, pp, np)
        = (True, db4, m')"
    and up: "kek_update db4 u (Some w) (Some salt) (Some e) (kr_version row) = (True, db')"
    using rotate_secrets_ok [OF run2] by blast
  have d3: "db_tabs db3 = ?t" using sql_frameD(2) [OF pr] d2 by simp
  have sub: "set rs \<subseteq> set (t_secrets ?t)" using rs(2) by (auto simp: rows_of_def)
  obtain f where f: "db_tabs db4 = ?t\<lparr>t_secrets := map f (t_secrets ?t)\<rparr>" "\<forall>r. same_identity r (f r)"
    "\<forall>r \<in> set (t_secrets ?t). (r \<in> set rs \<longrightarrow> rotated cr (load_key k) new r (f r))
       \<and> (r \<notin> set rs \<longrightarrow> f r = r)"
    using reencrypt_all_ok [OF lp law, unfolded d3, OF wf sub dist] by auto
  have "db_tabs db' = update_kek u (k_version kr) w salt e (db_tabs db4)"
    using kek_update_cases(3) [OF up] kek_open_wrapped(1) [OF law dk wr ln(1)] ln kr
    by (simp add: KEK_SALT_LEN_def read_kek_row_def)
  then have "rotation_result cr (m_now m) h u (set rs) ?t (db_tabs db')"
    unfolding rotation_result_def
    using kr(1) old kek_open_wrapped(2) [OF law dk wr ln(1)] ex m1 f
    by (intro exI [of _ kr] exI [of _ "load_key k"] exI [of _ new] exI [of _ salt] exI [of _ w]
        exI [of _ e] exI [of _ f]) simp
  then show ?thesis using rs(2,3) by blast
qed

lemma find_secret_map:
  assumes "\<forall>r. same_identity r (f r)"
  shows "find_secret v n (t\<lparr>t_secrets := map f (t_secrets t)\<rparr>) = map_option f (find_secret v n t)"
  using assms by (simp add: find_secret_def find_map_same has_name_def same_identity_def)

lemma find_secret_update_kek [simp]: "find_secret v n (update_kek u k w s e t) = find_secret v n t"
  by (simp add: find_secret_def update_kek_def)

lemma rotation_result_plaintext:
  assumes "rotation_result cr now h u S t t'"
  shows "rows_of u t \<subseteq> S \<Longrightarrow> stored_plaintext cr t' h u n = stored_plaintext cr t h u n"
    and "S \<subseteq> rows_of u t \<Longrightarrow> v \<noteq> u \<Longrightarrow> stored_plaintext cr t' h' v n = stored_plaintext cr t h' v n"
proof -
  obtain kr old new salt w e f where r: "find_kek u t = Some kr" "kek_open cr h kr = Some old"
    "kek_open cr h (kr\<lparr>k_wrapped_kek := w, k_salt := salt, k_expires_at := e,
                       k_version := k_version kr + 1\<rparr>) = Some new"
    "t' = update_kek u (k_version kr) w salt e (t\<lparr>t_secrets := map f (t_secrets t)\<rparr>)"
    and f: "\<forall>r. same_identity r (f r)" "\<forall>r \<in> set (t_secrets t).
       (r \<in> S \<longrightarrow> rotated cr old new r (f r)) \<and> (r \<notin> S \<longrightarrow> f r = r)"
    using assms unfolding rotation_result_def by blast
  have s: "find_secret v n t' = map_option f (find_secret v n t)" for v
    using r(4) find_secret_map [OF f(1)] by simp
  have k: "find_kek v t' = map_option (\<lambda>x. if v = u \<and> k_version x = k_version kr
      then x\<lparr>k_wrapped_kek := w, k_salt := salt, k_expires_at := e, k_version := k_version x + 1\<rparr>
      else x) (find_kek v t)" for v
    unfolding r(4) find_kek_update by (simp add: find_kek_def)
  show "stored_plaintext cr t' h u n = stored_plaintext cr t h u n" if "rows_of u t \<subseteq> S"
  proof (cases "find_secret u n t")
    case (Some x)
    then have "x \<in> set (t_secrets t)" "x \<in> S"
      using find_secret_Some [OF Some] that by (auto simp: rows_of_def)
    then have "rotated cr old new x (f x)" using f(2) by blast
    then show ?thesis using r Some s k by (auto simp: stored_plaintext_def rotated_def)
  qed (use r s k in \<open>simp add: stored_plaintext_def\<close>)
  show "stored_plaintext cr t' h' v n = stored_plaintext cr t h' v n" if "S \<subseteq> rows_of u t" "v \<noteq> u"
  proof (cases "find_secret v n t")
    case (Some x)
    then have "x \<in> set (t_secrets t)" "x \<notin> S"
      using find_secret_Some [OF Some] that by (auto simp: rows_of_def)
    then have "f x = x" using f(2) by blast
    then show ?thesis using Some s k that by (simp add: option.map_ident stored_plaintext_def)
  qed (use s k that in \<open>simp add: option.map_ident stored_plaintext_def\<close>)
qed

text \<open>What rotation leaves alone in every case.\<close>

lemma kek_rotate_frame:
  assumes "kek_rotate cr db u h m = (ok, db', m')" and s: "steady db" and wf: "wf_tables (db_tabs db)"
  shows "steady db' \<and> wf_tables (db_tabs db') \<and> others_keep_keys u (db_tabs db) (db_tabs db')
    \<and> m_now m' = m_now m \<and> m_rand m' = m_rand m"
  using kek_rotate_run [OF assms(1) s]
proof
  assume "\<exists>db1 m1. rotate_body cr u h (db\<lparr>fl_begin := tl (fl_begin db), db_snap := Some (db_tabs db)\<rparr>) m1
      = (ok, db1, m') \<and> m_now m1 = m_now m \<and> m_rand m1 = m_rand m
      \<and> db' = (if ok then db1\<lparr>fl_commit := tl (fl_commit db1), db_snap := None\<rparr> else exec_rollback db1)"
  then obtain db1 m1 where r: "rotate_body cr u h
      (db\<lparr>fl_begin := tl (fl_begin db), db_snap := Some (db_tabs db)\<rparr>) m1 = (ok, db1, m')"
    and m: "m_now m1 = m_now m" "m_rand m1 = m_rand m"
    and e: "db' = (if ok then db1\<lparr>fl_commit := tl (fl_commit db1), db_snap := None\<rparr>
      else exec_rollback db1)" by blast
  note fr = rotate_body_frame [OF r]
  have snap: "db_snap db1 = Some (db_tabs db)" using fr by (simp add: same_conn_def)
  have tls: "True \<notin> set (tl fs)" if "True \<notin> set fs" for fs :: "bool list"
    using that by (cases fs) auto
  have "steady db'"
    using fr s e snap tls by (auto simp: steady_def same_conn_def exec_rollback_def)
  then show ?thesis using fr e m wf snap by (auto simp: exec_rollback_def)
qed (use s wf in auto)

text \<open>The effect of a whole rotation, in both outcomes.\<close>

lemma kek_rotate_effect:
  assumes run: "kek_rotate cr db u (vec_data h) m = (True, db', m')" and law: "lawful cr"
    and s: "steady db" and wf: "wf_tables (db_tabs db)"
  shows "\<exists>S \<subseteq> rows_of u (db_tabs db). rotation_result cr (m_now m) h u S (db_tabs db) (db_tabs db')
    \<and> (fl_row db = [] \<longrightarrow> S = rows_of u (db_tabs db))"
proof -
  obtain db1 m1 where r: "rotate_body cr u (vec_data h)
      (db\<lparr>fl_begin := tl (fl_begin db), db_snap := Some (db_tabs db)\<rparr>) m1 = (True, db1, m')"
    and m: "m_now m1 = m_now m"
    and e: "db' = db1\<lparr>fl_commit := tl (fl_commit db1), db_snap := None\<rparr>"
    using kek_rotate_run [OF run s] by auto
  show ?thesis using rotate_body_ok [OF r law] wf e m by simp
qed

text \<open>
  C5. Rotating a user's KEK loses nothing where \<open>BEGIN\<close>, \<open>COMMIT\<close> and every row fetch work: when it reports
  success then, every name of that user still opens to the same private key under the same password hash,
  every other user's secrets open exactly as before whatever the hash, the KEK's version went up by one and
  its expiry moved to 90 days from now, and no transaction is left open. (With a row fetch that fails, the
  rest of the secrets is silently left on the old key.)
\<close>

theorem rotate_preserves_plaintexts:
  assumes "kek_rotate cr db u (vec_data h) m = (True, db', m')" and "lawful cr" and "steady db"
    and "wf_tables (db_tabs db)" and "fl_row db = []"
  shows "(\<forall>n. stored_plaintext cr (db_tabs db') h u n = stored_plaintext cr (db_tabs db) h u n)
    \<and> (\<forall>v n h'. v \<noteq> u \<longrightarrow>
          stored_plaintext cr (db_tabs db') h' v n = stored_plaintext cr (db_tabs db) h' v n)
    \<and> (\<exists>k k'. find_kek u (db_tabs db) = Some k \<and> find_kek u (db_tabs db') = Some k'
          \<and> k_version k' = k_version k + 1
          \<and> kek_expires_at (m_now m) KEK_DEFAULT_DAYS 24 = Some (k_expires_at k'))
    \<and> steady db'"
proof -
  have res: "rotation_result cr (m_now m) h u (rows_of u (db_tabs db)) (db_tabs db) (db_tabs db')"
    using kek_rotate_effect [OF assms(1-4)] assms(5) by blast
  have "\<exists>k k'. find_kek u (db_tabs db) = Some k \<and> find_kek u (db_tabs db') = Some k'
      \<and> k_version k' = k_version k + 1
      \<and> kek_expires_at (m_now m) KEK_DEFAULT_DAYS 24 = Some (k_expires_at k')"
    using res find_kek_update [of u u] unfolding rotation_result_def by (auto simp: find_kek_def)
  moreover have "steady db'" using kek_rotate_frame [OF assms(1,3,4)] by blast
  ultimately show ?thesis
    using rotation_result_plaintext(1) [OF res] rotation_result_plaintext(2) [OF res] by blast
qed

lemma kek_rotate_failed:
  assumes "kek_rotate cr db u h m = (False, db', m')" and "steady db"
  shows "db_tabs db' = db_tabs db \<and> steady db'"
  using kek_rotate_run [OF assms]
proof
  assume "\<exists>db1 m1. rotate_body cr u h (db\<lparr>fl_begin := tl (fl_begin db), db_snap := Some (db_tabs db)\<rparr>) m1
      = (False, db1, m') \<and> m_now m1 = m_now m \<and> m_rand m1 = m_rand m
      \<and> db' = (if False then db1\<lparr>fl_commit := tl (fl_commit db1), db_snap := None\<rparr>
               else exec_rollback db1)"
  then obtain db1 m1 where r: "rotate_body cr u h
      (db\<lparr>fl_begin := tl (fl_begin db), db_snap := Some (db_tabs db)\<rparr>) m1 = (False, db1, m')"
    and e: "db' = exec_rollback db1" by auto
  have s: "same_conn (db\<lparr>fl_begin := tl (fl_begin db), db_snap := Some (db_tabs db)\<rparr>) db1"
    using rotate_body_frame [OF r] by blast
  then have "db_snap db1 = Some (db_tabs db)" by (simp add: same_conn_def)
  then show ?thesis using e s assms(2)
    by (auto simp: exec_rollback_def steady_def same_conn_def) (metis list.set_sel(2) tl_Nil)
qed (use assms(2) in simp)

text \<open>
  C21. Where \<open>BEGIN\<close> and \<open>COMMIT\<close> work, a rotation that reports failure has changed nothing: whichever
  statement, row fetch, allocation or call of the cipher failed, every table is as it was before the call
  and no transaction is left open. (The code does not look at the result of \<open>BEGIN\<close>; without a transaction
  there is nothing to roll back.)
\<close>

theorem rotate_failure_changes_nothing:
  assumes "kek_rotate cr db u h m = (False, db', m')" and "steady db"
  shows "db_tabs db' = db_tabs db \<and> steady db'"
  by (rule kek_rotate_failed [OF assms])

end
