(* ===== verification/Users_Table.thy ===== *)
theory Users_Table
  imports Database
begin

section \<open>The table \<open>users\<close> (\<open>src/db/users.cc\<close>)\<close>

text \<open>
  \<open>users_create\<close>, \<open>users_find_by_username\<close> and \<open>users_delete\<close>, with the cascade of the foreign
  keys. A statement fails as a whole: preparing, binding and stepping are one tested call.
\<close>

record user_row =
  ur_id :: int
  ur_password_hash :: bytes

definition insert_user :: "nat \<Rightarrow> string \<Rightarrow> bytes \<Rightarrow> tables \<Rightarrow> (tables \<times> int) option" where
  "insert_user now username hash t =
     (if \<exists>r \<in> set (t_users t). u_username r = username then None
      else (case next_rowid (t_user_seq t) of
              None \<Rightarrow> None
            | Some i \<Rightarrow>
                Some (t\<lparr>t_users := t_users t @ [\<lparr>u_id = i, u_username = username,
                          u_password_hash = hash, u_created_at = iso_time now\<rparr>],
                        t_user_seq := i\<rparr>, i)))"

definition users_create :: "nat \<Rightarrow> sqlite \<Rightarrow> string \<Rightarrow> bytes \<Rightarrow> int option \<times> sqlite" where
  "users_create now db username password_hash =
     (if db_null db then (None, db)
      else (let (ok, db1) = sql_write db
            in if \<not> ok then (None, db1)
               else (case bind_blob (Some password_hash) (length password_hash) of
                       Some (Some blob) \<Rightarrow>
                         (case insert_user now username blob (db_tabs db1) of
                            None \<Rightarrow> (None, db1)
                          | Some (t, i) \<Rightarrow> (Some i, db1\<lparr>db_tabs := t\<rparr>))
                     | _ \<Rightarrow> (None, db1))))"

definition find_user :: "string \<Rightarrow> tables \<Rightarrow> user_rec option" where
  "find_user username t = find (\<lambda>r. u_username r = username) (t_users t)"

definition users_find_by_username :: "sqlite \<Rightarrow> string \<Rightarrow> user_row option \<times> sqlite" where
  "users_find_by_username db username =
     (if db_null db then (None, db)
      else (let (ok, db1) = sql_prepare db
            in if \<not> ok then (None, db1)
               else (map_option (\<lambda>r. \<lparr>ur_id = u_id r, ur_password_hash = u_password_hash r\<rparr>)
                       (find_user username (db_tabs db1)), db1)))"

text \<open>\<open>ON DELETE CASCADE\<close> acts only on a connection that has foreign keys switched on.\<close>

definition delete_user_row :: "bool \<Rightarrow> int \<Rightarrow> tables \<Rightarrow> tables" where
  "delete_user_row fk i t =
     (let t1 = t\<lparr>t_users := filter (\<lambda>r. u_id r \<noteq> i) (t_users t)\<rparr>
      in if fk \<and> (\<exists>r \<in> set (t_users t). u_id r = i)
         then t1\<lparr>t_keks := filter (\<lambda>r. k_user_id r \<noteq> i) (t_keks t1),
                 t_secrets := filter (\<lambda>r. s_user_id r \<noteq> i) (t_secrets t1)\<rparr>
         else t1)"

definition users_delete :: "sqlite \<Rightarrow> int \<Rightarrow> bool \<times> sqlite" where
  "users_delete db user_id =
     (if db_null db then (False, db)
      else (let (ok, db1) = sql_write db
            in if \<not> ok then (False, db1)
               else ((\<exists>r \<in> set (t_users (db_tabs db1)). u_id r = user_id),
                     db1\<lparr>db_tabs := delete_user_row (db_fk db1) user_id (db_tabs db1)\<rparr>)))"

text \<open>
  \<open>UPDATE users SET password_hash = ? WHERE id = ?\<close>, which \<open>ssm_user_change_password\<close> issues itself.
  The two binds are not tested.
\<close>

definition set_password_hash :: "int \<Rightarrow> bytes \<Rightarrow> tables \<Rightarrow> tables" where
  "set_password_hash i hash t =
     t\<lparr>t_users := map (\<lambda>r. if u_id r = i then r\<lparr>u_password_hash := hash\<rparr> else r) (t_users t)\<rparr>"

definition update_password_hash :: "sqlite \<Rightarrow> int \<Rightarrow> bytes \<Rightarrow> bool \<times> sqlite" where
  "update_password_hash db user_id hash =
     (let (ok, db1) = sql_write db
      in if ok then (True, db1\<lparr>db_tabs := set_password_hash user_id hash (db_tabs db1)\<rparr>)
         else (False, db1))"

subsection \<open>What the operations guarantee\<close>

lemma find_user_Some: "find_user n t = Some r \<Longrightarrow> r \<in> set (t_users t) \<and> u_username r = n"
  by (auto simp: find_user_def find_Some_iff)

lemma find_user_None: "find_user n t = None \<longleftrightarrow> (\<forall>r \<in> set (t_users t). u_username r \<noteq> n)"
  by (auto simp: find_user_def find_None_iff)

lemma find_user_unique:
  assumes "users_ok t" and "r \<in> set (t_users t)"
  shows "find_user (u_username r) t = Some r"
proof (cases "find_user (u_username r) t")
  case None
  then show ?thesis using assms(2) by (auto simp: find_user_None)
next
  case (Some r')
  then show ?thesis using find_user_Some [OF Some] assms
    by (auto simp: users_ok_def distinct_map dest: inj_onD)
qed

lemma same_id_same_user:
  "users_ok t \<Longrightarrow> r \<in> set (t_users t) \<Longrightarrow> r' \<in> set (t_users t) \<Longrightarrow> u_id r = u_id r' \<Longrightarrow> r = r'"
  by (auto simp: users_ok_def distinct_map dest: inj_onD)

lemma insert_user_eq:
  assumes "insert_user now u h t = Some (t', i)"
  shows "t' = t\<lparr>t_users := t_users t @ [\<lparr>u_id = i, u_username = u, u_password_hash = h,
                  u_created_at = iso_time now\<rparr>], t_user_seq := i\<rparr>"
    and "i = t_user_seq t + 1" and "find_user u t = None"
  using assms by (auto simp: insert_user_def find_user_None next_rowid_Some
      split: if_splits option.splits)

lemma find_user_insert:
  assumes "insert_user now u h t = Some (t', i)"
  shows "find_user n t' = (if n = u
           then Some \<lparr>u_id = i, u_username = u, u_password_hash = h, u_created_at = iso_time now\<rparr>
           else find_user n t)"
  using insert_user_eq [OF assms]
  by (auto simp: find_user_def find_append split: option.splits)

lemma insert_user_wf:
  assumes "insert_user now u h t = Some (t', i)" and "wf_tables t"
  shows "wf_tables t'"
proof -
  note eq = insert_user_eq [OF assms(1)]
  have "users_ok t'"
    using assms(2) eq by (auto simp: wf_tables_def users_ok_def find_user_None)
  moreover have "keks_ok t'" "secrets_ok t'" "sizes_ok t'" "audit_ok t'"
    using assms(2) eq(1) by (auto simp: wf_tables_def keks_ok_def secrets_ok_def sizes_ok_def audit_ok_def)
  ultimately show ?thesis by (simp add: wf_tables_def)
qed

lemma users_create_cases:
  assumes "users_create now db u h = (r, db')"
  shows "same_conn db db' \<and> fl_row db' = fl_row db"
    and "r = None \<Longrightarrow> db_tabs db' = db_tabs db"
    and "r = Some i \<Longrightarrow> length h < 2 ^ 31 \<Longrightarrow> insert_user now u h (db_tabs db) = Some (db_tabs db', i)"
  using assms
  by (auto dest!: sql_frameD simp: users_create_def Let_def split: prod.splits if_splits option.splits)

lemma users_create_wf:
  assumes "wf_tables (db_tabs db)"
  shows "wf_tables (db_tabs (snd (users_create now db u h)))"
  using assms
  by (auto dest!: sql_frameD simp: users_create_def Let_def insert_user_wf split: prod.splits option.splits)

lemma users_find_frame [simp]:
  "same_conn db (snd (users_find_by_username db u))"
  "db_tabs (snd (users_find_by_username db u)) = db_tabs db"
  "fl_row (snd (users_find_by_username db u)) = fl_row db"
  by (auto dest!: sql_frameD simp: users_find_by_username_def Let_def split: prod.splits)

lemma users_find_Some:
  assumes "users_find_by_username db u = (Some ur, db')"
  shows "\<exists>r. find_user u (db_tabs db) = Some r \<and> ur = \<lparr>ur_id = u_id r, ur_password_hash = u_password_hash r\<rparr>"
  using assms
  by (auto dest!: sql_frameD simp: users_find_by_username_def Let_def split: prod.splits if_splits)

lemma users_find_healthy:
  "healthy db \<Longrightarrow> users_find_by_username db u =
     (map_option (\<lambda>r. \<lparr>ur_id = u_id r, ur_password_hash = u_password_hash r\<rparr>)
        (find_user u (db_tabs db)), db)"
  by (simp add: users_find_by_username_def healthyD)

lemma delete_user_row_gone:
  "find_user n (delete_user_row fk i t) = Some r \<Longrightarrow> u_id r \<noteq> i"
  using find_user_Some by (fastforce simp: delete_user_row_def Let_def split: if_splits)

lemma delete_user_row_users:
  "t_users (delete_user_row fk i t) = filter (\<lambda>r. u_id r \<noteq> i) (t_users t)"
  by (simp add: delete_user_row_def Let_def)

lemma delete_user_row_wf:
  assumes "wf_tables t"
  shows "wf_tables (delete_user_row True i t)"
proof (cases "\<exists>r \<in> set (t_users t). u_id r = i")
  case True
  have "users_ok (delete_user_row True i t)" "audit_ok (delete_user_row True i t)"
    "sizes_ok (delete_user_row True i t)"
    using assms by (auto simp: wf_tables_def users_ok_def audit_ok_def sizes_ok_def delete_user_row_def Let_def
        distinct_map_filter)
  moreover have "keks_ok (delete_user_row True i t)"
    using assms True by (auto simp: wf_tables_def keks_ok_def delete_user_row_def Let_def
        distinct_map_filter)
  moreover have "secrets_ok (delete_user_row True i t)"
    using assms True
    by (auto simp: wf_tables_def secrets_ok_def delete_user_row_def Let_def distinct_map_filter
        distinct_map_filter_filter simp del: filter_filter)
  ultimately show ?thesis by (simp add: wf_tables_def)
next
  case False
  then have "filter (\<lambda>r. u_id r \<noteq> i) (t_users t) = t_users t" by (auto intro: filter_True)
  then show ?thesis using False assms by (auto simp: delete_user_row_def Let_def)
qed

lemma users_delete_cases:
  assumes "users_delete db i = (ok, db')"
  shows "same_conn db db' \<and> fl_row db' = fl_row db"
    and "db_tabs db' = db_tabs db \<or> db_tabs db' = delete_user_row (db_fk db) i (db_tabs db)"
    and "ok \<Longrightarrow> db_tabs db' = delete_user_row (db_fk db) i (db_tabs db)"
  using assms
  by (auto dest!: sql_frameD simp: same_conn_fk users_delete_def Let_def split: prod.splits if_splits)

lemma find_user_set_hash:
  "find_user n (set_password_hash i h t) =
     map_option (\<lambda>r. if u_id r = i then r\<lparr>u_password_hash := h\<rparr> else r) (find_user n t)"
  by (simp add: find_user_def set_password_hash_def find_map_same)

lemma set_password_hash_wf: "wf_tables t \<Longrightarrow> wf_tables (set_password_hash i h t)"
  by (erule wf_tables_same_keys) (auto simp: set_password_hash_def sizes_ok_def)

lemma update_password_hash_cases:
  assumes "update_password_hash db i h = (ok, db')"
  shows "same_conn db db' \<and> fl_row db' = fl_row db"
    and "db_tabs db' = (if ok then set_password_hash i h (db_tabs db) else db_tabs db)"
  using assms
  by (auto dest!: sql_frameD simp: update_password_hash_def Let_def split: prod.splits if_splits)

subsection \<open>The table as a map from names to password hashes\<close>

definition user_hashes :: "tables \<Rightarrow> string \<Rightarrow> bytes option" where
  "user_hashes t n = map_option u_password_hash (find_user n t)"

definition put_user :: "nat \<Rightarrow> string \<Rightarrow> bytes \<Rightarrow> tables \<Rightarrow> tables option" where
  "put_user now n h t = map_option fst (insert_user now n h t)"

definition remove_user :: "string \<Rightarrow> tables \<Rightarrow> tables" where
  "remove_user n t = (case find_user n t of None \<Rightarrow> t | Some r \<Rightarrow> delete_user_row True (u_id r) t)"

lemma find_user_delete:
  assumes "users_ok t" and r: "find_user n t = Some r"
  shows "find_user m (delete_user_row fk (u_id r) t) = (if m = n then None else find_user m t)"
proof -
  have "find_user m (delete_user_row fk (u_id r) t)
      = find (\<lambda>x. u_id x \<noteq> u_id r \<and> u_username x = m) (t_users t)"
    by (simp add: find_user_def delete_user_row_users find_filter)
  moreover have "u_id x = u_id r \<longleftrightarrow> u_username x = n" if "x \<in> set (t_users t)" for x
  proof
    show "u_username x = n" if "u_id x = u_id r"
      using same_id_same_user [OF assms(1) \<open>x \<in> set (t_users t)\<close> _ that] find_user_Some [OF r] by simp
    show "u_id x = u_id r" if "u_username x = n"
      using find_user_unique [OF assms(1) \<open>x \<in> set (t_users t)\<close>] r that by simp
  qed
  then have "find (\<lambda>x. u_id x \<noteq> u_id r \<and> u_username x = m) (t_users t)
      = find (\<lambda>x. u_username x \<noteq> n \<and> u_username x = m) (t_users t)"
    by (intro find_cong_set) auto
  ultimately show ?thesis by (auto simp: find_user_def find_None_iff intro!: find_cong_set)
qed

interpretation user_table: keyed_table user_hashes "put_user now" remove_user wf_tables for now
proof unfold_locales
  fix t n h t'
  assume wf: "wf_tables t"
  show "user_hashes t n \<noteq> None \<Longrightarrow> put_user now n h t = None"
    by (auto simp: user_hashes_def put_user_def insert_user_def dest!: find_user_Some)
  show "user_hashes t' = (user_hashes t)(n \<mapsto> h)" if "put_user now n h t = Some t'"
    using that by (auto simp: put_user_def user_hashes_def find_user_insert fun_eq_iff)
  show "wf_tables t'" if "put_user now n h t = Some t'"
    using that wf insert_user_wf by (auto simp: put_user_def)
  show "user_hashes (remove_user n t) = (user_hashes t)(n := None)"
    using wf by (auto simp: remove_user_def user_hashes_def find_user_delete wf_tables_def fun_eq_iff
        split: option.split)
  show "wf_tables (remove_user n t)"
    using wf by (simp add: remove_user_def delete_user_row_wf split: option.split)
qed

end
