(* ===== verification/Status.thy ===== *)
theory Status
  imports Prelude
begin

section \<open>Status codes (\<open>include/ssm/ssm.h\<close>)\<close>

text \<open>
  The enumeration \<open>ssm_status\<close> with its C values, \<open>ssm_status_to_string\<close> of \<open>src/ssm.cc\<close>, and the
  limits of the public header. The order on the type is the order of the C values.
\<close>

datatype ssm_status =
    SSM_OK | SSM_ERR_AUTH | SSM_ERR_NOT_FOUND | SSM_ERR_EXPIRED | SSM_ERR_INTEGRITY
  | SSM_ERR_INTERNAL

fun status_code :: "ssm_status \<Rightarrow> int" where
  "status_code SSM_OK = 0"
| "status_code SSM_ERR_AUTH = 1"
| "status_code SSM_ERR_NOT_FOUND = 2"
| "status_code SSM_ERR_EXPIRED = 3"
| "status_code SSM_ERR_INTEGRITY = 4"
| "status_code SSM_ERR_INTERNAL = 5"

text \<open>The function takes any value of the underlying \<open>int\<close>, as the C switch does.\<close>

definition ssm_status_to_string :: "int \<Rightarrow> string" where
  "ssm_status_to_string status =
     (if status = 0 then ''SSM_OK''
      else if status = 1 then ''SSM_ERR_AUTH''
      else if status = 2 then ''SSM_ERR_NOT_FOUND''
      else if status = 3 then ''SSM_ERR_EXPIRED''
      else if status = 4 then ''SSM_ERR_INTEGRITY''
      else if status = 5 then ''SSM_ERR_INTERNAL''
      else ''SSM_ERR_UNKNOWN'')"

abbreviation status_name :: "ssm_status \<Rightarrow> string" where
  "status_name st \<equiv> ssm_status_to_string (status_code st)"

lemma status_code_inject [simp]: "status_code a = status_code b \<longleftrightarrow> a = b"
  by (cases a; cases b) auto

lemma status_name_inject [simp]: "status_name a = status_name b \<longleftrightarrow> a = b"
  by (cases a; cases b) (auto simp: ssm_status_to_string_def)

instantiation ssm_status :: linorder
begin

definition less_eq_ssm_status :: "ssm_status \<Rightarrow> ssm_status \<Rightarrow> bool" where
  "less_eq_ssm_status a b = (status_code a \<le> status_code b)"

definition less_ssm_status :: "ssm_status \<Rightarrow> ssm_status \<Rightarrow> bool" where
  "less_ssm_status a b = (status_code a < status_code b)"

instance
  by standard (auto simp: less_eq_ssm_status_def less_ssm_status_def order.antisym)

end

definition SSM_USERNAME_MAX :: nat where
  "SSM_USERNAME_MAX = 255"

end
