(* ===== verification/Audit_Log.thy ===== *)
theory Audit_Log
  imports Database Status
begin

section \<open>The audit log (\<open>src/db/audit_log.cc\<close>)\<close>

text \<open>
  \<open>audit_log_write\<close>, \<open>audit_log_query\<close> and \<open>audit_log_prune\<close>, and \<open>audit_write\<close> of \<open>src/ssm.cc\<close>, which
  ignores whether the entry could be written.
\<close>

record audit_entry =
  ae_id :: int
  ae_user_id :: int
  ae_username :: string
  ae_operation :: string
  ae_target :: string
  ae_details :: string
  ae_result :: string
  ae_timestamp :: string

definition insert_audit ::
  "nat \<Rightarrow> int option \<Rightarrow> string \<Rightarrow> string \<Rightarrow> string option \<Rightarrow> string option \<Rightarrow> string
   \<Rightarrow> tables \<Rightarrow> tables option" where
  "insert_audit now user_id username operation target details result t =
     (case next_rowid (t_audit_seq t) of
        None \<Rightarrow> None
      | Some i \<Rightarrow>
          Some (t\<lparr>t_audit := t_audit t @ [\<lparr>a_id = i, a_user_id = user_id, a_username = username,
                    a_operation = operation, a_target = target, a_details = details,
                    a_result = result, a_timestamp = iso_time now\<rparr>],
                  t_audit_seq := i\<rparr>))"

definition audit_log_write ::
  "nat \<Rightarrow> sqlite \<Rightarrow> int \<Rightarrow> string option \<Rightarrow> string option \<Rightarrow> string option \<Rightarrow> string option
   \<Rightarrow> string option \<Rightarrow> bool \<times> sqlite" where
  "audit_log_write now db user_id username operation result operation_target details =
     (case (username, operation, result) of
        (Some un, Some op, Some res) \<Rightarrow>
          (if db_null db then (False, db)
           else (let (ok, db1) = sql_write db
                 in if \<not> ok then (False, db1)
                    else (case insert_audit now (if user_id > 0 then Some user_id else None) un op
                                 operation_target details res (db_tabs db1) of
                            None \<Rightarrow> (False, db1)
                          | Some t \<Rightarrow> (True, db1\<lparr>db_tabs := t\<rparr>))))
      | _ \<Rightarrow> (False, db))"

definition audit_write ::
  "nat \<Rightarrow> sqlite \<Rightarrow> string option \<Rightarrow> int \<Rightarrow> string \<Rightarrow> ssm_status \<Rightarrow> string option
   \<Rightarrow> string option \<Rightarrow> sqlite" where
  "audit_write now db username user_id operation result operation_target details =
     snd (audit_log_write now db user_id (Some (case username of None \<Rightarrow> [] | Some u \<Rightarrow> u))
            (Some operation) (Some (status_name result)) operation_target details)"

text \<open>The query: optional equality filters, newest first, then \<open>LIMIT\<close> and \<open>OFFSET\<close>. A negative
  limit means no limit, a negative offset none.\<close>

definition matches :: "string option \<Rightarrow> string \<Rightarrow> bool" where
  "matches filt s = (case filt of None \<Rightarrow> True | Some f \<Rightarrow> s = f)"

definition sql_window :: "int \<Rightarrow> int \<Rightarrow> 'a list \<Rightarrow> 'a list" where
  "sql_window limit offset xs =
     (let ys = drop (nat offset) xs in if limit < 0 then ys else take (nat limit) ys)"

definition audit_select ::
  "string option \<Rightarrow> string option \<Rightarrow> string option \<Rightarrow> int \<Rightarrow> int \<Rightarrow> tables \<Rightarrow> audit_rec list" where
  "audit_select username operation result limit offset t =
     sql_window limit offset
       (rev (sort_key a_id (filter (\<lambda>r. matches username (a_username r)
               \<and> matches operation (a_operation r) \<and> matches result (a_result r)) (t_audit t))))"

definition read_audit_entry :: "audit_rec \<Rightarrow> audit_entry" where
  "read_audit_entry r = \<lparr>ae_id = a_id r,
     ae_user_id = (case a_user_id r of None \<Rightarrow> 0 | Some i \<Rightarrow> i),
     ae_username = a_username r, ae_operation = a_operation r,
     ae_target = (case a_target r of None \<Rightarrow> [] | Some s \<Rightarrow> s),
     ae_details = (case a_details r of None \<Rightarrow> [] | Some s \<Rightarrow> s),
     ae_result = a_result r, ae_timestamp = a_timestamp r\<rparr>"

definition audit_log_query ::
  "sqlite \<Rightarrow> string option \<Rightarrow> string option \<Rightarrow> string option \<Rightarrow> int \<Rightarrow> int
   \<Rightarrow> audit_entry list option \<times> sqlite" where
  "audit_log_query db username operation result limit offset =
     (if db_null db then (None, db)
      else (let (ok, db1) = sql_prepare db
            in if \<not> ok then (None, db1)
               else (let (rows, rest) =
                           fetch_rows (audit_select username operation result limit offset
                                         (db_tabs db1)) (fl_row db1)
                     in (Some (map read_audit_entry rows), db1\<lparr>fl_row := rest\<rparr>))))"

text \<open>
  \<open>DELETE FROM audit_log WHERE timestamp < strftime(..., 'now', '-<days> days')\<close>: the stamps are
  compared as text. Before 1970 the model's clock ends; a cut-off there removes nothing.
\<close>

definition prune_audit :: "nat \<Rightarrow> nat \<Rightarrow> tables \<Rightarrow> tables" where
  "prune_audit now days t =
     (if now < days * 86400 then t
      else t\<lparr>t_audit := filter (\<lambda>r. \<not> a_timestamp r < iso_time (now - days * 86400)) (t_audit t)\<rparr>)"

definition audit_log_prune :: "nat \<Rightarrow> sqlite \<Rightarrow> int \<Rightarrow> bool \<times> sqlite" where
  "audit_log_prune now db days =
     (if db_null db \<or> days \<le> 0 then (False, db)
      else (let (ok, db1) = sql_write db
            in if \<not> ok then (False, db1)
               else (True, db1\<lparr>db_tabs := prune_audit now (nat days) (db_tabs db1)\<rparr>)))"

subsection \<open>What the operations guarantee\<close>

text \<open>Writing an entry changes nothing but the log, whatever the outcome.\<close>

definition same_but_audit :: "tables \<Rightarrow> tables \<Rightarrow> bool" where
  "same_but_audit t t' \<longleftrightarrow> t' = t\<lparr>t_audit := t_audit t', t_audit_seq := t_audit_seq t'\<rparr>"

lemma same_but_auditD:
  assumes "same_but_audit t t'"
  shows "t_users t' = t_users t" "t_keks t' = t_keks t" "t_secrets t' = t_secrets t"
    "t_user_seq t' = t_user_seq t" "t_secret_seq t' = t_secret_seq t" "t_exists t' = t_exists t"
    "t_unique_names t' = t_unique_names t" "t_idx_name t' = t_idx_name t"
    "t_version t' = t_version t" "t_idx_user t' = t_idx_user t" "t_kek_seq t' = t_kek_seq t"
  using arg_cong [OF assms [unfolded same_but_audit_def], of t_users]
    arg_cong [OF assms [unfolded same_but_audit_def], of t_keks]
    arg_cong [OF assms [unfolded same_but_audit_def], of t_secrets]
    arg_cong [OF assms [unfolded same_but_audit_def], of t_user_seq]
    arg_cong [OF assms [unfolded same_but_audit_def], of t_secret_seq]
    arg_cong [OF assms [unfolded same_but_audit_def], of t_exists]
    arg_cong [OF assms [unfolded same_but_audit_def], of t_unique_names]
    arg_cong [OF assms [unfolded same_but_audit_def], of t_idx_name]
    arg_cong [OF assms [unfolded same_but_audit_def], of t_version]
    arg_cong [OF assms [unfolded same_but_audit_def], of t_idx_user]
    arg_cong [OF assms [unfolded same_but_audit_def], of t_kek_seq]
  by simp_all

lemma insert_audit_eq:
  assumes "insert_audit now u n op tgt det res t = Some t'"
  shows "t' = t\<lparr>t_audit := t_audit t @ [\<lparr>a_id = t_audit_seq t + 1, a_user_id = u, a_username = n,
            a_operation = op, a_target = tgt, a_details = det, a_result = res,
            a_timestamp = iso_time now\<rparr>], t_audit_seq := t_audit_seq t + 1\<rparr>"
  using assms by (auto simp: insert_audit_def next_rowid_Some split: option.splits)

lemma same_but_audit_refl [simp]: "same_but_audit t t"
  by (simp add: same_but_audit_def)

lemma insert_audit_same:
  "insert_audit now u n op tgt det res t = Some t' \<Longrightarrow> same_but_audit t t'"
  by (drule insert_audit_eq) (simp add: same_but_audit_def)

lemma insert_audit_wf:
  assumes "insert_audit now u n op tgt det res t = Some t'" and "wf_tables t"
  shows "wf_tables t'"
  using insert_audit_eq [OF assms(1)] assms(2)
  by (auto simp: wf_tables_def users_ok_def keks_ok_def secrets_ok_def sizes_ok_def audit_ok_def sorted_wrt_append)

lemma insert_auditD:
  "insert_audit now u n op tgt det res t = Some t' \<Longrightarrow>
   same_but_audit t t' \<and> (wf_tables t \<longrightarrow> wf_tables t')"
  using insert_audit_wf insert_audit_same by blast

lemma audit_log_write_cases:
  assumes "audit_log_write now db u n op res tgt det = (ok, db')"
  shows "same_conn db db' \<and> fl_row db' = fl_row db \<and> same_but_audit (db_tabs db) (db_tabs db')
    \<and> (wf_tables (db_tabs db) \<longrightarrow> wf_tables (db_tabs db'))"
proof (cases "n = None \<or> op = None \<or> res = None \<or> db_null db \<or> \<not> fst (sql_write db)")
  case True
  obtain ok1 db1 where w: "sql_write db = (ok1, db1)" by fastforce
  then have "db' = db \<or> db' = db1"
    using assms True by (auto simp: audit_log_write_def split: option.splits if_splits)
  then show ?thesis using sql_frameD(3) [OF w] by auto
next
  case False
  then obtain n' op' res' db1 where w: "sql_write db = (True, db1)"
      and o: "n = Some n'" "op = Some op'" "res = Some res'" "\<not> db_null db"
    by (metis eq_fst_iff not_None_eq)
  let ?i = "insert_audit now (if u > 0 then Some u else None) n' op' tgt det res' (db_tabs db1)"
  have "db' = (case ?i of None \<Rightarrow> db1 | Some t \<Rightarrow> db1\<lparr>db_tabs := t\<rparr>)"
    by (cases ?i) (use assms in \<open>simp_all add: audit_log_write_def w o\<close>)
  then show ?thesis using sql_frameD(3) [OF w] insert_auditD
    by (cases ?i) auto
qed

lemma audit_write_frame [simp]:
  "same_conn db (audit_write now db n u op res tgt det)"
  "fl_row (audit_write now db n u op res tgt det) = fl_row db"
  "same_but_audit (db_tabs db) (db_tabs (audit_write now db n u op res tgt det))"
  "wf_tables (db_tabs db) \<Longrightarrow> wf_tables (db_tabs (audit_write now db n u op res tgt det))"
  unfolding audit_write_def using audit_log_write_cases [OF surjective_pairing] by blast+

lemma audit_write_healthy:
  assumes "healthy db" and "t_audit_seq (db_tabs db) < MAX_ROWID"
  shows "audit_write now db n u op res tgt det = db\<lparr>db_tabs := (db_tabs db)
     \<lparr>t_audit := t_audit (db_tabs db) @ [\<lparr>a_id = t_audit_seq (db_tabs db) + 1,
        a_user_id = (if u > 0 then Some u else None),
        a_username = (case n of None \<Rightarrow> [] | Some x \<Rightarrow> x), a_operation = op, a_target = tgt,
        a_details = det, a_result = status_name res, a_timestamp = iso_time now\<rparr>],
      t_audit_seq := t_audit_seq (db_tabs db) + 1\<rparr>\<rparr>"
  using assms by (simp add: audit_write_def audit_log_write_def insert_audit_def next_rowid_def
      healthyD)

lemma sql_window_paging:
  "0 \<le> limit \<Longrightarrow> 0 \<le> offset \<Longrightarrow>
   sql_window limit offset xs @ sql_window limit (offset + limit) xs = sql_window (2 * limit) offset xs"
proof -
  assume l: "0 \<le> limit" and o: "0 \<le> offset"
  have d: "drop (nat (offset + limit)) xs = drop (nat limit) (drop (nat offset) xs)"
    using l o by (simp add: nat_add_distrib) (metis add.commute)
  have "nat (2 * limit) = nat limit + nat limit" using l by simp
  then show ?thesis using l by (simp only: sql_window_def Let_def d take_add) simp
qed

lemma audit_select_eq:
  assumes "audit_ok t"
  shows "audit_select un op res limit offset t = sql_window limit offset
     (rev (filter (\<lambda>r. matches un (a_username r) \<and> matches op (a_operation r)
        \<and> matches res (a_result r)) (t_audit t)))"
proof -
  let ?P = "\<lambda>r. matches un (a_username r) \<and> matches op (a_operation r) \<and> matches res (a_result r)"
  have "sorted_wrt (\<lambda>r s. a_id r < a_id s) (t_audit t)"
    using assms by (simp add: audit_ok_def sorted_wrt_map)
  then have "sorted_wrt (\<lambda>r s. a_id r < a_id s) (filter ?P (t_audit t))"
    by (rule sorted_wrt_filter)
  then have "sorted (map a_id (filter ?P (t_audit t)))"
    by (auto simp: sorted_wrt_map intro: sorted_wrt_mono_rel [rotated])
  then show ?thesis by (simp add: audit_select_def sort_key_id_if_sorted)
qed

lemma prune_audit_frame:
  "same_but_audit t (prune_audit now days t)" "wf_tables t \<Longrightarrow> wf_tables (prune_audit now days t)"
  by (auto simp: prune_audit_def same_but_audit_def wf_tables_def users_ok_def keks_ok_def
      secrets_ok_def sizes_ok_def audit_ok_def sorted_wrt_map sorted_wrt_filter)

subsection \<open>Properties\<close>

lemma audit_query_healthy:
  assumes "healthy db" and "audit_ok (db_tabs db)"
  shows "audit_log_query db un op res limit offset = (Some (map read_audit_entry (sql_window limit offset
     (rev (filter (\<lambda>r. matches un (a_username r) \<and> matches op (a_operation r)
        \<and> matches res (a_result r)) (t_audit (db_tabs db)))))), db)"
proof -
  have "db\<lparr>fl_row := []\<rparr> = db" using assms(1) by (cases db) (simp add: healthy_def)
  then show ?thesis
    using assms by (simp add: audit_log_query_def healthyD audit_select_eq)
qed

lemma sql_window_map: "map f (sql_window l off xs) = sql_window l off (map f xs)"
  by (simp add: sql_window_def Let_def drop_map take_map)

text \<open>
  A query of the audit log answers exactly the entries that match every filter given, newest first,
  and reading it page by page misses nothing and repeats nothing: the page at \<open>offset\<close> followed by the
  page at \<open>offset + limit\<close> is the double page at \<open>offset\<close>.
\<close>

theorem audit_query_pages:
  assumes "healthy db" and "audit_ok (db_tabs db)" and "0 \<le> limit" and "0 \<le> offset"
  shows "\<exists>a b. fst (audit_log_query db un op res limit offset) = Some a
    \<and> fst (audit_log_query db un op res limit (offset + limit)) = Some b
    \<and> fst (audit_log_query db un op res (2 * limit) offset) = Some (a @ b)
    \<and> fst (audit_log_query db un op res (-1) 0) = Some (map read_audit_entry (rev (filter
         (\<lambda>r. matches un (a_username r) \<and> matches op (a_operation r) \<and> matches res (a_result r))
         (t_audit (db_tabs db)))))
    \<and> sorted_wrt (\<lambda>x y. ae_id x > ae_id y) (a @ b)"
proof -
  let ?xs = "rev (filter (\<lambda>r. matches un (a_username r) \<and> matches op (a_operation r)
      \<and> matches res (a_result r)) (t_audit (db_tabs db)))"
  have "sorted_wrt (\<lambda>r s. a_id r < a_id s) (t_audit (db_tabs db))"
    using assms(2) by (simp add: audit_ok_def sorted_wrt_map)
  then have "sorted_wrt (\<lambda>r s. a_id r > a_id s) ?xs"
    by (simp add: sorted_wrt_rev sorted_wrt_filter)
  then have "sorted_wrt (\<lambda>r s. a_id r > a_id s) (sql_window (2 * limit) offset ?xs)"
    by (simp add: sql_window_def Let_def sorted_wrt_drop sorted_wrt_take)
  then have "sorted_wrt (\<lambda>x y. ae_id x > ae_id y)
      (map read_audit_entry (sql_window (2 * limit) offset ?xs))"
    by (simp add: sorted_wrt_map read_audit_entry_def)
  moreover have "sql_window (-1) 0 ?xs = ?xs" by (simp add: sql_window_def)
  ultimately show ?thesis
    using sql_window_paging [OF assms(3,4), of ?xs]
    by (simp add: audit_query_healthy [OF assms(1,2)] flip: map_append)
qed

text \<open>
  Pruning keeps exactly the entries of the last \<open>days\<close> days, to the second, and touches no other
  table; a day count that is not positive is refused.
\<close>

theorem audit_prune_exact:
  assumes run: "audit_log_prune now db days = (ok, db')"
    and stamps: "\<forall>r \<in> set (t_audit (db_tabs db)). a_timestamp r = iso_time (written r) \<and> written r < time_limit"
    and now: "now < time_limit" "nat days * 86400 \<le> now"
  shows "same_but_audit (db_tabs db) (db_tabs db') \<and> (days \<le> 0 \<longrightarrow> \<not> ok)
    \<and> t_audit (db_tabs db') = (if ok then filter (\<lambda>r. now \<le> written r + nat days * 86400) (t_audit (db_tabs db))
         else t_audit (db_tabs db))"
proof -
  have "filter (\<lambda>r. \<not> a_timestamp r < iso_time (now - nat days * 86400)) (t_audit (db_tabs db))
      = filter (\<lambda>r. now \<le> written r + nat days * 86400) (t_audit (db_tabs db))"
    using stamps now by (intro filter_cong) (auto simp: iso_time_less)
  then show ?thesis
    using run now by (auto simp: audit_log_prune_def prune_audit_def same_but_audit_def Let_def
        dest!: sql_frameD split: prod.splits if_splits)
qed

end
