(* ===== verification/Migrations.thy ===== *)
theory Migrations
  imports Database
begin

section \<open>Schema migrations (\<open>src/db/migrations.cc\<close>)\<close>

text \<open>
  The migration table with its SQL, \<open>db_migrate\<close> and \<open>db_rollback\<close>. Each migration runs in a
  transaction of its own; \<open>CREATE UNIQUE INDEX\<close> fails when two rows share a user and a name.
\<close>

datatype ddl =
    CreateIdxUser | DropIdxUser | CreateUniqueIdxName | DropIdxName

record migration =
  from_version :: int
  to_version :: int
  mig_sql :: ddl
  rollback_sql :: "ddl option"

definition SSM_SCHEMA_VERSION :: int where
  "SSM_SCHEMA_VERSION = 3"

definition migrations :: "migration list" where
  "migrations =
     [\<lparr>from_version = 1, to_version = 2, mig_sql = CreateIdxUser,
       rollback_sql = Some DropIdxUser\<rparr>,
      \<lparr>from_version = 2, to_version = 3, mig_sql = CreateUniqueIdxName,
       rollback_sql = Some DropIdxName\<rparr>]"

definition secret_keys :: "tables \<Rightarrow> (int \<times> string) list" where
  "secret_keys t =
     [(s_user_id r, the (s_name r)). r \<leftarrow> t_secrets t, s_name r \<noteq> None]"

definition run_ddl :: "ddl \<Rightarrow> tables \<Rightarrow> tables option" where
  "run_ddl d t =
     (case d of
        CreateIdxUser \<Rightarrow> if t_exists t then Some (t\<lparr>t_idx_user := True\<rparr>) else None
      | DropIdxUser \<Rightarrow> Some (t\<lparr>t_idx_user := False\<rparr>)
      | CreateUniqueIdxName \<Rightarrow>
          if t_exists t \<and> (t_idx_name t \<or> distinct (secret_keys t))
          then Some (t\<lparr>t_idx_name := True\<rparr>) else None
      | DropIdxName \<Rightarrow> Some (t\<lparr>t_idx_name := False\<rparr>))"

definition exec_ddl :: "ddl \<Rightarrow> sqlite \<Rightarrow> bool \<times> sqlite" where
  "exec_ddl d db =
     (if db_readonly db then (False, db)
      else (let (ok, db1) = sql_call db
            in if \<not> ok then (False, db1)
               else (case run_ddl d (db_tabs db1) of
                       None \<Rightarrow> (False, db1)
                     | Some t \<Rightarrow> (True, db1\<lparr>db_tabs := t\<rparr>))))"

text \<open>
  One step of either loop: \<open>BEGIN IMMEDIATE\<close>, the script, the new version, \<open>COMMIT\<close>. A failing
  \<open>BEGIN\<close> or \<open>COMMIT\<close> returns at once, anything else rolls back first.
\<close>

definition migrate_step :: "ddl \<Rightarrow> int \<Rightarrow> sqlite \<Rightarrow> bool \<times> sqlite" where
  "migrate_step d v db =
     (let (ok1, db1) = exec_begin db
      in if \<not> ok1 then (False, db1)
         else (let (ok2, db2) = exec_ddl d db1
               in if \<not> ok2 then (False, exec_rollback db2)
                  else (let (ok3, db3) = db_set_version db2 v
                        in if \<not> ok3 then (False, exec_rollback db3)
                           else exec_commit db3)))"

text \<open>The forward loop over the ordered array; \<open>current\<close> is the loop's variable.\<close>

fun migrate_loop :: "migration list \<Rightarrow> int \<Rightarrow> sqlite \<Rightarrow> bool \<times> sqlite" where
  "migrate_loop [] current db = (current = SSM_SCHEMA_VERSION, db)"
| "migrate_loop (m # ms) current db =
     (if from_version m \<noteq> current then migrate_loop ms current db
      else (let (ok, db1) = migrate_step (mig_sql m) (to_version m) db
            in if ok then migrate_loop ms (to_version m) db1 else (False, db1)))"

definition db_migrate :: "sqlite \<Rightarrow> bool \<times> sqlite" where
  "db_migrate db =
     (if db_null db then (False, db)
      else (let (current, db1) = db_get_version db
            in if current < 0 then (False, db1)
               else (let (ok, db2) = (if current = 0 then db_set_version db1 1 else (True, db1));
                         current' = (if current = 0 then 1 else current)
                     in if \<not> ok then (False, db2)
                        else if current' \<ge> SSM_SCHEMA_VERSION then (True, db2)
                        else migrate_loop migrations current' db2)))"

text \<open>The backward loop goes over the array from its end; the list is passed reversed.\<close>

fun rollback_loop :: "migration list \<Rightarrow> int \<Rightarrow> int \<Rightarrow> sqlite \<Rightarrow> bool \<times> sqlite" where
  "rollback_loop [] current target db = (False, db)"
| "rollback_loop (m # ms) current target db =
     (if to_version m \<noteq> current then rollback_loop ms current target db
      else (case rollback_sql m of
              None \<Rightarrow> (False, db)
            | Some d \<Rightarrow>
                (let (ok, db1) = migrate_step d (from_version m) db
                 in if \<not> ok then (False, db1)
                    else if from_version m = target then (True, db1)
                    else rollback_loop ms (from_version m) target db1)))"

definition db_rollback :: "sqlite \<Rightarrow> int \<Rightarrow> bool \<times> sqlite" where
  "db_rollback db target_version =
     (if db_null db then (False, db)
      else (let (current, db1) = db_get_version db
            in if current < 0 \<or> current \<le> target_version then (False, db1)
               else rollback_loop (rev migrations) current target_version db1))"

subsection \<open>What the operations guarantee\<close>

text \<open>
  \<open>versioned\<close>: the indexes a version promises are there. \<open>same_rows\<close>: the four tables hold the same
  rows. Both are kept by every step, whatever fails.
\<close>

definition versioned :: "tables \<Rightarrow> bool" where
  "versioned t \<longleftrightarrow> (t_version t \<ge> 2 \<longrightarrow> t_idx_user t) \<and> (t_version t \<ge> 3 \<longrightarrow> t_idx_name t)"

definition same_rows :: "tables \<Rightarrow> tables \<Rightarrow> bool" where
  "same_rows t t' \<longleftrightarrow> t_users t' = t_users t \<and> t_keks t' = t_keks t \<and> t_secrets t' = t_secrets t
     \<and> t_audit t' = t_audit t \<and> t_user_seq t' = t_user_seq t \<and> t_kek_seq t' = t_kek_seq t
     \<and> t_secret_seq t' = t_secret_seq t \<and> t_audit_seq t' = t_audit_seq t
     \<and> t_unique_names t' = t_unique_names t"

lemma same_rows_refl [simp]: "same_rows t t"
  by (simp add: same_rows_def)

lemma same_rows_trans: "same_rows a b \<Longrightarrow> same_rows b c \<Longrightarrow> same_rows a c"
  by (simp add: same_rows_def)

lemma db_get_versionD:
  "db_get_version db = (v, db1) \<Longrightarrow> same_conn db db1 \<and> db_tabs db1 = db_tabs db"
  by (auto simp: db_get_version_def Let_def dest!: sql_frameD split: prod.splits if_splits)

lemma db_get_version_value:
  "db_get_version db = (v, db1) \<Longrightarrow> fl_row db = [] \<Longrightarrow> 0 \<le> v \<Longrightarrow> t_version (db_tabs db) \<ge> -1 \<Longrightarrow>
   v = t_version (db_tabs db)"
  by (auto simp: db_get_version_def Let_def dest!: sql_frameD split: prod.splits if_splits)

lemma db_set_versionD:
  "db_set_version db v = (ok, db1) \<Longrightarrow>
   same_conn db db1 \<and> db_tabs db1 = (if ok then (db_tabs db)\<lparr>t_version := v\<rparr> else db_tabs db)"
  by (auto simp: db_set_version_def Let_def dest!: sql_frameD split: prod.splits if_splits)

lemma exec_ddlD:
  "exec_ddl d db = (ok, db1) \<Longrightarrow> same_conn db db1
     \<and> (if ok then run_ddl d (db_tabs db) = Some (db_tabs db1) else db_tabs db1 = db_tabs db)"
  by (auto simp: exec_ddl_def Let_def dest!: sql_frameD split: prod.splits if_splits option.splits)

lemma run_ddl_rows: "run_ddl d t = Some t' \<Longrightarrow> same_rows t t' \<and> t_version t' = t_version t"
  by (auto simp: run_ddl_def same_rows_def split: ddl.splits if_splits)

text \<open>
  A step either fails and the database is as before, or the script and the version are both in place;
  a \<open>COMMIT\<close> that fails leaves the transaction open, with the old tables to fall back to.
\<close>

lemma exec_begin_cases:
  "exec_begin db = (ok, db1) \<Longrightarrow> db_tabs db1 = db_tabs db
     \<and> (if ok then db_snap db = None \<and> db_snap db1 = Some (db_tabs db) else db_snap db1 = db_snap db)"
  by (auto simp: exec_begin_def Let_def split: prod.splits if_splits)

lemma exec_commit_cases:
  "exec_commit db = (ok, db1) \<Longrightarrow> db_tabs db1 = db_tabs db
     \<and> db_snap db1 = (if ok then None else db_snap db)"
  by (auto simp: exec_commit_def Let_def split: prod.splits if_splits)

lemma migrate_step_ok:
  assumes "migrate_step d v db = (True, db')"
  shows "\<exists>t. run_ddl d (db_tabs db) = Some t \<and> db_tabs db' = t\<lparr>t_version := v\<rparr>"
    and "db_snap db' = None"
proof -
  obtain ok1 db1 where b: "exec_begin db = (ok1, db1)" by fastforce
  obtain ok2 db2 where e: "exec_ddl d db1 = (ok2, db2)" by fastforce
  obtain ok3 db3 where s: "db_set_version db2 v = (ok3, db3)" by fastforce
  have ok: "ok1" "ok2" "ok3" "exec_commit db3 = (True, db')"
    using assms by (simp_all add: migrate_step_def b e s split: if_splits)
  then show "\<exists>t. run_ddl d (db_tabs db) = Some t \<and> db_tabs db' = t\<lparr>t_version := v\<rparr>"
    and "db_snap db' = None"
    using exec_begin_cases [OF b] exec_ddlD [OF e] db_set_versionD [OF s]
      exec_commit_cases [OF ok(4)] by auto
qed

lemma migrate_step_failed:
  assumes "migrate_step d v db = (False, db')"
  shows "db_tabs (exec_rollback db') = db_tabs (exec_rollback db)"
proof -
  obtain ok1 db1 where b: "exec_begin db = (ok1, db1)" by fastforce
  obtain ok2 db2 where e: "exec_ddl d db1 = (ok2, db2)" by fastforce
  obtain ok3 db3 where s: "db_set_version db2 v = (ok3, db3)" by fastforce
  note facts = exec_begin_cases [OF b] exec_ddlD [OF e] db_set_versionD [OF s]
  consider "\<not> ok1" | "ok1" "\<not> ok2" | "ok1" "ok2" "\<not> ok3" | "ok1" "ok2" "ok3" by blast
  then show ?thesis
  proof cases
    case 4
    then have "exec_commit db3 = (False, db')"
      using assms by (simp add: migrate_step_def b e s)
    then show ?thesis using 4 facts exec_commit_cases [of db3 False db']
      by (simp add: same_conn_def exec_rollback_def)
  qed (use assms facts in \<open>auto simp: migrate_step_def b e s same_conn_def exec_rollback_def
        split: option.splits\<close>)
qed

lemma migration_versioned:
  assumes "m \<in> set migrations" and "run_ddl (mig_sql m) t = Some t'" and "versioned t"
    and "t_version t = from_version m"
  shows "versioned (t'\<lparr>t_version := to_version m\<rparr>)"
proof -
  consider "mig_sql m = CreateIdxUser" "from_version m = 1" "to_version m = 2"
    | "mig_sql m = CreateUniqueIdxName" "from_version m = 2" "to_version m = 3"
    using assms(1) by (auto simp: migrations_def)
  then show ?thesis
    by cases (use assms(2-4) in \<open>auto simp: run_ddl_def versioned_def split: if_splits\<close>)
qed

lemma migrate_loop_ok:
  assumes "migrate_loop ms v db = (True, db')" and "set ms \<subseteq> set migrations"
    and "versioned (db_tabs db)" and "t_version (db_tabs db) = v"
  shows "versioned (db_tabs db') \<and> t_version (db_tabs db') = SSM_SCHEMA_VERSION
    \<and> same_rows (db_tabs db) (db_tabs db')"
  using assms
proof (induction ms arbitrary: v db)
  case (Cons m ms)
  show ?case
  proof (cases "from_version m = v")
    case False
    then show ?thesis using Cons by simp
  next
    case True
    with Cons.prems(1) obtain db1 where s: "migrate_step (mig_sql m) (to_version m) db = (True, db1)"
      and l: "migrate_loop ms (to_version m) db1 = (True, db')"
      by (auto simp: Let_def split: prod.splits if_splits)
    obtain t where t: "run_ddl (mig_sql m) (db_tabs db) = Some t"
      "db_tabs db1 = t\<lparr>t_version := to_version m\<rparr>" using migrate_step_ok [OF s] by blast
    have "versioned (db_tabs db1) \<and> same_rows (db_tabs db) (db_tabs db1)"
      using t(2) migration_versioned [OF _ t(1)] run_ddl_rows [OF t(1)] Cons.prems(2-4) True
      by (simp add: same_rows_def)
    then show ?thesis
      using Cons.IH [OF l] Cons.prems(2) t(2) same_rows_trans by auto
  qed
qed simp

text \<open>
  C27. Where no row fetch fails, a migration that reports success on a database whose indexes match its
  version has brought it to version 3 (a newer one is left at its version), with every index that version
  promises and with the same rows in all four tables. (A database of version 3 without its index is not
  repaired, and a version that cannot be fetched is taken for 0.)
\<close>

theorem migrate_reaches_schema_version:
  assumes run: "db_migrate db = (True, db')" and ok: "versioned (db_tabs db)" and rows: "fl_row db = []"
  shows "t_version (db_tabs db') = max SSM_SCHEMA_VERSION (t_version (db_tabs db))
    \<and> versioned (db_tabs db') \<and> same_rows (db_tabs db) (db_tabs db')"
proof -
  obtain v db1 where g: "db_get_version db = (v, db1)" by fastforce
  have "\<not> v < 0" using run by (auto simp: db_migrate_def g split: if_splits)
  then have v: "v = t_version (db_tabs db)" using g rows
    by (auto simp: db_get_version_def Let_def dest!: sql_frameD split: prod.splits if_splits)
  note d1 = db_get_versionD [OF g]
  obtain ok2 db2 where s: "(if v = 0 then db_set_version db1 1 else (True, db1)) = (ok2, db2)"
    by fastforce
  have ok2: "ok2" using run \<open>\<not> v < 0\<close> by (auto simp: db_migrate_def g s Let_def split: if_splits)
  have t2: "db_tabs db2 = (if v = 0 then (db_tabs db)\<lparr>t_version := 1\<rparr> else db_tabs db)"
    using s d1 ok2 db_set_versionD [of db1 1 ok2 db2] by (auto split: if_splits)
  have fin: "(if (if v = 0 then 1 else v) \<ge> SSM_SCHEMA_VERSION then (True, db2)
      else migrate_loop migrations (if v = 0 then 1 else v) db2) = (True, db')"
    using run \<open>\<not> v < 0\<close> ok2 by (auto simp: db_migrate_def g s Let_def split: if_splits)
  show ?thesis
  proof (cases "(if v = 0 then 1 else v) \<ge> SSM_SCHEMA_VERSION")
    case True
    then have "db' = db2" "v \<noteq> 0" using fin by (auto simp: SSM_SCHEMA_VERSION_def split: if_splits)
    then show ?thesis using t2 v True ok by simp
  next
    case False
    have "versioned (db_tabs db2)" "same_rows (db_tabs db) (db_tabs db2)"
      using t2 ok by (auto simp: versioned_def same_rows_def)
    moreover have "t_version (db_tabs db2) = (if v = 0 then 1 else v)" using t2 v by simp
    ultimately show ?thesis
      using migrate_loop_ok [of migrations "if v = 0 then 1 else v" db2 db'] fin False v same_rows_trans
      by (auto simp: max_def split: if_splits)
  qed
qed

lemma migrate_step_healthy:
  assumes "healthy db" and "run_ddl d (db_tabs db) = Some t" and "t_exists t"
  shows "migrate_step d v db = (True, db\<lparr>db_tabs := t\<lparr>t_version := v\<rparr>\<rparr>)"
  using assms
  by (simp add: migrate_step_def healthy_def exec_begin_def exec_ddl_def exec_commit_def sql_call_def
      db_set_version_def)

text \<open>The forward path on a healthy connection, and the way back.\<close>

lemma migrate_healthy:
  assumes h: "healthy db" and v: "t_version (db_tabs db) = 1" and d: "distinct (secret_keys (db_tabs db))"
  shows "db_migrate db = (True, db\<lparr>db_tabs :=
    (db_tabs db)\<lparr>t_idx_user := True, t_idx_name := True, t_version := 3\<rparr>\<rparr>)"
proof -
  let ?t1 = "(db_tabs db)\<lparr>t_idx_user := True, t_version := 2\<rparr>"
  let ?db1 = "db\<lparr>db_tabs := ?t1\<rparr>"
  have e: "t_exists (db_tabs db)" using h by (simp add: healthy_def)
  have s1: "migrate_step CreateIdxUser 2 db = (True, ?db1)"
    by (rule migrate_step_healthy [OF h, THEN trans]) (simp_all add: run_ddl_def e)
  have h1: "healthy ?db1" using h by (simp add: healthy_def)
  have "run_ddl CreateUniqueIdxName (db_tabs ?db1) = Some (?t1\<lparr>t_idx_name := True\<rparr>)"
    using d e by (simp add: run_ddl_def secret_keys_def)
  then have s2: "migrate_step CreateUniqueIdxName 3 ?db1
      = (True, ?db1\<lparr>db_tabs := ?t1\<lparr>t_idx_name := True, t_version := 3\<rparr>\<rparr>)"
    using migrate_step_healthy [OF h1] e by simp
  have "db_get_version db = (1, db)"
    using h v by (simp add: db_get_version_def healthy_def sql_call_def)
  then show ?thesis
    using s1 s2 h by (simp add: db_migrate_def migrations_def SSM_SCHEMA_VERSION_def healthyD)
qed

text \<open>
  Rolling a migrated database back to version 1 undoes the migration completely: the tables are
  the ones before it, indexes and version included. A roll-back to version 0 goes as far as version 1
  and reports failure.
\<close>

theorem rollback_undoes_migrate:
  assumes h: "healthy db" and v: "t_version (db_tabs db) = 1" and i: "\<not> t_idx_user (db_tabs db)"
    and n: "\<not> t_idx_name (db_tabs db)" and d: "distinct (secret_keys (db_tabs db))"
  shows "fst (db_migrate db) \<and> db_rollback (snd (db_migrate db)) 1 = (True, db)
    \<and> db_rollback (snd (db_migrate db)) 0 = (False, db)"
proof -
  let ?t = "db_tabs db"
  let ?m = "db\<lparr>db_tabs := ?t\<lparr>t_idx_user := True, t_idx_name := True, t_version := 3\<rparr>\<rparr>"
  let ?r = "db\<lparr>db_tabs := ?t\<lparr>t_idx_user := True, t_idx_name := False, t_version := 2\<rparr>\<rparr>"
  have e: "t_exists ?t" using h by (simp add: healthy_def)
  have hm: "healthy ?m" "healthy ?r" using h by (simp_all add: healthy_def)
  have "run_ddl DropIdxName (db_tabs ?m)
      = Some (?t\<lparr>t_idx_user := True, t_idx_name := False, t_version := 3\<rparr>)"
    by (simp add: run_ddl_def)
  from migrate_step_healthy [OF hm(1) this] e have s1: "migrate_step DropIdxName 2 ?m = (True, ?r)"
    by simp
  have "?t\<lparr>t_idx_user := False, t_idx_name := False, t_version := 1\<rparr> = ?t"
    using v i n by (cases ?t) simp
  then have undo: "db\<lparr>db_tabs := ?t\<lparr>t_idx_user := False, t_idx_name := False, t_version := 1\<rparr>\<rparr> = db"
    by simp
  have "run_ddl DropIdxUser (db_tabs ?r)
      = Some (?t\<lparr>t_idx_user := False, t_idx_name := False, t_version := 2\<rparr>)"
    by (simp add: run_ddl_def)
  from migrate_step_healthy [OF hm(2) this] e undo have s2: "migrate_step DropIdxUser 1 ?r = (True, db)"
    by simp
  have "db_get_version ?m = (3, ?m)"
    using h by (simp add: db_get_version_def healthy_def sql_call_def)
  then show ?thesis using s1 s2 h
    by (simp add: migrate_healthy [OF h v d] db_rollback_def migrations_def healthyD)
qed

lemma migrate_loop_failed:
  assumes "migrate_loop ms v db = (False, db')" and "set ms \<subseteq> set migrations"
    and "db_snap db = None" and "versioned (db_tabs db)" and "t_version (db_tabs db) = v"
  shows "versioned (db_close db') \<and> same_rows (db_tabs db) (db_close db') \<and> v \<le> t_version (db_close db')"
  using assms
proof (induction ms arbitrary: v db)
  case Nil
  then show ?case by (simp add: db_close_def exec_rollback_def)
next
  case (Cons m ms)
  obtain ok db1 where s: "migrate_step (mig_sql m) (to_version m) db = (ok, db1)" by fastforce
  consider "from_version m \<noteq> v" | "from_version m = v" "\<not> ok" | "from_version m = v" "ok" by blast
  then show ?case
  proof cases
    case 1
    then show ?thesis using Cons by simp
  next
    case 2
    then have "db' = db1" using Cons.prems(1) s by simp
    then show ?thesis
      using 2 migrate_step_failed [of _ _ db db1] s Cons.prems(3-5)
      by (auto simp: db_close_def exec_rollback_def)
  next
    case 3
    then have l: "migrate_loop ms (to_version m) db1 = (False, db')" using Cons.prems(1) s by simp
    obtain t where t: "run_ddl (mig_sql m) (db_tabs db) = Some t"
      "db_tabs db1 = t\<lparr>t_version := to_version m\<rparr>" "db_snap db1 = None"
      using migrate_step_ok [OF s [unfolded eqTrueI [OF 3(2)]]] by blast
    have v1: "versioned (db_tabs db1)"
      using migration_versioned [OF _ t(1)] t(2) Cons.prems(2,4,5) 3 by simp
    have "from_version m \<le> to_version m" using Cons.prems(2) by (auto simp: migrations_def)
    moreover have "same_rows (db_tabs db) (db_tabs db1)"
      using run_ddl_rows [OF t(1)] t(2) by (simp add: same_rows_def)
    ultimately show ?thesis
      using Cons.IH [OF l _ t(3) v1] Cons.prems(2) t(2) 3 same_rows_trans by force
  qed
qed

text \<open>
  C28. A migration that reports failure leaves a file with the same rows whose indexes match its version,
  if they did before, at a version no older than before, whichever statements, \<open>BEGIN\<close>s and \<open>COMMIT\<close>s
  failed, as long as no row fetch did: each step is all or nothing. (A fetch that fails makes the version
  look like 0, and it is set back to 1.)
\<close>

theorem failed_migrate_is_consistent:
  assumes run: "db_migrate db = (False, db')" and s: "db_snap db = None"
    and ok: "versioned (db_tabs db)" and rows: "fl_row db = []"
  shows "versioned (db_close db') \<and> same_rows (db_tabs db) (db_close db')
    \<and> t_version (db_tabs db) \<le> t_version (db_close db')"
proof -
  obtain v db1 where g: "db_get_version db = (v, db1)" by fastforce
  note d1 = db_get_versionD [OF g]
  obtain ok2 db2 where st: "(if v = 0 then db_set_version db1 1 else (True, db1)) = (ok2, db2)"
    by fastforce
  have d2: "same_conn db1 db2 \<and> db_tabs db2 = (if v = 0 \<and> ok2 then (db_tabs db1)\<lparr>t_version := 1\<rparr>
      else db_tabs db1)" using st db_set_versionD [of db1 1 ok2 db2] by (auto split: if_splits)
  have close: "db_close db3 = db_tabs db3" if "same_conn db db3" for db3
    using that s by (simp add: db_close_def exec_rollback_def same_conn_def)
  have c2: "same_conn db db2" using d1 d2 same_conn_trans by blast
  consider "db' = db" | "db' = db1" | "db' = db2" "\<not> ok2" "0 \<le> v"
    | "migrate_loop migrations (if v = 0 then 1 else v) db2 = (False, db')" "ok2" "0 \<le> v"
  proof -
    define cur where "cur = (if v = 0 then 1 else v)"
    have "(if db_null db then (False, db) else if v < 0 then (False, db1)
        else if \<not> ok2 then (False, db2) else if cur \<ge> SSM_SCHEMA_VERSION then (True, db2)
        else migrate_loop migrations cur db2) = (False, db')"
      using run unfolding db_migrate_def g prod.case st Let_def cur_def by simp
    then show thesis using that unfolding cur_def [symmetric]
      by (cases "db_null db"; cases "v < 0"; cases ok2; cases "cur \<ge> SSM_SCHEMA_VERSION") auto
  qed
  then show ?thesis
  proof cases
    case 1
    then show ?thesis using close [of db] ok by simp
  next
    case 2
    then show ?thesis using close [of db1] d1 ok by simp
  next
    case 3
    then show ?thesis using close [OF c2] d1 d2 ok by simp
  next
    case 4
    have v: "v = t_version (db_tabs db)" using g rows 4(3)
      by (auto simp: db_get_version_def Let_def dest!: sql_frameD split: prod.splits if_splits)
    have "versioned (db_tabs db2)" "same_rows (db_tabs db) (db_tabs db2)"
      "t_version (db_tabs db2) = (if v = 0 then 1 else v)" "db_snap db2 = None"
      using d1 d2 4(2) ok v c2 s by (auto simp: versioned_def same_rows_def same_conn_def)
    then show ?thesis
      using migrate_loop_failed [OF 4(1)] v same_rows_trans by (auto split: if_splits)
  qed
qed

subsection \<open>Migrating a usable connection\<close>

definition grown :: "tables \<Rightarrow> tables \<Rightarrow> bool" where
  "grown t t' \<longleftrightarrow> same_rows t t' \<and> (t_idx_name t \<longrightarrow> t_idx_name t')"

lemma grown_refl [simp]: "grown t t"
  by (simp add: grown_def)

lemma grown_trans: "grown a b \<Longrightarrow> grown b c \<Longrightarrow> grown a c"
  using same_rows_trans by (auto simp: grown_def)

lemma grown_wf: "grown t t' \<Longrightarrow> wf_tables t \<Longrightarrow> wf_tables t'"
  by (auto simp: grown_def same_rows_def wf_tables_def users_ok_def keks_ok_def secrets_ok_def
      sizes_ok_def audit_ok_def)

lemma grown_version [simp]: "grown t (t'\<lparr>t_version := v\<rparr>) = grown t t'"
  by (simp add: grown_def same_rows_def)

lemma run_ddl_grown:
  "m \<in> set migrations \<Longrightarrow> run_ddl (mig_sql m) t = Some t' \<Longrightarrow> grown t t'"
  using run_ddl_rows by (fastforce simp: grown_def migrations_def run_ddl_def split: if_splits)

lemma migrate_step_steady:
  assumes run: "migrate_step (mig_sql m) v db = (ok, db')" and s: "steady db"
    and m: "m \<in> set migrations"
  shows "steady db' \<and> grown (db_tabs db) (db_tabs db')"
proof -
  let ?db1 = "db\<lparr>fl_begin := tl (fl_begin db), db_snap := Some (db_tabs db)\<rparr>"
  have b: "exec_begin db = (True, ?db1)" using s by (intro exec_begin_ok) (auto simp: steady_def)
  obtain ok2 db2 where e: "exec_ddl (mig_sql m) ?db1 = (ok2, db2)" by fastforce
  obtain ok3 db3 where st: "db_set_version db2 v = (ok3, db3)" by fastforce
  note d2 = exec_ddlD [OF e] and d3 = db_set_versionD [OF st]
  have c3: "same_conn ?db1 db3" using d2 d3 same_conn_trans by blast
  have tls: "True \<notin> set (tl fs)" if "True \<notin> set fs" for fs :: "bool list"
    using that by (cases fs) auto
  have undone: "steady (exec_rollback x) \<and> db_tabs (exec_rollback x) = db_tabs db" if "same_conn ?db1 x" for x
    using that s tls by (auto simp: steady_def same_conn_def exec_rollback_def)
  have commit: "exec_commit db3 = (True, db3\<lparr>fl_commit := tl (fl_commit db3), db_snap := None\<rparr>)"
    using c3 s by (intro exec_commit_ok) (auto simp: steady_def same_conn_def)
  have final: "steady (db3\<lparr>fl_commit := tl (fl_commit db3), db_snap := None\<rparr>)"
    using c3 s tls by (auto simp: steady_def same_conn_def)
  note run1 = run [unfolded migrate_step_def Let_def b prod.case e st commit]
  have "grown (db_tabs db) (db_tabs db2)" if ok2
    using d2 that run_ddl_grown [OF m] by auto
  then have "grown (db_tabs db) (db_tabs db3)" if ok2 using d3 that by auto
  then show ?thesis
    using run1 undone [of db2] undone [OF c3] d2 final by (auto split: if_splits)
qed

lemma migrate_loop_steady:
  "migrate_loop ms v db = (ok, db') \<Longrightarrow> steady db \<Longrightarrow> set ms \<subseteq> set migrations \<Longrightarrow>
   steady db' \<and> grown (db_tabs db) (db_tabs db')"
proof (induction ms arbitrary: v db)
  case (Cons m ms)
  obtain ok1 db1 where st: "migrate_step (mig_sql m) (to_version m) db = (ok1, db1)" by fastforce
  show ?case
  proof (cases "from_version m = v")
    case True
    have m: "m \<in> set migrations" using Cons.prems(3) by simp
    note f1 = migrate_step_steady [OF st Cons.prems(2) m]
    show ?thesis
    proof (cases ok1)
      case True
      then have "migrate_loop ms (to_version m) db1 = (ok, db')"
        using Cons.prems(1) st \<open>from_version m = v\<close> by simp
      then show ?thesis using Cons.IH [of "to_version m" db1] f1 Cons.prems(3) grown_trans by auto
    qed (use Cons.prems(1) st True f1 in auto)
  qed (use Cons in auto)
qed simp

lemma db_migrate_steady:
  assumes "db_migrate db = (ok, db')" and s: "steady db"
  shows "steady db' \<and> grown (db_tabs db) (db_tabs db')"
proof -
  obtain v db1 where g: "db_get_version db = (v, db1)" by fastforce
  note d1 = db_get_versionD [OF g]
  obtain ok2 db2 where st: "(if v = 0 then db_set_version db1 1 else (True, db1)) = (ok2, db2)"
    by fastforce
  have d2: "same_conn db1 db2 \<and> grown (db_tabs db1) (db_tabs db2)"
    using st db_set_versionD [of db1 1 ok2 db2] by (auto split: if_splits)
  have s1: "steady db1" "steady db2"
    using d1 d2 s same_conn_steady [of db db1] same_conn_steady [of db1 db2] by simp_all
  define cur where "cur = (if v = 0 then 1 else v)"
  have "(if db_null db then (False, db) else if v < 0 then (False, db1)
      else if \<not> ok2 then (False, db2) else if cur \<ge> SSM_SCHEMA_VERSION then (True, db2)
      else migrate_loop migrations cur db2) = (ok, db')"
    using assms(1) unfolding db_migrate_def g prod.case st Let_def cur_def by simp
  then consider "db' = db" | "db' = db1" | "db' = db2" | "migrate_loop migrations cur db2 = (ok, db')"
    by (auto split: if_splits)
  then show ?thesis
  proof cases
    case 4
    from migrate_loop_steady [OF this s1(2)] show ?thesis using d1 d2 grown_trans by auto
  qed (use s s1 d1 d2 in auto)
qed

end
