(* ===== verification/Vault_Api.thy ===== *)
theory Vault_Api
  imports Kek Users_Table Audit_Log Migrations
begin

section \<open>The handle and its operations (\<open>src/ssm.cc\<close>)\<close>

text \<open>
  The operations of the public header on an open handle: users, secrets, passwords, KEK rotation, the
  audit log, the schema. An operation takes the handle's state and answers its status, what it wrote
  through its output pointers, and the new state. Pointers that may be null are options; C strings are
  character lists without the terminating NUL. A null handle is dealt with by \<open>api_call\<close>. The mutex
  of the handle makes the operations of several threads a sequence; the ones that take it shared
  (statistics, query, version, migrate) are steps of the same sequence here.
\<close>

record vault =
  v_db :: sqlite
  v_path :: string
  v_cache :: cache
  v_mach :: machine

subsection \<open>Passwords, user names, the audit log\<close>

type_synonym validator = "string \<Rightarrow> ssm_status"

definition default_password_validator :: "string option \<Rightarrow> ssm_status" where
  "default_password_validator password =
     (case password of
        None \<Rightarrow> SSM_ERR_INTERNAL
      | Some p \<Rightarrow> if length p < 4 then SSM_ERR_INTERNAL else SSM_OK)"

text \<open>The global the library keeps; a null validator restores the default.\<close>

definition ssm_set_password_validator :: "validator option \<Rightarrow> validator" where
  "ssm_set_password_validator validator =
     (case validator of None \<Rightarrow> (\<lambda>p. default_password_validator (Some p)) | Some f \<Rightarrow> f)"

definition is_valid_username :: "string option \<Rightarrow> bool" where
  "is_valid_username username =
     (case username of
        None \<Rightarrow> False
      | Some u \<Rightarrow> if u = [] then False else length u \<le> SSM_USERNAME_MAX)"

definition detail_ok :: "string option" where
  "detail_ok = Some ''{\"status\":\"ok\"}''"

definition detail_error :: "string \<Rightarrow> string option" where
  "detail_error what = Some (''{\"error\":\"'' @ what @ ''\"}'')"

definition log_audit ::
  "string \<Rightarrow> int \<Rightarrow> string \<Rightarrow> ssm_status \<Rightarrow> string option \<Rightarrow> string option \<Rightarrow> vault \<Rightarrow> vault" where
  "log_audit username user_id operation result target details v =
     v\<lparr>v_db := audit_write (m_now (v_mach v)) (v_db v) (Some username) user_id operation result target
                details\<rparr>"

subsection \<open>Users\<close>

text \<open>\<open>ssm_user_register\<close> from the point where the name is known to be free.\<close>

definition register_new :: "provider \<Rightarrow> string \<Rightarrow> string \<Rightarrow> vault \<Rightarrow> ssm_status \<times> vault" where
  "register_new cr u p v =
     (let (hash_buf :: bytes option, m1) = secure_vector_new 1 crypto_pwhash_STRBYTES (v_mach v);
          (hash, m2) = argon2id_hash cr (bytes_of_string p) (vec_size hash_buf) m1;
          v1 = v\<lparr>v_mach := m2\<rparr>
      in case hash of
           None \<Rightarrow> (SSM_ERR_INTERNAL, v1)
         | Some h \<Rightarrow>
             (case users_create (m_now m2) (v_db v1) u h of
                (None, db1) \<Rightarrow> (SSM_ERR_INTERNAL, v1\<lparr>v_db := db1\<rparr>)
              | (Some user_id, db1) \<Rightarrow>
                  (let (gen, m3) = kek_generate cr (vec_data h) KEK_SALT_LEN 24 m2;
                       v2 = v1\<lparr>v_db := db1, v_mach := m3\<rparr>
                   in case gen of
                        None \<Rightarrow> (SSM_ERR_INTERNAL, v2)
                      | Some (wrapped, salt, expires_at) \<Rightarrow>
                          (let (ok, db2) = kek_store db1 user_id (Some wrapped) (Some salt)
                                             (Some expires_at);
                               v3 = v2\<lparr>v_db := db2\<rparr>
                           in if \<not> ok then (SSM_ERR_INTERNAL, v3)
                              else (SSM_OK,
                                    log_audit u user_id ''user_register'' SSM_OK None detail_ok v3)))))"

definition ssm_user_register ::
  "provider \<Rightarrow> validator \<Rightarrow> string option \<Rightarrow> string option \<Rightarrow> vault \<Rightarrow> ssm_status \<times> vault" where
  "ssm_user_register cr vd username password v =
     (case (username, password) of
        (Some u, Some p) \<Rightarrow>
          (if \<not> is_valid_username username then (SSM_ERR_INTERNAL, v)
           else if vd p \<noteq> SSM_OK then (vd p, v)
           else (case users_find_by_username (v_db v) u of
                   (Some existing, db1) \<Rightarrow>
                     (SSM_OK, log_audit u 0 ''user_register'' SSM_OK None detail_ok (v\<lparr>v_db := db1\<rparr>))
                 | (None, db1) \<Rightarrow> register_new cr u p (v\<lparr>v_db := db1\<rparr>)))
      | _ \<Rightarrow> (SSM_ERR_INTERNAL, v))"

text \<open>The result pointer comes with what it points to.\<close>

definition ssm_user_authenticate ::
  "provider \<Rightarrow> string option \<Rightarrow> string option \<Rightarrow> int option \<Rightarrow> vault
   \<Rightarrow> ssm_status \<times> int option \<times> vault" where
  "ssm_user_authenticate cr username password is_valid v =
     (case (username, password, is_valid) of
        (Some u, Some p, Some _) \<Rightarrow>
          (if \<not> is_valid_username username then (SSM_ERR_INTERNAL, is_valid, v)
           else (case users_find_by_username (v_db v) u of
                   (None, db1) \<Rightarrow>
                     (SSM_OK, Some 0, log_audit u 0 ''user_authenticate'' SSM_ERR_AUTH None
                        (detail_error ''user not found'') (v\<lparr>v_db := db1\<rparr>))
                 | (Some user, db1) \<Rightarrow>
                     (let pw_ok = argon2id_verify cr (bytes_of_string p) (ur_password_hash user)
                      in (SSM_OK, Some (if pw_ok then 1 else 0),
                          log_audit u (ur_id user) ''user_authenticate''
                            (if pw_ok then SSM_OK else SSM_ERR_AUTH) None
                            (if pw_ok then detail_ok else detail_error ''password mismatch'')
                            (v\<lparr>v_db := db1\<rparr>)))))
      | _ \<Rightarrow> (SSM_ERR_INTERNAL, is_valid, v))"

definition ssm_user_delete ::
  "provider \<Rightarrow> string option \<Rightarrow> string option \<Rightarrow> vault \<Rightarrow> ssm_status \<times> vault" where
  "ssm_user_delete cr username password v =
     (case (username, password) of
        (Some u, Some p) \<Rightarrow>
          (if \<not> is_valid_username username then (SSM_ERR_INTERNAL, v)
           else (case users_find_by_username (v_db v) u of
                   (None, db1) \<Rightarrow>
                     (SSM_ERR_AUTH, log_audit u 0 ''user_delete'' SSM_ERR_AUTH None
                        (detail_error ''user not found'') (v\<lparr>v_db := db1\<rparr>))
                 | (Some user, db1) \<Rightarrow>
                     (if \<not> argon2id_verify cr (bytes_of_string p) (ur_password_hash user)
                      then (SSM_ERR_AUTH, log_audit u (ur_id user) ''user_delete'' SSM_ERR_AUTH None
                              (detail_error ''password mismatch'') (v\<lparr>v_db := db1\<rparr>))
                      else (let (ok, db2) = users_delete db1 (ur_id user); v2 = v\<lparr>v_db := db2\<rparr>
                            in if \<not> ok then (SSM_ERR_INTERNAL, v2)
                               else (SSM_OK, log_audit u (ur_id user) ''user_delete'' SSM_OK None
                                       detail_ok v2)))))
      | _ \<Rightarrow> (SSM_ERR_INTERNAL, v))"

subsection \<open>Secrets\<close>

text \<open>
  The start of every operation on secrets: the user, the KEK row, the expiry. \<open>Inl\<close> is an early return.
\<close>

definition open_session ::
  "string \<Rightarrow> string \<Rightarrow> string option \<Rightarrow> vault
   \<Rightarrow> (ssm_status \<times> vault) + (user_row \<times> kek_row \<times> vault)" where
  "open_session operation u target v =
     (case users_find_by_username (v_db v) u of
        (None, db1) \<Rightarrow>
          Inl (SSM_ERR_AUTH, log_audit u 0 operation SSM_ERR_AUTH None
                 (detail_error ''user not found'') (v\<lparr>v_db := db1\<rparr>))
      | (Some user, db1) \<Rightarrow>
          (case kek_find_by_user db1 (ur_id user) of
             (None, db2) \<Rightarrow> Inl (SSM_ERR_INTERNAL, v\<lparr>v_db := db2\<rparr>)
           | (Some kek_meta, db2) \<Rightarrow>
               (let v2 = v\<lparr>v_db := db2\<rparr>
                in if kek_is_expired (m_now (v_mach v2)) (Some (kr_expires_at kek_meta))
                   then Inl (SSM_ERR_EXPIRED, log_audit u (ur_id user) operation SSM_ERR_EXPIRED target
                               (detail_error ''KEK expired'') v2)
                   else Inr (user, kek_meta, v2))))"

text \<open>The wrapping key, from the cache or derived and cached.\<close>

definition fetch_wrapping_key :: "provider \<Rightarrow> user_row \<Rightarrow> kek_row \<Rightarrow> vault \<Rightarrow> bytes option \<times> vault" where
  "fetch_wrapping_key cr user kek_meta v =
     (let now = m_now (v_mach v);
          (hit, c1) = cache_lookup now (ur_id user) (v_cache v);
          v1 = v\<lparr>v_cache := c1\<rparr>
      in case hit of
           Some k \<Rightarrow> (Some k, v1)
         | None \<Rightarrow>
             (case kek_derive_wrapping_key cr (vec_data (ur_password_hash user))
                     (vec_data (kr_salt kek_meta)) KEK_KEY_LEN of
                None \<Rightarrow> (None, v1)
              | Some k \<Rightarrow> (Some k, v1\<lparr>v_cache := cache_insert now (ur_id user) k c1\<rparr>)))"

text \<open>
  The two key buffers, the wrapping key and the KEK it unwraps; \<open>None\<close> is the \<open>SSM_ERR_INTERNAL\<close>
  return.
\<close>

definition load_kek :: "provider \<Rightarrow> user_row \<Rightarrow> kek_row \<Rightarrow> vault \<Rightarrow> bytes option \<times> vault" where
  "load_kek cr user kek_meta v =
     (let (ok, m1) = secure_buffers [KEK_KEY_LEN, KEK_KEY_LEN] (v_mach v); v1 = v\<lparr>v_mach := m1\<rparr>
      in if \<not> ok then (None, v1)
         else (let (wk, v2) = fetch_wrapping_key cr user kek_meta v1
               in (do {
                     k \<leftarrow> wk;
                     raw \<leftarrow> aes_kw_unwrap cr (vec_data (kr_wrapped_kek kek_meta)) (Some k);
                     Some (load_key raw)
                   }, v2)))"

definition store_details :: "nat \<Rightarrow> nat \<Rightarrow> string" where
  "store_details private_key_len public_key_len =
     take 127 (''{\"key_size\":'' @ decimal private_key_len @ '',\"has_pub\":''
       @ (if public_key_len > 0 then ''true'' else ''false'') @ ''}'')"

text \<open>The caller passes a private key of \<open>length\<close> bytes; the public key has its own length argument.\<close>

definition ssm_secret_store ::
  "provider \<Rightarrow> string option \<Rightarrow> bytes option \<Rightarrow> bytes option \<Rightarrow> nat \<Rightarrow> string option \<Rightarrow> string option
   \<Rightarrow> vault \<Rightarrow> ssm_status \<times> vault" where
  "ssm_secret_store cr username private_key public_key public_key_len name description v =
     (case (username, private_key, name) of
        (Some u, Some pk, Some n) \<Rightarrow>
          (if length pk = 0 then (SSM_ERR_INTERNAL, v)
           else (case open_session ''secret_store'' u (Some n) v of
              Inl r \<Rightarrow> r
            | Inr (user, kek_meta, v1) \<Rightarrow>
                (case load_kek cr user kek_meta v1 of
                   (None, v2) \<Rightarrow> (SSM_ERR_INTERNAL, v2)
                 | (Some kek, v2) \<Rightarrow>
                     (let (nonce, m3) = random_bytes AES_GCM_NONCE_LEN (v_mach v2);
                          (ciphertext, m4) = secure_vector_new 1 (length pk) m3;
                          v4 = v2\<lparr>v_mach := m4\<rparr>
                      in case aes_gcm_encrypt cr (Some pk) (length pk) (Some kek) (Some nonce) None
                                ciphertext AES_GCM_TAG_LEN of
                           None \<Rightarrow> (SSM_ERR_INTERNAL, v4)
                         | Some (sealed, tag) \<Rightarrow>
                             (let (ok, db5) = secrets_store (m_now m4) (v_db v4) (ur_id user) (Some n)
                                    (vec_data sealed) (if public_key_len > 0 then public_key else None)
                                    public_key_len (Some nonce) (Some tag) description;
                                  v5 = v4\<lparr>v_db := db5\<rparr>
                              in if \<not> ok then (SSM_ERR_INTERNAL, v5)
                                 else (SSM_OK, log_audit u (ur_id user) ''secret_store'' SSM_OK (Some n)
                                         (Some (store_details (length pk) public_key_len)) v5))))))
      | _ \<Rightarrow> (SSM_ERR_INTERNAL, v))"

text \<open>The four output pointers of \<open>ssm_secret_get\<close>, with what they point to before and after.\<close>

record key_out =
  go_private :: "bytes option"
  go_private_len :: "nat option"
  go_public :: "bytes option"
  go_public_len :: "nat option"

text \<open>\<open>memcpy\<close> of a block to the start of a buffer.\<close>

definition copy_to :: "bytes \<Rightarrow> bytes \<Rightarrow> bytes" where
  "copy_to src buf = src @ drop (length src) buf"

text \<open>Handing the public key out; \<open>False\<close> is the early return for a short buffer.\<close>

definition put_public :: "bytes \<Rightarrow> key_out \<Rightarrow> bool \<times> key_out" where
  "put_public public_key g =
     (case (go_public g, go_public_len g) of
        (Some buf, Some cap) \<Rightarrow>
          (if public_key \<noteq> []
           then (if cap \<ge> length public_key
                 then (True, g\<lparr>go_public := Some (copy_to public_key buf),
                               go_public_len := Some (length public_key)\<rparr>)
                 else (False, g\<lparr>go_public_len := Some (length public_key)\<rparr>))
           else (True, g\<lparr>go_public_len := Some 0\<rparr>))
      | _ \<Rightarrow> (True, g))"

text \<open>\<open>ssm_secret_get\<close> once the row and the KEK are there.\<close>

definition deliver_secret ::
  "provider \<Rightarrow> string \<Rightarrow> string \<Rightarrow> user_row \<Rightarrow> secret_row \<Rightarrow> bytes \<Rightarrow> key_out \<Rightarrow> vault
   \<Rightarrow> ssm_status \<times> key_out \<times> vault" where
  "deliver_secret cr u n user secret kek g v =
     (let len = length (sr_private_key secret)
      in if the (go_private_len g) < len
         then (SSM_ERR_INTERNAL, g\<lparr>go_private_len := Some len\<rparr>, v)
         else (let (plain_buf, m1) = secure_vector_new 1 len (v_mach v); v1 = v\<lparr>v_mach := m1\<rparr>
               in case aes_gcm_decrypt cr (vec_data (sr_private_key secret)) len (Some kek)
                         (vec_data (sr_nonce secret)) None (vec_data (sr_tag secret)) plain_buf of
                    None \<Rightarrow>
                      (SSM_ERR_INTEGRITY, g,
                       log_audit u (ur_id user) ''secret_get'' SSM_ERR_INTEGRITY (Some n)
                         (detail_error ''GCM integrity check failed'') v1)
                  | Some plain \<Rightarrow>
                      (let g1 = g\<lparr>go_private := map_option (copy_to (take len plain)) (go_private g),
                                  go_private_len := Some len\<rparr>;
                           (fits, g2) = put_public (sr_public_key secret) g1
                       in if \<not> fits then (SSM_ERR_INTERNAL, g2, v1)
                          else (SSM_OK, g2, log_audit u (ur_id user) ''secret_get'' SSM_OK (Some n)
                                  detail_ok v1))))"

definition ssm_secret_get ::
  "provider \<Rightarrow> string option \<Rightarrow> string option \<Rightarrow> key_out \<Rightarrow> vault \<Rightarrow> ssm_status \<times> key_out \<times> vault" where
  "ssm_secret_get cr username name g v =
     (case (username, name, go_private g, go_private_len g) of
        (Some u, Some n, Some _, Some _) \<Rightarrow>
          (case open_session ''secret_get'' u (Some n) v of
             Inl (st, v1) \<Rightarrow> (st, g, v1)
           | Inr (user, kek_meta, v1) \<Rightarrow>
               (case secrets_find (v_db v1) (ur_id user) (Some n) of
                  (None, db2) \<Rightarrow> (SSM_ERR_NOT_FOUND, g, v1\<lparr>v_db := db2\<rparr>)
                | (Some secret, db2) \<Rightarrow>
                    (case load_kek cr user kek_meta (v1\<lparr>v_db := db2\<rparr>) of
                       (None, v3) \<Rightarrow> (SSM_ERR_INTERNAL, g, v3)
                     | (Some kek, v3) \<Rightarrow> deliver_secret cr u n user secret kek g v3)))
      | _ \<Rightarrow> (SSM_ERR_INTERNAL, g, v))"

definition ssm_secret_delete :: "string option \<Rightarrow> string option \<Rightarrow> vault \<Rightarrow> ssm_status \<times> vault" where
  "ssm_secret_delete username name v =
     (case (username, name) of
        (Some u, Some n) \<Rightarrow>
          (case open_session ''secret_delete'' u (Some n) v of
             Inl r \<Rightarrow> r
           | Inr (user, kek_meta, v1) \<Rightarrow>
               (let (ok, db2) = secrets_delete (v_db v1) (ur_id user) (Some n); v2 = v1\<lparr>v_db := db2\<rparr>
                in if \<not> ok then (SSM_ERR_NOT_FOUND, v2)
                   else (SSM_OK, log_audit u (ur_id user) ''secret_delete'' SSM_OK (Some n) detail_ok v2)))
      | _ \<Rightarrow> (SSM_ERR_INTERNAL, v))"

text \<open>
  The operations that report through a callback answer the list of the calls they make, in order; the
  flag says whether a callback was given.
\<close>

definition ssm_secret_list ::
  "string option \<Rightarrow> bool \<Rightarrow> vault \<Rightarrow> ssm_status \<times> (string \<times> string \<times> string \<times> nat) list \<times> vault" where
  "ssm_secret_list username callback v =
     (case username of
        None \<Rightarrow> (SSM_ERR_INTERNAL, [], v)
      | Some u \<Rightarrow>
          (if \<not> callback then (SSM_ERR_INTERNAL, [], v)
           else (case open_session ''secret_list'' u None v of
                   Inl (st, v1) \<Rightarrow> (st, [], v1)
                 | Inr (user, kek_meta, v1) \<Rightarrow>
                     (case secrets_list_for_user (v_db v1) (ur_id user) of
                        (None, db2) \<Rightarrow> (SSM_ERR_INTERNAL, [], v1\<lparr>v_db := db2\<rparr>)
                      | (Some rows, db2) \<Rightarrow>
                          (SSM_OK,
                           map (\<lambda>s. (sr_name s, sr_description s, sr_updated_at s,
                                     length (sr_public_key s))) rows,
                           log_audit u (ur_id user) ''secret_list'' SSM_OK None detail_ok
                             (v1\<lparr>v_db := db2\<rparr>))))))"

definition ssm_audit_log_query ::
  "string option \<Rightarrow> string option \<Rightarrow> string option \<Rightarrow> int \<Rightarrow> int \<Rightarrow> bool \<Rightarrow> vault
   \<Rightarrow> ssm_status \<times> audit_entry list \<times> vault" where
  "ssm_audit_log_query username operation result limit offset callback v =
     (if \<not> callback then (SSM_ERR_INTERNAL, [], v)
      else (case audit_log_query (v_db v) username operation result
                   (if limit \<le> 0 then 100 else limit) (if offset < 0 then 0 else offset) of
              (None, db1) \<Rightarrow> (SSM_ERR_INTERNAL, [], v\<lparr>v_db := db1\<rparr>)
            | (Some entries, db1) \<Rightarrow> (SSM_OK, entries, v\<lparr>v_db := db1\<rparr>)))"

subsection \<open>Passwords and rotation\<close>

text \<open>
  The \<open>do\<close> block of \<open>ssm_user_change_password\<close> between \<open>BEGIN IMMEDIATE\<close> and \<open>COMMIT\<close>: the KEK is
  unwrapped with the old hash and wrapped again with the new one, under the same salt.
\<close>

definition change_password_body ::
  "provider \<Rightarrow> user_row \<Rightarrow> bytes \<Rightarrow> sqlite \<Rightarrow> machine \<Rightarrow> bool \<times> sqlite \<times> machine" where
  "change_password_body cr user new_hash db m =
     (let (user_ok, db1) = update_password_hash db (ur_id user) new_hash
      in if \<not> user_ok then (False, db1, m)
         else (case kek_find_by_user db1 (ur_id user) of
                 (None, db2) \<Rightarrow> (False, db2, m)
               | (Some kek_meta, db2) \<Rightarrow>
                   (let (bufs, m1) = secure_buffers [KEK_KEY_LEN, 64, KEK_KEY_LEN] m
                    in if \<not> bufs then (False, db2, m1)
                       else (let (kek_raw, m2) = kek_unwrap cr (vec_data (kr_wrapped_kek kek_meta))
                                   (vec_data (ur_password_hash user)) (vec_data (kr_salt kek_meta)) m1
                             in case do {
                                    k \<leftarrow> kek_raw;
                                    wk \<leftarrow> kek_derive_wrapping_key cr (vec_data new_hash)
                                           (vec_data (kr_salt kek_meta)) KEK_KEY_LEN;
                                    aes_kw_wrap cr (Some k) (Some wk)
                                  } of
                                  None \<Rightarrow> (False, db2, m2)
                                | Some wrapped \<Rightarrow>
                                    (let (kek_ok, db3) = update_wrapped_kek db2 (ur_id user) wrapped
                                     in (kek_ok, db3, m2))))))"

definition change_password_in_transaction ::
  "provider \<Rightarrow> string \<Rightarrow> user_row \<Rightarrow> bytes \<Rightarrow> vault \<Rightarrow> ssm_status \<times> vault" where
  "change_password_in_transaction cr u user new_hash v =
     (let (ok, db1, m1) = change_password_body cr user new_hash (snd (exec_begin (v_db v))) (v_mach v);
          (result, v1) =
            (if ok then (SSM_OK, v\<lparr>v_db := snd (exec_commit db1), v_mach := m1,
                                   v_cache := cache_invalidate (ur_id user) (v_cache v)\<rparr>)
             else (SSM_ERR_INTERNAL, v\<lparr>v_db := exec_rollback db1, v_mach := m1\<rparr>))
      in (result, log_audit u (ur_id user) ''user_change_password'' result None
                    (if result = SSM_OK then detail_ok else None) v1))"

definition ssm_user_change_password ::
  "provider \<Rightarrow> validator \<Rightarrow> string option \<Rightarrow> string option \<Rightarrow> string option \<Rightarrow> vault
   \<Rightarrow> ssm_status \<times> vault" where
  "ssm_user_change_password cr vd username old_password new_password v =
     (case (username, old_password, new_password) of
        (Some u, Some p, Some q) \<Rightarrow>
          (if \<not> is_valid_username username then (SSM_ERR_INTERNAL, v)
           else if vd q \<noteq> SSM_OK then (vd q, v)
           else (case users_find_by_username (v_db v) u of
                   (None, db1) \<Rightarrow>
                     (SSM_ERR_AUTH, log_audit u 0 ''user_change_password'' SSM_ERR_AUTH None
                        (detail_error ''user not found'') (v\<lparr>v_db := db1\<rparr>))
                 | (Some user, db1) \<Rightarrow>
                     (if \<not> argon2id_verify cr (bytes_of_string p) (ur_password_hash user)
                      then (SSM_ERR_AUTH, log_audit u (ur_id user) ''user_change_password'' SSM_ERR_AUTH
                              None (detail_error ''password mismatch'') (v\<lparr>v_db := db1\<rparr>))
                      else (let (hash_buf :: bytes option, m1) =
                                  secure_vector_new 1 crypto_pwhash_STRBYTES (v_mach v);
                                (new_hash, m2) = argon2id_hash cr (bytes_of_string q) (vec_size hash_buf) m1;
                                v2 = v\<lparr>v_db := db1, v_mach := m2\<rparr>
                            in case new_hash of
                                 None \<Rightarrow> (SSM_ERR_INTERNAL, v2)
                               | Some h \<Rightarrow> change_password_in_transaction cr u user h v2))))
      | _ \<Rightarrow> (SSM_ERR_INTERNAL, v))"

definition ssm_kek_rotate :: "provider \<Rightarrow> string option \<Rightarrow> vault \<Rightarrow> ssm_status \<times> vault" where
  "ssm_kek_rotate cr username v =
     (case username of
        None \<Rightarrow> (SSM_ERR_INTERNAL, v)
      | Some u \<Rightarrow>
          (case users_find_by_username (v_db v) u of
             (None, db1) \<Rightarrow>
               (SSM_ERR_AUTH, log_audit u 0 ''kek_rotate'' SSM_ERR_AUTH None
                  (detail_error ''user not found'') (v\<lparr>v_db := db1\<rparr>))
           | (Some user, db1) \<Rightarrow>
               (let (ok, db2, m2) = kek_rotate cr db1 (ur_id user) (vec_data (ur_password_hash user))
                                      (v_mach v);
                    v2 = v\<lparr>v_db := db2, v_mach := m2\<rparr>
                in if \<not> ok
                   then (SSM_ERR_INTERNAL, log_audit u (ur_id user) ''kek_rotate'' SSM_ERR_INTERNAL None
                           (detail_error ''KEK rotation failed'') v2)
                   else (SSM_OK, log_audit u (ur_id user) ''kek_rotate'' SSM_OK (Some u) detail_ok
                           (v2\<lparr>v_cache := cache_invalidate (ur_id user) (v_cache v2)\<rparr>)))))"

subsection \<open>Statistics and the schema\<close>

definition ssm_cache_get_stats ::
  "ssm_cache_stats option \<Rightarrow> vault \<Rightarrow> ssm_status \<times> ssm_cache_stats option \<times> vault" where
  "ssm_cache_get_stats out v =
     (case out of None \<Rightarrow> (SSM_ERR_INTERNAL, None, v)
      | Some _ \<Rightarrow> (SSM_OK, Some (cache_stats (v_cache v)), v))"

definition ssm_db_version :: "int option \<Rightarrow> vault \<Rightarrow> ssm_status \<times> int option \<times> vault" where
  "ssm_db_version out v =
     (case out of None \<Rightarrow> (SSM_ERR_INTERNAL, None, v)
      | Some old \<Rightarrow>
          (let (n, db1) = db_get_version (v_db v); v1 = v\<lparr>v_db := db1\<rparr>
           in if n < 0 then (SSM_ERR_INTERNAL, Some old, v1) else (SSM_OK, Some n, v1)))"

definition ssm_db_migrate :: "vault \<Rightarrow> ssm_status \<times> vault" where
  "ssm_db_migrate v =
     (let (ok, db1) = db_migrate (v_db v)
      in (if ok then SSM_OK else SSM_ERR_INTERNAL, v\<lparr>v_db := db1\<rparr>))"

subsection \<open>The interface as a whole\<close>

datatype call =
    Register "string option" "string option"
  | Authenticate "string option" "string option" "int option"
  | Delete_User "string option" "string option"
  | Change_Password "string option" "string option" "string option"
  | Rotate "string option"
  | Store "string option" "bytes option" "bytes option" nat "string option" "string option"
  | Get "string option" "string option" key_out
  | Delete "string option" "string option"
  | List_Secrets "string option" bool
  | Query_Audit "string option" "string option" "string option" int int bool
  | Cache_Stats "ssm_cache_stats option"
  | Db_Version "int option"
  | Db_Migrate

datatype reply =
    Plain ssm_status
  | Valid ssm_status "int option"
  | Keys ssm_status key_out
  | Names ssm_status "(string \<times> string \<times> string \<times> nat) list"
  | Entries ssm_status "audit_entry list"
  | Stats ssm_status "ssm_cache_stats option"
  | Number ssm_status "int option"

definition run_call :: "provider \<Rightarrow> validator \<Rightarrow> call \<Rightarrow> vault \<Rightarrow> reply \<times> vault" where
  "run_call cr vd c v =
     (case c of
        Register u p \<Rightarrow> map_prod Plain id (ssm_user_register cr vd u p v)
      | Authenticate u p i \<Rightarrow>
          (let (st, i', v') = ssm_user_authenticate cr u p i v in (Valid st i', v'))
      | Delete_User u p \<Rightarrow> map_prod Plain id (ssm_user_delete cr u p v)
      | Change_Password u p q \<Rightarrow> map_prod Plain id (ssm_user_change_password cr vd u p q v)
      | Rotate u \<Rightarrow> map_prod Plain id (ssm_kek_rotate cr u v)
      | Store u pk pub publen n d \<Rightarrow> map_prod Plain id (ssm_secret_store cr u pk pub publen n d v)
      | Get u n g \<Rightarrow> (let (st, g', v') = ssm_secret_get cr u n g v in (Keys st g', v'))
      | Delete u n \<Rightarrow> map_prod Plain id (ssm_secret_delete u n v)
      | List_Secrets u cb \<Rightarrow> (let (st, xs, v') = ssm_secret_list u cb v in (Names st xs, v'))
      | Query_Audit u op res limit offset cb \<Rightarrow>
          (let (st, xs, v') = ssm_audit_log_query u op res limit offset cb v in (Entries st xs, v'))
      | Cache_Stats out \<Rightarrow> (let (st, s, v') = ssm_cache_get_stats out v in (Stats st s, v'))
      | Db_Version out \<Rightarrow> (let (st, i, v') = ssm_db_version out v in (Number st i, v'))
      | Db_Migrate \<Rightarrow> map_prod Plain id (ssm_db_migrate v))"

text \<open>Every function starts with \<open>if (!h ...) return SSM_ERR_INTERNAL\<close>, before any output.\<close>

definition null_reply :: "call \<Rightarrow> reply" where
  "null_reply c =
     (case c of
        Authenticate u p i \<Rightarrow> Valid SSM_ERR_INTERNAL i
      | Get u n g \<Rightarrow> Keys SSM_ERR_INTERNAL g
      | List_Secrets u cb \<Rightarrow> Names SSM_ERR_INTERNAL []
      | Query_Audit u op res limit offset cb \<Rightarrow> Entries SSM_ERR_INTERNAL []
      | Cache_Stats out \<Rightarrow> Stats SSM_ERR_INTERNAL out
      | Db_Version out \<Rightarrow> Number SSM_ERR_INTERNAL out
      | _ \<Rightarrow> Plain SSM_ERR_INTERNAL)"

definition api_call :: "provider \<Rightarrow> validator \<Rightarrow> call \<Rightarrow> vault option \<Rightarrow> reply \<times> vault option" where
  "api_call cr vd c h =
     (case h of None \<Rightarrow> (null_reply c, None)
      | Some v \<Rightarrow> map_prod id Some (run_call cr vd c v))"

end
