(* ===== verification/Vault_Spec.thy ===== *)
theory Vault_Spec
  imports Vault_Api
begin

section \<open>The invariant of a handle and what its operations promise\<close>

text \<open>
  \<open>vault_ok\<close>: the connection is usable, the tables are well-formed, and every key in the cache is the
  wrapping key the database gives for that user. It is kept by every operation, whatever statement,
  row fetch or allocation fails (\<open>BEGIN\<close> and \<open>COMMIT\<close> excepted), so the cache never shows.
\<close>

definition wrapping_key_of :: "provider \<Rightarrow> tables \<Rightarrow> int \<Rightarrow> bytes \<Rightarrow> bool" where
  "wrapping_key_of cr t u k \<longleftrightarrow> u \<le> t_user_seq t
     \<and> (\<forall>r \<in> set (t_users t). u_id r = u \<longrightarrow>
          (\<exists>kr. find_kek u t = Some kr
             \<and> kek_derive_wrapping_key cr (vec_data (u_password_hash r)) (vec_data (k_salt kr))
                 KEK_KEY_LEN = Some k))"

definition coherent :: "provider \<Rightarrow> vault \<Rightarrow> bool" where
  "coherent cr v \<longleftrightarrow>
     (\<forall>u k. cached (v_cache v) u = Some k \<longrightarrow> wrapping_key_of cr (db_tabs (v_db v)) u k)"

definition vault_ok :: "provider \<Rightarrow> vault \<Rightarrow> bool" where
  "vault_ok cr v \<longleftrightarrow> steady (v_db v) \<and> wf_tables (db_tabs (v_db v)) \<and> cache_ok (v_cache v)
     \<and> coherent cr v"

subsection \<open>Changes of the database that keep it\<close>

text \<open>Tables that agree on users and KEKs.\<close>

definition same_keys :: "tables \<Rightarrow> tables \<Rightarrow> bool" where
  "same_keys t t' \<longleftrightarrow> t_users t' = t_users t \<and> t_keks t' = t_keks t \<and> t_user_seq t' = t_user_seq t"

lemma same_keys_wrapping: "same_keys t t' \<Longrightarrow> wrapping_key_of cr t' u k = wrapping_key_of cr t u k"
  by (simp add: same_keys_def wrapping_key_of_def find_kek_def)

lemma same_keys_refl [simp]: "same_keys t t"
  by (simp add: same_keys_def)

lemma same_but_audit_keys: "same_but_audit t t' \<Longrightarrow> same_keys t t'"
  by (simp add: same_keys_def same_but_auditD)

lemma vault_ok_db:
  assumes "vault_ok cr v" and "same_conn (v_db v) db'" and "same_keys (db_tabs (v_db v)) (db_tabs db')"
    and "wf_tables (db_tabs db')"
  shows "vault_ok cr (v\<lparr>v_db := db'\<rparr>)"
  using assms by (simp add: vault_ok_def coherent_def same_keys_wrapping same_conn_steady)

lemma vault_ok_mach [simp]: "vault_ok cr (v\<lparr>v_mach := m\<rparr>) = vault_ok cr v"
  by (simp add: vault_ok_def coherent_def)

lemma vault_ok_D:
  assumes "vault_ok cr v"
  shows "steady (v_db v)" "wf_tables (db_tabs (v_db v))" "cache_ok (v_cache v)" "coherent cr v"
  using assms by (simp_all add: vault_ok_def)

text \<open>Reading the database: same tables, same connection.\<close>

lemma vault_ok_read:
  assumes "vault_ok cr v" and "same_conn (v_db v) db'" and "db_tabs db' = db_tabs (v_db v)"
  shows "vault_ok cr (v\<lparr>v_db := db'\<rparr>)"
  using assms vault_ok_db [OF assms(1,2)] vault_ok_D(2) [OF assms(1)] by simp

lemma log_audit_ok: "vault_ok cr v \<Longrightarrow> vault_ok cr (log_audit u i op st tgt det v)"
  unfolding log_audit_def
  by (rule vault_ok_db) (simp_all add: same_but_audit_keys vault_ok_D)

lemma log_audit_frame [simp]:
  "v_cache (log_audit u i op st tgt det v) = v_cache v"
  "v_mach (log_audit u i op st tgt det v) = v_mach v"
  "v_path (log_audit u i op st tgt det v) = v_path v"
  "same_but_audit (db_tabs (v_db v)) (db_tabs (v_db (log_audit u i op st tgt det v)))"
  "same_conn (v_db v) (v_db (log_audit u i op st tgt det v))"
  "fl_row (v_db (log_audit u i op st tgt det v)) = fl_row (v_db v)"
  by (simp_all add: log_audit_def)

subsection \<open>Finding the user and the KEK\<close>

text \<open>\<open>session\<close>: the two rows are the ones the tables hold for the user.\<close>

definition session :: "tables \<Rightarrow> string \<Rightarrow> user_row \<Rightarrow> kek_row \<Rightarrow> bool" where
  "session t u user kek_meta \<longleftrightarrow>
     (\<exists>r kr. find_user u t = Some r \<and> find_kek (u_id r) t = Some kr
        \<and> user = \<lparr>ur_id = u_id r, ur_password_hash = u_password_hash r\<rparr> \<and> kek_meta = read_kek_row kr)"

lemma open_session_cases:
  assumes "vault_ok cr v"
  shows "case open_session op u tgt v of
      Inl (st, v') \<Rightarrow> st \<noteq> SSM_OK \<and> vault_ok cr v'
        \<and> same_but_audit (db_tabs (v_db v)) (db_tabs (v_db v')) \<and> v_cache v' = v_cache v
    | Inr (user, kek_meta, v') \<Rightarrow> session (db_tabs (v_db v)) u user kek_meta \<and> vault_ok cr v'
        \<and> db_tabs (v_db v') = db_tabs (v_db v) \<and> v_cache v' = v_cache v \<and> v_mach v' = v_mach v
        \<and> v_path v' = v_path v
        \<and> \<not> kek_is_expired (m_now (v_mach v)) (Some (kr_expires_at kek_meta))
        \<and> fl_row (v_db v') = fl_row (v_db v)"
proof -
  obtain uo db1 where f: "users_find_by_username (v_db v) u = (uo, db1)" by fastforce
  have d1: "same_conn (v_db v) db1" "db_tabs db1 = db_tabs (v_db v)" "fl_row db1 = fl_row (v_db v)"
    using users_find_frame [of "v_db v" u] f by simp_all
  note ok1 = vault_ok_read [OF assms d1(1,2)]
  show ?thesis
  proof (cases uo)
    case None
    have "same_but_audit (db_tabs (v_db (v\<lparr>v_db := db1\<rparr>)))
        (db_tabs (v_db (log_audit u 0 op SSM_ERR_AUTH None (detail_error ''user not found'') (v\<lparr>v_db := db1\<rparr>))))"
      by (rule log_audit_frame)
    then show ?thesis using None f d1 log_audit_ok [OF ok1] by (simp add: open_session_def)
  next
    case (Some user)
    obtain ko db2 where k: "kek_find_by_user db1 (ur_id user) = (ko, db2)" by fastforce
    have d2: "same_conn (v_db v) db2" "db_tabs db2 = db_tabs (v_db v)" "fl_row db2 = fl_row (v_db v)"
      using kek_find_frame [of db1 "ur_id user"] k d1 same_conn_trans [OF d1(1), of db2] by simp_all
    note ok2 = vault_ok_read [OF assms d2(1,2)]
    show ?thesis
    proof (cases ko)
      case None
      then show ?thesis using Some f k ok2 d2 by (simp add: open_session_def)
    next
      case (Some km)
      have s: "session (db_tabs (v_db v)) u user km"
        using users_find_Some [of "v_db v" u user db1] kek_find_Some [of db1 "ur_id user" km db2]
          f k d1 \<open>uo = Some user\<close> Some by (auto simp: session_def)
      have "same_but_audit (db_tabs (v_db (v\<lparr>v_db := db2\<rparr>)))
        (db_tabs (v_db (log_audit u (ur_id user) op SSM_ERR_EXPIRED tgt (detail_error ''KEK expired'')
           (v\<lparr>v_db := db2\<rparr>))))" by (rule log_audit_frame)
      then show ?thesis
        using \<open>uo = Some user\<close> Some f k d2 s ok2 log_audit_ok [OF ok2]
        by (simp add: open_session_def Let_def)
    qed
  qed
qed

subsection \<open>Loading a KEK through the cache\<close>

lemma fetch_wrapping_key_cases:
  assumes ok: "vault_ok cr v" and law: "lawful cr"
    and s: "find_user u (db_tabs (v_db v)) = Some r" "find_kek (u_id r) (db_tabs (v_db v)) = Some kr"
    and run: "fetch_wrapping_key cr \<lparr>ur_id = u_id r, ur_password_hash = u_password_hash r\<rparr>
                (read_kek_row kr) v = (res, v')"
  shows "res = kek_derive_wrapping_key cr (vec_data (u_password_hash r)) (vec_data (k_salt kr))
           KEK_KEY_LEN \<and> vault_ok cr v' \<and> (\<exists>c. v' = v\<lparr>v_cache := c\<rparr>)"
proof -
  let ?t = "db_tabs (v_db v)" and ?now = "m_now (v_mach v)"
  let ?wk = "kek_derive_wrapping_key cr (vec_data (u_password_hash r)) (vec_data (k_salt kr)) KEK_KEY_LEN"
  obtain c1 where hit: "cache_lookup ?now (u_id r) (v_cache v) = (cached (v_cache v) (u_id r), c1)"
    by (metis cache_lookup_fst prod.collapse)
  have c1: "cache_ok c1" "cached c1 w = cached (v_cache v) w" for w
    using cache_lookup_ok [OF vault_ok_D(3) [OF ok], of ?now "u_id r"]
      cached_lookup [of ?now "u_id r" "v_cache v" w] hit by simp_all
  have r: "r \<in> set (t_users ?t)" using find_user_Some [OF s(1)] by blast
  have users: "users_ok ?t" using vault_ok_D(2) [OF ok] by (simp add: wf_tables_def)
  have base: "wrapping_key_of cr ?t w k" if "cached (v_cache v) w = Some k" for w k
    using that vault_ok_D(4) [OF ok] by (simp add: coherent_def)
  have result: "vault_ok cr (v\<lparr>v_cache := c\<rparr>)"
    if "cache_ok c" "\<And>w k. cached c w = Some k \<Longrightarrow> wrapping_key_of cr ?t w k" for c
    using ok that by (simp add: vault_ok_def coherent_def)
  have sel: "ur_id \<lparr>ur_id = u_id r, ur_password_hash = u_password_hash r\<rparr> = u_id r"
    "ur_password_hash \<lparr>ur_id = u_id r, ur_password_hash = u_password_hash r\<rparr> = u_password_hash r"
    "kr_salt (read_kek_row kr) = k_salt kr" by (simp_all add: read_kek_row_def)
  note run1 = run [unfolded fetch_wrapping_key_def Let_def sel hit prod.case]
  show ?thesis
  proof (cases "cached (v_cache v) (u_id r)")
    case (Some k)
    then have "?wk = Some k" using base [OF Some] s(2) r by (auto simp: wrapping_key_of_def)
    moreover have "res = Some k" "v' = v\<lparr>v_cache := c1\<rparr>" using run1 Some by simp_all
    ultimately show ?thesis using result [OF c1(1)] c1(2) base by auto
  next
    case None
    show ?thesis
    proof (cases ?wk)
      case None
      then have "res = None" "v' = v\<lparr>v_cache := c1\<rparr>"
        using run1 \<open>cached (v_cache v) (u_id r) = None\<close> by simp_all
      then show ?thesis using None result [OF c1(1)] c1(2) base by auto
    next
      case (Some k)
      have lk: "length k = KEK_KEY_LEN" by (rule kek_derive_length [OF law Some])
      have n: "cached c1 (u_id r) = None" using None c1 by simp
      have truth: "wrapping_key_of cr ?t (u_id r) k"
        using Some s(2) users same_id_same_user [OF users _ r] r
        by (auto simp: wrapping_key_of_def users_ok_def)
      let ?c2 = "cache_insert ?now (u_id r) k c1"
      have "wrapping_key_of cr ?t w k'" if "cached ?c2 w = Some k'" for w k'
        by (rule keys.agree_insert [OF c1(1) n lk, where truth = "wrapping_key_of cr ?t"])
          (use base c1 truth that in auto)
      moreover have "res = Some k" "v' = v\<lparr>v_cache := ?c2\<rparr>" using run1 None Some by simp_all
      ultimately show ?thesis using Some result [OF keys.insert_ok [OF c1(1) n lk]] by auto
    qed
  qed
qed

lemma load_kek_cases:
  assumes ok: "vault_ok cr v" and law: "lawful cr"
    and s: "find_user u (db_tabs (v_db v)) = Some r" "find_kek (u_id r) (db_tabs (v_db v)) = Some kr"
    and run: "load_kek cr \<lparr>ur_id = u_id r, ur_password_hash = u_password_hash r\<rparr> (read_kek_row kr) v
                = (res, v')"
  shows "vault_ok cr v' \<and> v_db v' = v_db v \<and> v_path v' = v_path v \<and> m_now (v_mach v') = m_now (v_mach v)
    \<and> m_rand (v_mach v') = m_rand (v_mach v)"
    and "res = Some k \<Longrightarrow> kek_open cr (u_password_hash r) kr = Some k"
    and "m_alloc (v_mach v) = [] \<Longrightarrow> res = kek_open cr (u_password_hash r) kr \<and> v_mach v' = v_mach v"
proof -
  let ?user = "\<lparr>ur_id = u_id r, ur_password_hash = u_password_hash r\<rparr>"
  obtain bo m1 where b: "secure_buffers [KEK_KEY_LEN, KEK_KEY_LEN] (v_mach v) = (bo, m1)" by fastforce
  have m1: "m_now m1 = m_now (v_mach v)" "m_rand m1 = m_rand (v_mach v)"
    using secure_buffers_frame [of "[KEK_KEY_LEN, KEK_KEY_LEN]" "v_mach v"] b by simp_all
  obtain wk v2 where f: "fetch_wrapping_key cr ?user (read_kek_row kr) (v\<lparr>v_mach := m1\<rparr>) = (wk, v2)"
    by fastforce
  have "vault_ok cr (v\<lparr>v_mach := m1\<rparr>)" using ok by simp
  note fc = fetch_wrapping_key_cases [OF this law, of u r kr wk v2, simplified, OF s f]
  have kw: "kr_wrapped_kek (read_kek_row kr) = k_wrapped_kek kr" by (simp add: read_kek_row_def)
  have res: "res = (if bo then kek_open cr (u_password_hash r) kr else None)"
    "v' = (if bo then v2 else v\<lparr>v_mach := m1\<rparr>)"
    using run fc unfolding load_kek_def b Let_def prod.case f kw kek_open_def by (auto split: if_splits)
  show "vault_ok cr v' \<and> v_db v' = v_db v \<and> v_path v' = v_path v
      \<and> m_now (v_mach v') = m_now (v_mach v) \<and> m_rand (v_mach v') = m_rand (v_mach v)"
    using res(2) fc ok m1 by auto
  show "res = Some k \<Longrightarrow> kek_open cr (u_password_hash r) kr = Some k"
    using res(1) by (auto split: if_splits)
  show "res = kek_open cr (u_password_hash r) kr \<and> v_mach v' = v_mach v" if "m_alloc (v_mach v) = []"
    using res fc b that by (auto simp: KEK_KEY_LEN_def)
qed

subsection \<open>Every operation keeps the invariant\<close>

lemma vault_ok_change:
  assumes "vault_ok cr v" and "same_conn (v_db v) db'" and "wf_tables (db_tabs db')"
    and "\<And>w k. wrapping_key_of cr (db_tabs (v_db v)) w k \<Longrightarrow> wrapping_key_of cr (db_tabs db') w k"
  shows "vault_ok cr (v\<lparr>v_db := db'\<rparr>)"
  using assms by (simp add: vault_ok_def coherent_def same_conn_steady)

lemma wrapping_key_insert_user:
  assumes "insert_user now u h t = Some (t', i)" and "wrapping_key_of cr t w k"
  shows "wrapping_key_of cr t' w k"
  using insert_user_eq [OF assms(1)] assms(2) by (auto simp: wrapping_key_of_def find_kek_def)

lemma wrapping_key_insert_kek:
  assumes i: "insert_kek True u wr s e t = Some t'" and k: "wrapping_key_of cr t w k"
  shows "wrapping_key_of cr t' w k"
proof -
  have users: "t_users t' = t_users t" "t_user_seq t' = t_user_seq t"
    using insert_kek_eq(1) [OF i] by auto
  have "find_kek w t' = find_kek w t" if "r \<in> set (t_users t)" "u_id r = w" for r
    using k that insert_kek_eq(2) [OF i] find_kek_insert(1) [OF i, of w]
    by (auto simp: wrapping_key_of_def)
  then show ?thesis using k users by (fastforce simp: wrapping_key_of_def)
qed

lemma wrapping_key_delete_user:
  assumes "wrapping_key_of cr t w k"
  shows "wrapping_key_of cr (delete_user_row fk i t) w k"
proof -
  have "find_kek w (delete_user_row fk i t) = find_kek w t" if "w \<noteq> i"
    using that by (auto simp: find_kek_def delete_user_row_def Let_def find_filter intro!: find_cong_set)
  moreover have "t_user_seq (delete_user_row fk i t) = t_user_seq t"
    by (simp add: delete_user_row_def Let_def)
  ultimately show ?thesis
    using assms by (auto simp: wrapping_key_of_def delete_user_row_users)
qed

lemma wrapping_key_others:
  "others_keep_keys u t t' \<Longrightarrow> w \<noteq> u \<Longrightarrow> wrapping_key_of cr t w k \<Longrightarrow> wrapping_key_of cr t' w k"
  by (auto simp: others_keep_keys_def wrapping_key_of_def)

text \<open>A change of one user's keys is safe once that user's slot is invalidated.\<close>

lemma vault_ok_invalidate:
  assumes ok: "vault_ok cr v" and "steady db'" and "wf_tables (db_tabs db')"
    and o: "others_keep_keys u (db_tabs (v_db v)) (db_tabs db')"
  shows "vault_ok cr (v\<lparr>v_db := db', v_cache := cache_invalidate u (v_cache v)\<rparr>)"
proof -
  have "wrapping_key_of cr (db_tabs db') w k" if "cached (cache_invalidate u (v_cache v)) w = Some k" for w k
    by (rule keys.agree_invalidate [where truth = "wrapping_key_of cr (db_tabs (v_db v))"
          and truth' = "wrapping_key_of cr (db_tabs db')", OF _ _ that])
      (use vault_ok_D(4) [OF ok] wrapping_key_others [OF o] in \<open>auto simp: coherent_def\<close>)
  then show ?thesis
    using assms keys.invalidate_ok [OF vault_ok_D(3) [OF ok]] by (simp add: vault_ok_def coherent_def)
qed

lemma vault_ok_users_find:
  "vault_ok cr v \<Longrightarrow> users_find_by_username (v_db v) u = (r, db1) \<Longrightarrow> vault_ok cr (v\<lparr>v_db := db1\<rparr>)"
  using users_find_frame [of "v_db v" u] by (intro vault_ok_read) auto

lemma register_new_ok:
  assumes ok: "vault_ok cr v" and law: "lawful cr"
  shows "vault_ok cr (snd (register_new cr u p v))"
proof -
  obtain hb m1 where vb: "secure_vector_new 1 crypto_pwhash_STRBYTES (v_mach v) = (hb :: bytes option, m1)"
    by fastforce
  obtain ho m2 where ah: "argon2id_hash cr (bytes_of_string p) (vec_size hb) m1 = (ho, m2)" by fastforce
  note def = register_new_def [of cr u p v, unfolded vb ah Let_def prod.case]
  show ?thesis
  proof (cases ho)
    case None
    then show ?thesis using ok by (simp add: def)
  next
    case (Some h)
    have lh: "length h < 2 ^ 31"
      using ah Some lawful_pwhash_str [OF law]
      by (auto simp: argon2id_hash_def Let_def split_beta split: if_splits)
    obtain io db1 where uc: "users_create (m_now m2) (v_db v) u h = (io, db1)" by fastforce
    note ucc = users_create_cases [OF uc]
    have wf1: "wf_tables (db_tabs db1)"
      using users_create_wf [OF vault_ok_D(2) [OF ok], of "m_now m2" u h] uc by simp
    have ok1: "vault_ok cr (v\<lparr>v_db := db1\<rparr>)"
    proof (rule vault_ok_change [OF ok _ wf1])
      show "same_conn (v_db v) db1" using ucc(1) by blast
      show "wrapping_key_of cr (db_tabs db1) w k" if "wrapping_key_of cr (db_tabs (v_db v)) w k" for w k
        using that ucc(2,3) lh wrapping_key_insert_user by (cases io) auto
    qed
    show ?thesis
    proof (cases io)
      case None
      have "vault_ok cr (v\<lparr>v_mach := m2, v_db := db1\<rparr>)"
        using ok1 by (simp add: vault_ok_def coherent_def)
      then show ?thesis using None \<open>ho = Some h\<close> by (simp add: def uc)
    next
      case (Some i)
      obtain go m3 where g: "kek_generate cr (vec_data h) KEK_SALT_LEN 24 m2 = (go, m3)" by fastforce
      let ?v2 = "v\<lparr>v_mach := m2, v_db := db1, v_mach := m3\<rparr>"
      have ok2: "vault_ok cr ?v2" using ok1 by (simp add: vault_ok_def coherent_def)
      show ?thesis
      proof (cases go)
        case None
        then show ?thesis using ok2 \<open>ho = Some h\<close> Some by (simp add: def uc g)
      next
        case (Some t)
        obtain w s e where t: "t = (w, s, e)" by (cases t)
        obtain okk db2 where ks: "kek_store db1 i (Some w) (Some s) (Some e) = (okk, db2)" by fastforce
        note ksc = kek_store_cases [OF ks]
        have fk: "db_fk db1" using vault_ok_D(1) [OF ok2] by (simp add: steady_def)
        have ok3: "vault_ok cr (?v2\<lparr>v_db := db2\<rparr>)"
        proof (rule vault_ok_change [OF ok2])
          show "same_conn (v_db ?v2) db2" using ksc(1) by simp
          show "wf_tables (db_tabs db2)" by (rule kek_store_wf [OF ks fk wf1])
          show "wrapping_key_of cr (db_tabs db2) x k" if "wrapping_key_of cr (db_tabs (v_db ?v2)) x k" for x k
            using that ksc(2,3) fk wrapping_key_insert_kek by (cases okk) auto
        qed
        have "vault_ok cr (log_audit u i ''user_register'' SSM_OK None detail_ok (?v2\<lparr>v_db := db2\<rparr>))"
          by (rule log_audit_ok [OF ok3])
        then show ?thesis
          using ok3 \<open>ho = Some h\<close> \<open>io = Some i\<close> Some t
          by (simp add: def uc g ks)
      qed
    qed
  qed
qed

lemma register_ok:
  "vault_ok cr v \<Longrightarrow> lawful cr \<Longrightarrow> vault_ok cr (snd (ssm_user_register cr vd u p v))"
  using vault_ok_users_find log_audit_ok register_new_ok
  by (auto simp: ssm_user_register_def split: option.splits prod.splits)

lemma authenticate_ok:
  "vault_ok cr v \<Longrightarrow> vault_ok cr (snd (snd (ssm_user_authenticate cr u p i v)))"
  using vault_ok_users_find log_audit_ok
  by (auto simp: ssm_user_authenticate_def Let_def split: option.splits prod.splits)

lemma users_delete_ok:
  assumes ok: "vault_ok cr v" and d: "users_delete (v_db v) i = (r, db')"
  shows "vault_ok cr (v\<lparr>v_db := db'\<rparr>)"
proof (rule vault_ok_change [OF ok])
  note c = users_delete_cases [OF d]
  show "same_conn (v_db v) db'" using c(1) by blast
  have fk: "db_fk (v_db v)" using vault_ok_D(1) [OF ok] by (simp add: steady_def)
  then show "wf_tables (db_tabs db')"
    using c(2) vault_ok_D(2) [OF ok] delete_user_row_wf by auto
  show "wrapping_key_of cr (db_tabs db') w k" if "wrapping_key_of cr (db_tabs (v_db v)) w k" for w k
    using that c(2) wrapping_key_delete_user by auto
qed

lemma delete_user_ok:
  assumes ok: "vault_ok cr v"
  shows "vault_ok cr (snd (ssm_user_delete cr u p v))"
proof (cases "u = None \<or> p = None \<or> \<not> is_valid_username u")
  case True
  then show ?thesis using ok by (auto simp: ssm_user_delete_def split: option.split)
next
  case False
  then obtain n q where up: "u = Some n" "p = Some q" by auto
  obtain ro db1 where f: "users_find_by_username (v_db v) n = (ro, db1)" by fastforce
  note ok1 = vault_ok_users_find [OF ok f]
  show ?thesis
  proof (cases ro)
    case None
    then show ?thesis using False up f log_audit_ok [OF ok1] by (simp add: ssm_user_delete_def)
  next
    case (Some r)
    obtain d db2 where d: "users_delete db1 (ur_id r) = (d, db2)" by fastforce
    have "vault_ok cr (v\<lparr>v_db := db2\<rparr>)" using users_delete_ok [OF ok1, of "ur_id r" d db2] d by simp
    then show ?thesis
      using False up f Some d log_audit_ok [OF ok1] log_audit_ok [of cr "v\<lparr>v_db := db2\<rparr>"]
      by (simp add: ssm_user_delete_def Let_def)
  qed
qed

lemma insert_secret_keys:
  "insert_secret fk now u n pk pub nc tg d t = Some t' \<Longrightarrow> same_keys t t'"
  by (drule insert_secret_eq(1)) (simp add: same_keys_def)

lemma secrets_store_keys:
  "same_keys (db_tabs db) (db_tabs (snd (secrets_store now db u n pk pub publen nc tg d)))"
  by (auto dest!: sql_frameD insert_secret_keys simp: secrets_store_def Let_def
      split: prod.splits if_splits option.splits)

lemma secrets_store_ok:
  assumes "vault_ok cr v"
  shows "vault_ok cr (v\<lparr>v_db := snd (secrets_store now (v_db v) u n pk pub publen nc tg d)\<rparr>)"
  using vault_ok_D(1) [OF assms] secrets_store_wf [OF _ vault_ok_D(2) [OF assms]]
  by (intro vault_ok_db [OF assms]) (simp_all add: secrets_store_frame secrets_store_keys steady_def)

lemma secrets_delete_ok:
  assumes ok: "vault_ok cr v" and d: "secrets_delete (v_db v) u n = (r, db')"
  shows "vault_ok cr (v\<lparr>v_db := db'\<rparr>)"
proof (rule vault_ok_db [OF ok])
  note c = secrets_delete_cases [OF d]
  show "same_conn (v_db v) db'" using c(1) by blast
  show "same_keys (db_tabs (v_db v)) (db_tabs db')"
    using c(2) by (auto simp: same_keys_def delete_secret_def)
  show "wf_tables (db_tabs db')" using c(2) vault_ok_D(2) [OF ok] delete_secret_wf by auto
qed

text \<open>A session that is open, and the KEK it loads.\<close>

lemma session_kek:
  assumes "vault_ok cr v" and "lawful cr" and "session (db_tabs (v_db v)) u user km"
    and "load_kek cr user km v = (res, v')"
  shows "vault_ok cr v' \<and> v_db v' = v_db v \<and> v_path v' = v_path v \<and> m_now (v_mach v') = m_now (v_mach v)
    \<and> m_rand (v_mach v') = m_rand (v_mach v)"
proof -
  obtain r kr where r: "find_user u (db_tabs (v_db v)) = Some r"
    "find_kek (u_id r) (db_tabs (v_db v)) = Some kr"
    "user = \<lparr>ur_id = u_id r, ur_password_hash = u_password_hash r\<rparr>" "km = read_kek_row kr"
    using assms(3) by (auto simp: session_def)
  show ?thesis by (rule load_kek_cases(1) [OF assms(1,2) r(1,2) assms(4) [unfolded r(3,4)]])
qed

lemma store_secret_ok:
  assumes ok: "vault_ok cr v" and law: "lawful cr"
  shows "vault_ok cr (snd (ssm_secret_store cr u pk pub publen n d v))"
proof (cases "u = None \<or> pk = None \<or> n = None \<or> pk = Some []")
  case True
  then show ?thesis using ok by (cases u; cases pk; cases n) (simp_all add: ssm_secret_store_def)
next
  case False
  then obtain u' pk' n' where a: "u = Some u'" "pk = Some pk'" "n = Some n'" "pk' \<noteq> []" by auto
  note def = ssm_secret_store_def [of cr u pk pub publen n d v, unfolded a option.case prod.case]
  note os = open_session_cases [OF ok, where op = "''secret_store''" and u = u' and tgt = "Some n'"]
  show ?thesis
  proof (cases "open_session ''secret_store'' u' (Some n') v")
    case (Inl r)
    then show ?thesis using def os a by (cases r) simp
  next
    case (Inr x)
    obtain user km v1 where x: "x = (user, km, v1)" by (cases x)
    have s: "session (db_tabs (v_db v1)) u' user km" "vault_ok cr v1" using os Inr x by simp_all
    obtain ko v2 where l: "load_kek cr user km v1 = (ko, v2)" by fastforce
    note k = session_kek [OF s(2) law s(1) l]
    obtain nonce m3 where r: "random_bytes AES_GCM_NONCE_LEN (v_mach v2) = (nonce, m3)" by fastforce
    obtain buf m4 where b: "secure_vector_new 1 (length pk') m3 = (buf :: bytes option, m4)" by fastforce
    note def2 = def [unfolded Inr x sum.case prod.case l r b Let_def]
    have ok4: "vault_ok cr (v2\<lparr>v_mach := m4\<rparr>)" using k by simp
    show ?thesis
    proof (cases ko)
      case None
      then show ?thesis using def2 k a by simp
    next
      case (Some kek)
      note def3 = def2 [unfolded Some option.case]
      let ?e = "aes_gcm_encrypt cr (Some pk') (length pk') (Some kek) (Some nonce) None buf AES_GCM_TAG_LEN"
      show ?thesis
      proof (cases ?e)
        case None
        then show ?thesis using def3 ok4 a by simp
      next
        case (Some st)
        obtain sealed tag where st: "st = (sealed, tag)" by (cases st)
        obtain so db5 where ss: "secrets_store (m_now m4) (v_db (v2\<lparr>v_mach := m4\<rparr>)) (ur_id user) (Some n')
          (vec_data sealed) (if publen > 0 then pub else None) publen (Some nonce) (Some tag) d
          = (so, db5)" by fastforce
        have ok5: "vault_ok cr (v2\<lparr>v_mach := m4, v_db := db5\<rparr>)"
          using secrets_store_ok [OF ok4, of "m_now m4" "ur_id user" "Some n'" "vec_data sealed"
              "if publen > 0 then pub else None" publen "Some nonce" "Some tag" d] ss by simp
        show ?thesis
          using def3 [unfolded Some st option.case prod.case ss] ok5 log_audit_ok [OF ok5] a by simp
      qed
    qed
  qed
qed

lemma deliver_secret_ok:
  "vault_ok cr v \<Longrightarrow> vault_ok cr (snd (snd (deliver_secret cr u n user secret kek g v)))"
  using log_audit_ok [of cr "v\<lparr>v_mach := m\<rparr>" for m]
  by (auto simp: deliver_secret_def Let_def split: prod.split option.split)

lemma get_secret_ok:
  assumes ok: "vault_ok cr v" and law: "lawful cr"
  shows "vault_ok cr (snd (snd (ssm_secret_get cr u n g v)))"
proof (cases "u = None \<or> n = None \<or> go_private g = None \<or> go_private_len g = None")
  case True
  then show ?thesis using ok by (auto simp: ssm_secret_get_def split: option.split)
next
  case False
  then obtain u' n' b l where a: "u = Some u'" "n = Some n'" "go_private g = Some b"
    "go_private_len g = Some l" by auto
  note def = ssm_secret_get_def [of cr u n g v, unfolded a option.case prod.case]
  note os = open_session_cases [OF ok, where op = "''secret_get''" and u = u' and tgt = "Some n'"]
  show ?thesis
  proof (cases "open_session ''secret_get'' u' (Some n') v")
    case (Inl r)
    then show ?thesis using def os a by (cases r) simp
  next
    case (Inr x)
    obtain user km v1 where x: "x = (user, km, v1)" by (cases x)
    have s: "session (db_tabs (v_db v1)) u' user km" "vault_ok cr v1" using os Inr x by simp_all
    obtain so db2 where f: "secrets_find (v_db v1) (ur_id user) (Some n') = (so, db2)" by fastforce
    have fr: "same_conn (v_db v1) db2" "db_tabs db2 = db_tabs (v_db v1)"
      using secrets_find_frame [of "v_db v1" "ur_id user" "Some n'"] f by simp_all
    have ok2: "vault_ok cr (v1\<lparr>v_db := db2\<rparr>)" by (rule vault_ok_read [OF s(2) fr])
    obtain ko v3 where l: "load_kek cr user km (v1\<lparr>v_db := db2\<rparr>) = (ko, v3)" by fastforce
    have k: "vault_ok cr v3" using session_kek [OF ok2 law _ l] s fr by simp
    show ?thesis
      using def [unfolded Inr x sum.case prod.case f l] ok2 k deliver_secret_ok [OF k] a
      by (cases so; cases ko) (simp_all add: l)
  qed
qed

lemma delete_secret_ok:
  assumes ok: "vault_ok cr v"
  shows "vault_ok cr (snd (ssm_secret_delete u n v))"
proof (cases "u = None \<or> n = None")
  case False
  then obtain u' n' where a: "u = Some u'" "n = Some n'" by auto
  note def = ssm_secret_delete_def [of u n v, unfolded a option.case prod.case]
  note os = open_session_cases [OF ok, where op = "''secret_delete''" and u = u' and tgt = "Some n'"]
  show ?thesis
  proof (cases "open_session ''secret_delete'' u' (Some n') v")
    case (Inl r)
    then show ?thesis using def os a by (cases r) simp
  next
    case (Inr x)
    obtain user km v1 where x: "x = (user, km, v1)" by (cases x)
    have ok1: "vault_ok cr v1" using os Inr x by simp
    obtain so db2 where d: "secrets_delete (v_db v1) (ur_id user) (Some n') = (so, db2)" by fastforce
    note ok2 = secrets_delete_ok [OF ok1 d]
    show ?thesis
      using def [unfolded Inr x sum.case prod.case d Let_def] ok2 log_audit_ok [OF ok2] a by simp
  qed
qed (use ok in \<open>auto simp: ssm_secret_delete_def split: option.split\<close>)

lemma list_secrets_ok:
  assumes ok: "vault_ok cr v"
  shows "vault_ok cr (snd (snd (ssm_secret_list u cb v)))"
proof (cases "u = None \<or> \<not> cb")
  case False
  then obtain u' where a: "u = Some u'" "cb" by auto
  note os = open_session_cases [OF ok, where op = "''secret_list''" and u = u' and tgt = None]
  show ?thesis
  proof (cases "open_session ''secret_list'' u' None v")
    case (Inl r)
    then show ?thesis using os a by (cases r) (simp add: ssm_secret_list_def)
  next
    case (Inr x)
    obtain user km v1 where x: "x = (user, km, v1)" by (cases x)
    have ok1: "vault_ok cr v1" using os Inr x by simp
    obtain so db2 where d: "secrets_list_for_user (v_db v1) (ur_id user) = (so, db2)" by fastforce
    have ok2: "vault_ok cr (v1\<lparr>v_db := db2\<rparr>)"
      by (rule vault_ok_read [OF ok1 secrets_list_cases(1,2) [OF d]])
    show ?thesis
      using ok2 log_audit_ok [OF ok2] a Inr x d by (cases so) (simp_all add: ssm_secret_list_def)
  qed
qed (use ok in \<open>auto simp: ssm_secret_list_def split: option.split\<close>)

lemma audit_query_frame:
  "same_conn db (snd (audit_log_query db u op res l off))
   \<and> db_tabs (snd (audit_log_query db u op res l off)) = db_tabs db"
  by (auto simp: audit_log_query_def Let_def dest!: sql_frameD split: prod.splits)

lemma query_audit_ok:
  assumes ok: "vault_ok cr v"
  shows "vault_ok cr (snd (snd (ssm_audit_log_query u op res l off cb v)))"
proof -
  have "vault_ok cr (v\<lparr>v_db := snd (audit_log_query (v_db v) u op res l' off')\<rparr>)" for l' off'
    using audit_query_frame by (intro vault_ok_read [OF ok]) blast+
  then show ?thesis using ok
    by (auto simp: ssm_audit_log_query_def split: prod.split option.split) (metis snd_conv)+
qed

lemma set_hash_keys: "others_keep_keys i t (set_password_hash i h t)"
  by (auto simp: others_keep_keys_def set_password_hash_def find_kek_def)

lemma set_wrapped_keys: "others_keep_keys i t (set_wrapped_kek i w t)"
proof -
  have "find_kek v (set_wrapped_kek i w t) = find_kek v t" if "v \<noteq> i" for v
    using that by (simp add: find_kek_set_wrapped option.map_ident)
  then show ?thesis by (simp add: others_keep_keys_def set_wrapped_kek_def)
qed

lemma change_password_body_frame:
  assumes run: "change_password_body cr user h db m = (ok, db', m')"
  shows "same_conn db db' \<and> (wf_tables (db_tabs db) \<longrightarrow> wf_tables (db_tabs db'))
    \<and> others_keep_keys (ur_id user) (db_tabs db) (db_tabs db')"
proof -
  let ?i = "ur_id user" and ?t = "db_tabs db"
  obtain ok1 db1 where up: "update_password_hash db ?i h = (ok1, db1)" by fastforce
  note d1 = update_password_hash_cases [OF up]
  obtain ko db2 where k: "kek_find_by_user db1 ?i = (ko, db2)" by fastforce
  have d2: "same_conn db1 db2" "db_tabs db2 = db_tabs db1" using kek_find_frame [of db1 ?i] k by simp_all
  have s2: "same_conn db db2" using d1(1) d2(1) same_conn_trans by blast
  have t1: "others_keep_keys ?i ?t (db_tabs db1)" "wf_tables ?t \<longrightarrow> wf_tables (db_tabs db1)"
    using d1(2) set_hash_keys set_password_hash_wf by auto
  have t3: "same_conn db db3 \<and> others_keep_keys ?i ?t (db_tabs db3)
      \<and> (wf_tables ?t \<longrightarrow> wf_tables (db_tabs db3))"
    if "update_wrapped_kek db2 ?i w = (r, db3)" for w r db3
    using update_wrapped_kek_cases [OF that] s2 t1 d2 same_conn_trans [of db db2 db3]
      set_wrapped_keys set_wrapped_kek_wf others_keep_keys_trans by auto
  consider "db' = db1" | "db' = db2" | w r where "update_wrapped_kek db2 ?i w = (r, db')"
    using run [unfolded change_password_body_def Let_def up prod.case k]
    by (cases ko) (auto split: if_splits prod.splits option.splits)
  then show ?thesis
    by cases (use d1 d2 s2 t1 t3 in auto)
qed

lemma change_in_transaction_ok:
  assumes ok: "vault_ok cr v"
  shows "vault_ok cr (snd (change_password_in_transaction cr u user h v))"
proof -
  let ?db = "v_db v"
  let ?begun = "?db\<lparr>fl_begin := tl (fl_begin ?db), db_snap := Some (db_tabs ?db)\<rparr>"
  have s: "steady ?db" using vault_ok_D(1) [OF ok] .
  then have b: "exec_begin ?db = (True, ?begun)" by (intro exec_begin_ok) (auto simp: steady_def)
  obtain r db1 m1 where body: "change_password_body cr user h ?begun (v_mach v) = (r, db1, m1)"
    by (metis prod_cases3)
  note fr = change_password_body_frame [OF body]
  have tls: "True \<notin> set (tl fs)" if "True \<notin> set fs" for fs :: "bool list"
    using that by (cases fs) auto
  have c: "exec_commit db1 = (True, db1\<lparr>fl_commit := tl (fl_commit db1), db_snap := None\<rparr>)"
    using fr s by (intro exec_commit_ok) (auto simp: steady_def same_conn_def)
  have snap: "db_snap db1 = Some (db_tabs ?db)" using fr by (simp add: same_conn_def)
  have ok_commit: "vault_ok cr (v\<lparr>v_db := db1\<lparr>fl_commit := tl (fl_commit db1), db_snap := None\<rparr>,
      v_cache := cache_invalidate (ur_id user) (v_cache v)\<rparr>)"
  proof (rule vault_ok_invalidate [OF ok])
    show "steady (db1\<lparr>fl_commit := tl (fl_commit db1), db_snap := None\<rparr>)"
      using fr s tls by (auto simp: steady_def same_conn_def)
  qed (use fr vault_ok_D(2) [OF ok] in auto)
  have "steady (exec_rollback db1)"
    using fr s tls snap by (auto simp: steady_def same_conn_def exec_rollback_def)
  then have ok_back: "vault_ok cr (v\<lparr>v_db := exec_rollback db1\<rparr>)"
    using ok snap by (simp add: vault_ok_def coherent_def exec_rollback_def)
  have "vault_ok cr (v\<lparr>v_db := db1\<lparr>fl_commit := tl (fl_commit db1), db_snap := None\<rparr>, v_mach := m1,
      v_cache := cache_invalidate (ur_id user) (v_cache v)\<rparr>)"
    using ok_commit by (simp add: vault_ok_def coherent_def)
  moreover have "vault_ok cr (v\<lparr>v_db := exec_rollback db1, v_mach := m1\<rparr>)"
    using ok_back by simp
  ultimately show ?thesis
    using log_audit_ok by (simp add: change_password_in_transaction_def b body c Let_def)
qed

lemma change_password_ok:
  assumes ok: "vault_ok cr v"
  shows "vault_ok cr (snd (ssm_user_change_password cr vd u p q v))"
proof (cases "u = None \<or> p = None \<or> q = None \<or> \<not> is_valid_username u \<or> vd (the q) \<noteq> SSM_OK")
  case True
  then show ?thesis using ok by (auto simp: ssm_user_change_password_def split: option.split)
next
  case False
  then obtain u' p' q' where a: "u = Some u'" "p = Some p'" "q = Some q'"
    and g: "is_valid_username (Some u')" "vd q' = SSM_OK" by auto
  obtain ro db1 where f: "users_find_by_username (v_db v) u' = (ro, db1)" by fastforce
  note ok1 = vault_ok_users_find [OF ok f]
  obtain hb m1 where vb: "secure_vector_new 1 crypto_pwhash_STRBYTES (v_mach v) = (hb :: bytes option, m1)"
    by fastforce
  obtain ho m2 where ah: "argon2id_hash cr (bytes_of_string q') (vec_size hb) m1 = (ho, m2)" by fastforce
  have ok2: "vault_ok cr (v\<lparr>v_db := db1, v_mach := m2\<rparr>)" using ok1 by (simp add: vault_ok_def coherent_def)
  note def = ssm_user_change_password_def [of cr vd u p q v, unfolded a option.case prod.case f vb ah Let_def]
  show ?thesis
    using def g a log_audit_ok [OF ok1] ok2 change_in_transaction_ok [OF ok2]
    by (cases ro; cases ho) simp_all
qed

lemma rotate_ok:
  assumes ok: "vault_ok cr v"
  shows "vault_ok cr (snd (ssm_kek_rotate cr u v))"
proof (cases u)
  case (Some u')
  obtain ro db1 where f: "users_find_by_username (v_db v) u' = (ro, db1)" by fastforce
  note ok1 = vault_ok_users_find [OF ok f]
  show ?thesis
  proof (cases ro)
    case None
    then show ?thesis using Some f log_audit_ok [OF ok1] by (simp add: ssm_kek_rotate_def)
  next
    case (Some user)
    let ?i = "ur_id user"
    obtain r db2 m2 where rot: "kek_rotate cr db1 ?i (vec_data (ur_password_hash user)) (v_mach v)
      = (r, db2, m2)" by (metis prod_cases3)
    have s1: "steady db1" "wf_tables (db_tabs db1)" using vault_ok_D [OF ok1] by simp_all
    note fr = kek_rotate_frame [OF rot s1]
    have "vault_ok cr (v\<lparr>v_db := db1, v_db := db2, v_cache := cache_invalidate ?i (v_cache (v\<lparr>v_db := db1\<rparr>))\<rparr>)"
      by (rule vault_ok_invalidate [OF ok1]) (use fr in auto)
    then have good: "vault_ok cr (v\<lparr>v_db := db2, v_mach := m2, v_cache := cache_invalidate ?i (v_cache v)\<rparr>)"
      by (simp add: vault_ok_def coherent_def)
    have bad: "vault_ok cr (v\<lparr>v_db := db2, v_mach := m2\<rparr>)" if "\<not> r"
    proof -
      have "db_tabs db2 = db_tabs db1 \<and> steady db2"
        by (rule kek_rotate_failed [of cr db1 ?i "vec_data (ur_password_hash user)" "v_mach v" db2 m2])
          (use rot that s1 in auto)
      then show ?thesis using ok1 by (simp add: vault_ok_def coherent_def)
    qed
    show ?thesis
      using good bad log_audit_ok \<open>u = Some u'\<close> Some f rot by (simp add: ssm_kek_rotate_def Let_def)
  qed
qed (use ok in \<open>simp add: ssm_kek_rotate_def\<close>)

lemma migrate_ok:
  assumes ok: "vault_ok cr v"
  shows "vault_ok cr (snd (ssm_db_migrate v))"
proof -
  obtain r db1 where m: "db_migrate (v_db v) = (r, db1)" by fastforce
  have g: "steady db1" "grown (db_tabs (v_db v)) (db_tabs db1)"
    using db_migrate_steady [OF m vault_ok_D(1) [OF ok]] by simp_all
  then have "same_keys (db_tabs (v_db v)) (db_tabs db1)" "wf_tables (db_tabs db1)"
    using grown_wf [OF g(2) vault_ok_D(2) [OF ok]] by (auto simp: grown_def same_rows_def same_keys_def)
  then show ?thesis
    using ok g(1) m by (simp add: ssm_db_migrate_def vault_ok_def coherent_def same_keys_wrapping)
qed

lemma version_ok: "vault_ok cr v \<Longrightarrow> vault_ok cr (snd (snd (ssm_db_version out v)))"
  using vault_ok_read by (auto simp: ssm_db_version_def Let_def dest!: db_get_versionD
      split: option.split prod.splits)

lemma run_call_ok:
  assumes "vault_ok cr v" and "lawful cr"
  shows "vault_ok cr (snd (run_call cr vd c v))"
proof (cases c)
  case (Cache_Stats out)
  then show ?thesis using assms(1)
    by (simp add: run_call_def ssm_cache_get_stats_def split: option.split)
qed (use assms register_ok authenticate_ok delete_user_ok change_password_ok rotate_ok store_secret_ok
    get_secret_ok delete_secret_ok list_secrets_ok query_audit_ok version_ok migrate_ok
    in \<open>simp_all add: run_call_def split_beta\<close>)

subsection \<open>Invariants of step relations\<close>

text \<open>
  An invariant of a step relation: what holds at the start and is kept by every step holds of every
  state a run reaches.
\<close>

locale step_invariant =
  fixes step :: "'s \<Rightarrow> 's \<Rightarrow> bool"
    and reach :: "'s \<Rightarrow> 's \<Rightarrow> bool"
    and inv :: "'s \<Rightarrow> bool"
  assumes reach_induct: "reach s0 s \<Longrightarrow> P s0 \<Longrightarrow> (\<And>a b. reach s0 a \<Longrightarrow> P a \<Longrightarrow> step a b \<Longrightarrow> P b) \<Longrightarrow> P s"
    and step_inv: "inv a \<Longrightarrow> step a b \<Longrightarrow> inv b"
begin

lemma reach_inv: "reach s0 s \<Longrightarrow> inv s0 \<Longrightarrow> inv s"
  by (rule reach_induct [where P = inv]) (blast intro: step_inv)+

lemma reach_pred:
  assumes "reach s0 s" and "inv s0" and "Q s0"
    and "\<And>a b. inv a \<Longrightarrow> Q a \<Longrightarrow> step a b \<Longrightarrow> Q b"
  shows "Q s"
proof -
  have "inv s \<and> Q s"
    by (rule reach_induct [OF assms(1), where P = "\<lambda>x. inv x \<and> Q x"])
      (use assms step_inv in blast)+
  then show ?thesis ..
qed

end

end
