(* ===== verification/Vault_Contents.thy ===== *)
theory Vault_Contents
  imports Vault_Spec
begin

section \<open>What the vault holds: the abstract view and its refinement\<close>

text \<open>
  Abstractly a vault is a map from user and secret name to a private key. \<open>contents\<close> reads that map off
  the tables, going through the password hash, the wrapped KEK and the sealed row, and never through
  the cache. The operations of the library are then operations on this map: \<open>ssm_secret_get\<close> looks up,
  \<open>ssm_secret_store\<close> adds one entry, \<open>ssm_secret_delete\<close> removes one, rotation and a password change
  leave it alone, and nobody changes what another user holds.
\<close>

definition contents :: "provider \<Rightarrow> tables \<Rightarrow> string \<times> string \<Rightarrow> bytes option" where
  "contents cr t un =
     do {
       r \<leftarrow> find_user (fst un) t;
       stored_plaintext cr t (u_password_hash r) (u_id r) (snd un)
     }"

lemma contents_same:
  assumes "t_users t' = t_users t" and "t_keks t' = t_keks t" and "t_secrets t' = t_secrets t"
  shows "contents cr t' = contents cr t"
  using assms by (auto simp: contents_def stored_plaintext_def find_user_def find_kek_def find_secret_def
      fun_eq_iff)

lemma contents_audit [simp]: "same_but_audit t t' \<Longrightarrow> contents cr t' = contents cr t"
  by (rule contents_same) (simp_all add: same_but_auditD)

lemma contents_log [simp]:
  "contents cr (db_tabs (v_db (log_audit u i op st tgt det v))) = contents cr (db_tabs (v_db v))"
  by simp

subsection \<open>Lookup\<close>

text \<open>A session and the KEK it loads, in terms of the tables.\<close>

lemma open_session_Inr:
  assumes "vault_ok cr v" and "open_session op u tgt v = Inr (user, km, v1)"
  shows "\<exists>r kr. find_user u (db_tabs (v_db v)) = Some r \<and> find_kek (u_id r) (db_tabs (v_db v)) = Some kr
    \<and> user = \<lparr>ur_id = u_id r, ur_password_hash = u_password_hash r\<rparr> \<and> km = read_kek_row kr
    \<and> vault_ok cr v1 \<and> db_tabs (v_db v1) = db_tabs (v_db v) \<and> v_mach v1 = v_mach v
    \<and> fl_row (v_db v1) = fl_row (v_db v)
    \<and> \<not> kek_is_expired (m_now (v_mach v)) (Some (k_expires_at kr))"
  using open_session_cases [OF assms(1), where op = op and u = u and tgt = tgt] assms(2)
  by (auto simp: session_def read_kek_row_def)

lemma decrypt_sound:
  assumes "lawful cr" and "length (s_private_key r) < 2 ^ 31"
    and "aes_gcm_decrypt cr (vec_data (s_private_key r)) (length (s_private_key r)) (Some kek)
      (vec_data (s_nonce r)) None (vec_data (s_tag r)) out = Some plain"
  shows "open_secret cr kek r = Some (take (length (s_private_key r)) plain)"
proof -
  obtain p buf where p: "out = Some buf" "open_secret cr kek r = Some p" "plain = p @ drop (length p) buf"
    using assms(3) by (auto simp: decrypt_row [OF assms(2)] split: option.splits)
  then have "length p = length (s_private_key r)"
    by (auto simp: open_secret_def dest: lawful_open [OF assms(1)] split: if_splits)
  then show ?thesis using p by simp
qed

lemma get_ok_contents:
  assumes run: "ssm_secret_get cr (Some u) (Some n) g v = (SSM_OK, g', v')"
    and ok: "vault_ok cr v" and law: "lawful cr"
  shows "\<exists>p buf. contents cr (db_tabs (v_db v)) (u, n) = Some p \<and> go_private g = Some buf
    \<and> go_private g' = Some (copy_to p buf) \<and> go_private_len g' = Some (length p)"
proof -
  obtain buf cap where g: "go_private g = Some buf" "go_private_len g = Some cap"
    using run by (auto simp: ssm_secret_get_def split: option.splits)
  note run1 = run [unfolded ssm_secret_get_def g option.case prod.case]
  obtain user km v1 where os: "open_session ''secret_get'' u (Some n) v = Inr (user, km, v1)"
    using run1 open_session_cases [OF ok, where op = "''secret_get''" and u = u and tgt = "Some n"]
    by (cases "open_session ''secret_get'' u (Some n) v") auto
  obtain r kr where r: "find_user u (db_tabs (v_db v)) = Some r"
      "find_kek (u_id r) (db_tabs (v_db v)) = Some kr"
      "user = \<lparr>ur_id = u_id r, ur_password_hash = u_password_hash r\<rparr>" "km = read_kek_row kr"
      "vault_ok cr v1" "db_tabs (v_db v1) = db_tabs (v_db v)"
    using open_session_Inr [OF ok os] by blast
  note run2 = run1 [unfolded os sum.case prod.case]
  obtain sr db2 where f: "secrets_find (v_db v1) (ur_id user) (Some n) = (Some sr, db2)"
    using run2 by (auto split: option.splits prod.splits)
  obtain s where s: "find_secret (u_id r) n (db_tabs (v_db v)) = Some s" "sr = read_secret_row s"
    using secrets_find_Some [OF f] r by auto
  have len: "length (s_private_key s) < 2 ^ 31"
    using vault_ok_D(2) [OF ok] find_secret_Some [OF s(1)] by (auto simp: wf_tables_def sizes_ok_def)
  have d2: "same_conn (v_db v1) db2" "db_tabs db2 = db_tabs (v_db v1)"
    using secrets_find_frame [of "v_db v1" "ur_id user" "Some n"] f by simp_all
  note ok2 = vault_ok_read [OF r(5) d2]
  obtain kek v3 where l: "load_kek cr user km (v1\<lparr>v_db := db2\<rparr>) = (Some kek, v3)"
    using run2 f by (auto split: option.splits prod.splits)
  have kek: "kek_open cr (u_password_hash r) kr = Some kek"
    using load_kek_cases(2) [OF ok2 law, of u r kr "Some kek" v3 kek] l r d2 by simp
  have sel: "sr_private_key (read_secret_row s) = s_private_key s" "sr_nonce (read_secret_row s) = s_nonce s"
    "sr_tag (read_secret_row s) = s_tag s" by (simp_all add: read_secret_row_def)
  obtain pb m1 where vb: "secure_vector_new 1 (length (s_private_key s)) (v_mach v3)
      = (pb :: bytes option, m1)" by fastforce
  have run3: "deliver_secret cr u n user sr kek g v3 = (SSM_OK, g', v')"
    using run2 f l by simp
  note run4 = run3 [unfolded deliver_secret_def Let_def s(2) sel vb prod.case g option.sel]
  obtain plain where dec: "aes_gcm_decrypt cr (vec_data (s_private_key s)) (length (s_private_key s))
      (Some kek) (vec_data (s_nonce s)) None (vec_data (s_tag s)) pb = Some plain"
    using run4 by (auto split: if_splits option.splits)
  let ?p = "take (length (s_private_key s)) plain"
  have op: "open_secret cr kek s = Some ?p" by (rule decrypt_sound [OF law len dec])
  have lp: "length ?p = length (s_private_key s)"
    using op by (auto simp: open_secret_def dest: lawful_open [OF law] split: if_splits)
  have "go_private g' = Some (copy_to ?p buf) \<and> go_private_len g' = Some (length (s_private_key s))"
    using run4 dec by (auto simp: put_public_def split: if_splits option.splits)
  moreover have "contents cr (db_tabs (v_db v)) (u, n) = Some ?p"
    using r s(1) kek op by (simp add: contents_def stored_plaintext_def)
  ultimately show ?thesis using g lp by metis
qed

text \<open>
  C2. What \<open>ssm_secret_get\<close> delivers is never anything but the private key the database holds for
  that user and name: whenever it answers \<open>SSM_OK\<close>, whether the wrapping key came from the cache or was
  derived and whatever failed before, the buffer starts with exactly that key and the length is its
  length.
\<close>

theorem get_delivers_contents:
  assumes run: "ssm_secret_get cr (Some u) (Some n) g v = (SSM_OK, g', v')"
    and ok: "vault_ok cr v" and law: "lawful cr"
  shows "\<exists>p buf. contents cr (db_tabs (v_db v)) (u, n) = Some p \<and> go_private g = Some buf
    \<and> go_private g' = Some (copy_to p buf) \<and> go_private_len g' = Some (length p)"
  by (rule get_ok_contents [OF assms])

subsection \<open>The effect of each change of the tables\<close>

lemma contents_unfold:
  "contents cr t (u, n) =
     (case find_user u t of None \<Rightarrow> None
      | Some r \<Rightarrow> stored_plaintext cr t (u_password_hash r) (u_id r) n)"
  by (simp add: contents_def split: option.split)

lemma stored_plaintext_no_secret:
  "find_secret i n t = None \<Longrightarrow> stored_plaintext cr t h i n = None"
  by (simp add: stored_plaintext_def split: option.split)

lemma secret_of_user:
  "wf_tables t \<Longrightarrow> find_secret i n t = Some r \<Longrightarrow> i \<in> u_id ` set (t_users t)"
  using find_secret_Some by (fastforce simp: wf_tables_def secrets_ok_def)

lemma same_id_same_name:
  assumes "wf_tables t" and r: "find_user u t = Some r" and r': "find_user x t = Some r'"
  shows "u_id r' = u_id r \<longleftrightarrow> x = u"
proof
  have users: "users_ok t" using assms(1) by (simp add: wf_tables_def)
  show "x = u" if "u_id r' = u_id r"
    using same_id_same_user [OF users _ _ that] find_user_Some [OF r] find_user_Some [OF r'] by auto
qed (use assms in simp)

lemma contents_insert_user:
  assumes wf: "wf_tables t" and i: "insert_user now u h t = Some (t', i)"
  shows "contents cr t' = contents cr t" and "find_secret i n t' = None"
proof -
  note eq = insert_user_eq [OF i]
  have same: "find_kek j t' = find_kek j t" "find_secret j n t' = find_secret j n t" for j n
    using eq(1) by (simp_all add: find_kek_def find_secret_def)
  have fresh: "find_secret i n t = None" for n
  proof (rule ccontr)
    assume "find_secret i n t \<noteq> None"
    then have "i \<in> u_id ` set (t_users t)" using secret_of_user [OF wf] by blast
    then show False using wf eq(2) by (auto simp: wf_tables_def users_ok_def)
  qed
  then show "find_secret i n t' = None" using same by simp
  have "contents cr t' (x, n) = contents cr t (x, n)" for x n
    using eq(3) fresh same
    by (simp add: contents_unfold find_user_insert [OF i] stored_plaintext_def split: option.split)
  then show "contents cr t' = contents cr t" by (simp add: fun_eq_iff)
qed

lemma contents_insert_kek:
  assumes i: "insert_kek fk j w s e t = Some t'" and "\<And>n. find_secret j n t = None"
  shows "contents cr t' = contents cr t"
proof -
  have users: "find_user x t' = find_user x t" "find_secret v n t' = find_secret v n t" for x v n
    using insert_kek_eq(1) [OF i] by (auto simp: find_user_def find_secret_def)
  have "stored_plaintext cr t' h v n = stored_plaintext cr t h v n" for h v n
  proof (cases "v = j")
    case True
    then show ?thesis using assms(2) users by (simp add: stored_plaintext_no_secret)
  next
    case False
    then have "find_kek v t' = find_kek v t" using find_kek_insert(1) [OF i, of v] by simp
    then show ?thesis using users by (simp add: stored_plaintext_def)
  qed
  then show ?thesis by (auto simp: fun_eq_iff contents_unfold users split: option.split)
qed

lemma contents_delete_secret:
  assumes "wf_tables t" and r: "find_user u t = Some r"
  shows "contents cr (delete_secret (u_id r) n t) = (contents cr t)((u, n) := None)"
proof -
  let ?t' = "delete_secret (u_id r) n t"
  have same: "find_user x ?t' = find_user x t" "find_kek j ?t' = find_kek j t" for x j
    by (simp_all add: delete_secret_def find_user_def find_kek_def)
  have "contents cr ?t' (x, m) = ((contents cr t)((u, n) := None)) (x, m)" for x m
  proof (cases "find_user x t")
    case (Some r')
    note id = same_id_same_name [OF assms(1) r Some]
    then show ?thesis
      using Some r by (auto simp: contents_unfold same stored_plaintext_def find_secret_delete
          split: option.split)
  qed (use r in \<open>auto simp: contents_unfold same\<close>)
  then show ?thesis by (simp add: fun_eq_iff)
qed

lemma contents_insert_secret:
  assumes wf: "wf_tables t" and r: "find_user u t = Some r"
    and i: "insert_secret fk now (u_id r) (Some n) c pub nonce tag d t = Some t'"
  shows "contents cr t (u, n) = None"
    and "(x, m) \<noteq> (u, n) \<Longrightarrow> contents cr t' (x, m) = contents cr t (x, m)"
    and "find_kek (u_id r) t = Some kr \<Longrightarrow> kek_open cr (u_password_hash r) kr = Some kek \<Longrightarrow>
         lawful cr \<Longrightarrow> pv_gcm_seal cr (take 32 kek) nonce [] p = Some (c, tag) \<Longrightarrow> p \<noteq> [] \<Longrightarrow>
         nonce \<noteq> [] \<Longrightarrow> contents cr t' (u, n) = Some p"
proof -
  have un: "t_unique_names t \<or> t_idx_name t" using wf by (simp add: wf_tables_def secrets_ok_def)
  have same: "find_user x t' = find_user x t" "find_kek j t' = find_kek j t" for x j
    using insert_secret_eq(1) [OF i] by (simp_all add: find_user_def find_kek_def)
  note fs = find_secret_insert [OF i un]
  show "contents cr t (u, n) = None"
    using insert_secret_eq(2) [OF i un] r by (simp add: contents_unfold stored_plaintext_no_secret find_secret_None)
  show "contents cr t' (x, m) = contents cr t (x, m)" if "(x, m) \<noteq> (u, n)"
  proof (cases "find_user x t")
    case (Some r')
    note id = same_id_same_name [OF wf r Some]
    then show ?thesis using Some that r by (auto simp: contents_unfold same stored_plaintext_def fs)
  qed (simp add: contents_unfold same)
  show "contents cr t' (u, n) = Some p"
    if "find_kek (u_id r) t = Some kr" "kek_open cr (u_password_hash r) kr = Some kek" "lawful cr"
      "pv_gcm_seal cr (take 32 kek) nonce [] p = Some (c, tag)" "p \<noteq> []" "nonce \<noteq> []"
    using r that(1,2) open_sealed [OF that(3,4,5,6)]
    by (simp add: contents_unfold same stored_plaintext_def fs)
qed

lemma contents_delete_user:
  assumes wf: "wf_tables t" and r: "find_user u t = Some r"
  shows "contents cr (delete_user_row True (u_id r) t)
    = (\<lambda>(x, n). if x = u then None else contents cr t (x, n))"
proof -
  let ?t' = "delete_user_row True (u_id r) t"
  have users: "users_ok t" using wf by (simp add: wf_tables_def)
  note fu = find_user_delete [OF users r]
  have other: "find_kek j ?t' = find_kek j t" "find_secret j n ?t' = find_secret j n t"
    if "j \<noteq> u_id r" for j n
    using that by (auto simp: delete_user_row_def Let_def find_kek_def find_secret_def find_filter
        has_name_def intro!: find_cong_set)
  have "contents cr ?t' (x, n) = (if x = u then None else contents cr t (x, n))" for x n
  proof (cases "find_user x t")
    case (Some r')
    have "x \<noteq> u \<Longrightarrow> u_id r' \<noteq> u_id r" using same_id_same_name [OF wf r Some] by simp
    then show ?thesis using Some other by (auto simp: contents_unfold fu stored_plaintext_def)
  qed (auto simp: contents_unfold fu)
  then show ?thesis by (simp add: fun_eq_iff)
qed

text \<open>A rotation, and a password change that re-wraps the KEK.\<close>

lemma contents_rotation:
  assumes wf: "wf_tables t" and r: "find_user u t = Some r"
    and rot: "rotation_result cr now (u_password_hash r) (u_id r) S t t'" and S: "S \<subseteq> rows_of (u_id r) t"
  shows "x \<noteq> u \<Longrightarrow> contents cr t' (x, n) = contents cr t (x, n)"
    and "S = rows_of (u_id r) t \<Longrightarrow> contents cr t' = contents cr t"
proof -
  have users: "find_user x t' = find_user x t" for x
    using rot by (auto simp: rotation_result_def find_user_def update_kek_def)
  have id: "u_id r' \<noteq> u_id r" if "find_user x t = Some r'" "x \<noteq> u" for x r'
    using same_id_same_name [OF wf r that(1)] that(2) by simp
  have other: "contents cr t' (x, n) = contents cr t (x, n)" if "x \<noteq> u" for x n
    using rotation_result_plaintext(2) [OF rot S] id [OF _ that]
    by (auto simp: contents_unfold users split: option.split)
  then show "x \<noteq> u \<Longrightarrow> contents cr t' (x, n) = contents cr t (x, n)" .
  assume "S = rows_of (u_id r) t"
  then have "contents cr t' (u, n) = contents cr t (u, n)" for n
    using rotation_result_plaintext(1) [OF rot] r by (simp add: contents_unfold users)
  then have "contents cr t' (x, n) = contents cr t (x, n)" for x n using other by (cases "x = u") simp_all
  then show "contents cr t' = contents cr t" by (simp add: fun_eq_iff)
qed

lemma contents_rewrap:
  assumes wf: "wf_tables t" and r: "find_user u t = Some r" and k: "find_kek (u_id r) t = Some kr"
    and same: "kek_open cr h (kr\<lparr>k_wrapped_kek := w\<rparr>) = kek_open cr (u_password_hash r) kr"
  shows "contents cr (set_wrapped_kek (u_id r) w (set_password_hash (u_id r) h t)) = contents cr t"
proof -
  let ?t' = "set_wrapped_kek (u_id r) w (set_password_hash (u_id r) h t)"
  have fu: "find_user x ?t' = map_option (\<lambda>y. if u_id y = u_id r then y\<lparr>u_password_hash := h\<rparr> else y)
      (find_user x t)" for x
    using find_user_set_hash [of x "u_id r" h t] by (simp add: find_user_def set_wrapped_kek_def)
  have fk: "find_kek j ?t' = map_option (\<lambda>y. if j = u_id r then y\<lparr>k_wrapped_kek := w\<rparr> else y) (find_kek j t)" for j
    using find_kek_set_wrapped [of j "u_id r" w "set_password_hash (u_id r) h t"]
    by (simp add: find_kek_def set_password_hash_def)
  have fs: "find_secret j n ?t' = find_secret j n t" for j n
    by (simp add: find_secret_def set_wrapped_kek_def set_password_hash_def)
  have "contents cr ?t' (x, n) = contents cr t (x, n)" for x n
  proof (cases "find_user x t")
    case (Some r')
    show ?thesis
    proof (cases "u_id r' = u_id r")
      case True
      then have "r' = r" using same_id_same_name [OF wf r Some] Some r by simp
      then show ?thesis using Some k same by (simp add: contents_unfold fu fk fs stored_plaintext_def)
    next
      case False
      then show ?thesis
        using Some by (simp add: contents_unfold fu fk fs stored_plaintext_def option.map_ident)
    qed
  qed (simp add: contents_unfold fu)
  then show ?thesis by (simp add: fun_eq_iff)
qed

subsection \<open>The effect of each operation\<close>

lemma open_session_Inl:
  assumes "vault_ok cr v" and "open_session op u tgt v = Inl (st, v1)"
  shows "st \<noteq> SSM_OK \<and> contents cr (db_tabs (v_db v1)) = contents cr (db_tabs (v_db v))"
  using open_session_cases [OF assms(1), where op = op and u = u and tgt = tgt] assms(2) by simp

lemma store_effect:
  assumes run: "ssm_secret_store cr (Some u) (Some pk) pub publen (Some n) d v = (st, v')"
    and ok: "vault_ok cr v" and law: "lawful cr" and len: "length pk < 2 ^ 31"
  shows "if st = SSM_OK
    then contents cr (db_tabs (v_db v)) (u, n) = None
       \<and> contents cr (db_tabs (v_db v')) = (contents cr (db_tabs (v_db v)))((u, n) \<mapsto> pk)
    else contents cr (db_tabs (v_db v')) = contents cr (db_tabs (v_db v))"
proof (cases "pk = []")
  case True
  then show ?thesis using run by (simp add: ssm_secret_store_def)
next
  case False
  let ?t = "db_tabs (v_db v)"
  have ne: "\<not> length pk = 0" using False by simp
  note run1 = run [unfolded ssm_secret_store_def option.case prod.case if_not_P [OF ne]]
  show ?thesis
  proof (cases "open_session ''secret_store'' u (Some n) v")
    case (Inl r)
    obtain s1 w1 where "r = (s1, w1)" by (cases r)
    then show ?thesis using run1 Inl open_session_Inl [OF ok, of "''secret_store''" u "Some n" s1 w1] by simp
  next
    case (Inr x)
    obtain user km v1 where x: "x = (user, km, v1)" by (cases x)
    obtain r kr where r: "find_user u ?t = Some r" "find_kek (u_id r) ?t = Some kr"
      "user = \<lparr>ur_id = u_id r, ur_password_hash = u_password_hash r\<rparr>" "km = read_kek_row kr"
      "vault_ok cr v1" "db_tabs (v_db v1) = ?t"
      using open_session_Inr [OF ok Inr [unfolded x]] by blast
    obtain ko v2 where l: "load_kek cr user km v1 = (ko, v2)" by fastforce
    have k: "vault_ok cr v2" "v_db v2 = v_db v1"
      and kk: "\<And>k. ko = Some k \<Longrightarrow> kek_open cr (u_password_hash r) kr = Some k"
      using load_kek_cases [OF r(5) law, of u r kr ko v2] r l by simp_all
    obtain nonce m3 where rnd: "random_bytes AES_GCM_NONCE_LEN (v_mach v2) = (nonce, m3)" by fastforce
    have ln: "nonce \<noteq> []" "length nonce < 2 ^ 31"
      using random_bytesD [OF rnd] by (auto simp: AES_GCM_NONCE_LEN_def)
    obtain buf m4 where b: "secure_vector_new 1 (length pk) m3 = (buf :: bytes option, m4)" by fastforce
    note run2 = run1 [unfolded Inr x sum.case prod.case l rnd b Let_def]
    show ?thesis
    proof (cases ko)
      case None
      then show ?thesis using run2 k r by simp
    next
      case (Some kek)
      let ?e = "aes_gcm_encrypt cr (Some pk) (length pk) (Some kek) (Some nonce) None buf AES_GCM_TAG_LEN"
      note run3 = run2 [unfolded Some option.case]
      show ?thesis
      proof (cases ?e)
        case None
        then show ?thesis using run3 k r by auto
      next
        case (Some sl)
        obtain sealed tag where sl: "sl = (sealed, tag)" by (cases sl)
        obtain out where out: "buf = Some out" using Some by (cases buf) simp_all
        have lo: "length out = length pk"
          using b out by (auto simp: secure_vector_new_def alloc_elements_def Let_def
              split: if_splits prod.splits)
        obtain c tg where seal: "pv_gcm_seal cr (take 32 kek) nonce [] pk = Some (c, tg)"
          and st: "sealed = c @ drop (length c) out" "tag = take 16 tg"
          using Some [unfolded sl out] len by (auto simp: encrypt_exact split: option.splits)
        have lc: "length c = length pk" "length tg = 16" using lawful_seal [OF law seal] by simp_all
        have eq: "sealed = c" "tag = tg" "vec_data c = Some c" using st lo lc False by auto
        obtain so db5 where ss: "secrets_store (m_now m4) (v_db (v2\<lparr>v_mach := m4\<rparr>)) (ur_id user) (Some n)
          (vec_data sealed) (if publen > 0 then pub else None) publen (Some nonce) (Some tag) d
          = (so, db5)" by fastforce
        note run4 = run3 [unfolded Some sl option.case prod.case ss]
        show ?thesis
        proof (cases so)
          case False
          have "db_tabs db5 = ?t"
            using secrets_store_failed [of "m_now m4" "v_db (v2\<lparr>v_mach := m4\<rparr>)"] ss False k r
            by (metis fst_conv snd_conv vault.select_convs(1) vault.surjective vault.update_convs(4))
          then show ?thesis using run4 False by auto
        next
          case True
          have "secrets_store (m_now m4) (v_db v2) (u_id r) (Some n) (Some c)
              (if publen > 0 then pub else None) publen (Some nonce) (Some tg) d = (True, db5)"
            using ss True eq r by simp
          from secrets_store_stored [OF this] obtain pub' where
            ins: "insert_secret (db_fk (v_db v2)) (m_now m4) (u_id r) (Some n) c pub' nonce tg d ?t
              = Some (db_tabs db5)" using lc len ln k r by auto
          note eff = contents_insert_secret [OF vault_ok_D(2) [OF ok] r(1) ins]
          have "contents cr (db_tabs db5) = (contents cr ?t)((u, n) \<mapsto> pk)"
            using eff(2,3) r(2) kk [OF \<open>ko = Some kek\<close>] law seal False ln by (auto simp: fun_eq_iff)
          then show ?thesis using run4 True eff(1) by auto
        qed
      qed
    qed
  qed
qed

lemma delete_effect:
  assumes run: "ssm_secret_delete (Some u) (Some n) v = (st, v')" and ok: "vault_ok cr v"
  shows "contents cr (db_tabs (v_db v')) =
    (if st = SSM_OK then (contents cr (db_tabs (v_db v)))((u, n) := None)
     else contents cr (db_tabs (v_db v)))"
proof -
  let ?t = "db_tabs (v_db v)"
  note run1 = run [unfolded ssm_secret_delete_def option.case prod.case]
  show ?thesis
  proof (cases "open_session ''secret_delete'' u (Some n) v")
    case (Inl r)
    obtain s1 w1 where "r = (s1, w1)" by (cases r)
    then show ?thesis using run1 Inl open_session_Inl [OF ok, of "''secret_delete''" u "Some n" s1 w1] by simp
  next
    case (Inr x)
    obtain user km v1 where x: "x = (user, km, v1)" by (cases x)
    obtain r where r: "find_user u ?t = Some r"
      "user = \<lparr>ur_id = u_id r, ur_password_hash = u_password_hash r\<rparr>"
      "vault_ok cr v1" "db_tabs (v_db v1) = ?t"
      using open_session_Inr [OF ok Inr [unfolded x]] by blast
    obtain so db2 where d: "secrets_delete (v_db v1) (ur_id user) (Some n) = (so, db2)" by fastforce
    note c = secrets_delete_cases [OF d]
    note run2 = run1 [unfolded Inr x sum.case prod.case d Let_def]
    show ?thesis
    proof (cases so)
      case True
      then have "db_tabs db2 = delete_secret (u_id r) n ?t" using c(3) r by simp
      then show ?thesis using run2 True contents_delete_secret [OF vault_ok_D(2) [OF ok] r(1)] by auto
    next
      case False
      have "db_tabs db2 = ?t"
      proof (rule ccontr)
        assume "db_tabs db2 \<noteq> ?t"
        then have "db_tabs db2 = delete_secret (u_id r) n ?t" using c(2) r by simp
        moreover have "\<not> (\<exists>y \<in> set (t_secrets ?t). has_name (u_id r) n y)"
          using d False r \<open>db_tabs db2 \<noteq> ?t\<close>
          by (auto simp: secrets_delete_def Let_def dest!: sql_frameD split: prod.splits if_splits)
        then have "delete_secret (u_id r) n ?t = ?t"
          by (simp add: delete_secret_def filter_True)
        ultimately show False using \<open>db_tabs db2 \<noteq> ?t\<close> by simp
      qed
      then show ?thesis using run2 False by auto
    qed
  qed
qed

lemma users_find_contents:
  "users_find_by_username db u = (r, db1) \<Longrightarrow> db_tabs db1 = db_tabs db"
  using users_find_frame(2) [of db u] by simp

lemma register_effect:
  assumes run: "ssm_user_register cr vd u p v = (st, v')" and ok: "vault_ok cr v" and law: "lawful cr"
  shows "contents cr (db_tabs (v_db v')) = contents cr (db_tabs (v_db v))"
proof -
  let ?t = "db_tabs (v_db v)"
  have new: "contents cr (db_tabs (v_db w)) = contents cr ?t"
    if rn: "register_new cr x q (v\<lparr>v_db := db0\<rparr>) = (st, w)" and t0: "db_tabs db0 = ?t" for x q db0 w
  proof -
    obtain hb m1 where vb: "secure_vector_new 1 crypto_pwhash_STRBYTES (v_mach v) = (hb :: bytes option, m1)"
      by fastforce
    obtain ho m2 where ah: "argon2id_hash cr (bytes_of_string q) (vec_size hb) m1 = (ho, m2)" by fastforce
    have sel: "v_mach (v\<lparr>v_db := db0\<rparr>) = v_mach v" by simp
    note rn1 = rn [unfolded register_new_def Let_def sel vb prod.case ah]
    show ?thesis
    proof (cases ho)
      case None
      then show ?thesis using rn1 t0 by auto
    next
      case (Some h)
      have lh: "length h < 2 ^ 31"
        using ah Some lawful_pwhash_str [OF law]
        by (auto simp: argon2id_hash_def Let_def split_beta split: if_splits)
      obtain io db1 where uc: "users_create (m_now m2) db0 x h = (io, db1)" by fastforce
      note ucc = users_create_cases [OF uc]
      show ?thesis
      proof (cases io)
        case None
        then show ?thesis using rn1 \<open>ho = Some h\<close> uc ucc(2) t0 by auto
      next
        case (Some i)
        have ins: "insert_user (m_now m2) x h ?t = Some (db_tabs db1, i)" using ucc(3) Some lh t0 by simp
        note c1 = contents_insert_user [OF vault_ok_D(2) [OF ok] ins]
        obtain go m3 where g: "kek_generate cr (vec_data h) KEK_SALT_LEN 24 m2 = (go, m3)" by fastforce
        show ?thesis
        proof (cases go)
          case None
          then show ?thesis using rn1 \<open>ho = Some h\<close> uc Some g c1(1) by auto
        next
          case (Some tr)
          obtain wr sa e where tr: "tr = (wr, sa, e)" by (cases tr)
          obtain so db2 where ks: "kek_store db1 i (Some wr) (Some sa) (Some e) = (so, db2)" by fastforce
          have "contents cr (db_tabs db2) = contents cr (db_tabs db1)"
            using kek_store_cases [OF ks] contents_insert_kek c1(2) by (cases so) auto
          then show ?thesis
            using rn1 \<open>ho = Some h\<close> \<open>io = Some i\<close> uc Some tr g ks c1(1) by (auto split: if_splits)
        qed
      qed
    qed
  qed
  show ?thesis
  proof (cases "u = None \<or> p = None \<or> \<not> is_valid_username u \<or> vd (the p) \<noteq> SSM_OK")
    case True
    then show ?thesis using run by (auto simp: ssm_user_register_def split: option.splits if_splits)
  next
    case False
    then obtain x q where a: "u = Some x" "p = Some q" "is_valid_username (Some x)" "vd q = SSM_OK" by auto
    obtain ro db1 where f: "users_find_by_username (v_db v) x = (ro, db1)" by fastforce
    note t1 = users_find_contents [OF f]
    show ?thesis
    proof (cases ro)
      case None
      then have "register_new cr x q (v\<lparr>v_db := db1\<rparr>) = (st, v')"
        using run a f by (simp add: ssm_user_register_def)
      then show ?thesis by (rule new [OF _ t1])
    next
      case (Some r)
      then have "v' = log_audit x 0 ''user_register'' SSM_OK None detail_ok (v\<lparr>v_db := db1\<rparr>)"
        using run a f by (simp add: ssm_user_register_def)
      then show ?thesis using t1 by simp
    qed
  qed
qed

lemma authenticate_effect:
  "contents cr (db_tabs (v_db (snd (snd (ssm_user_authenticate cr u p i v)))))
    = contents cr (db_tabs (v_db v))"
  using users_find_contents
  by (auto simp: ssm_user_authenticate_def Let_def split: option.split prod.split)

lemma delete_user_effect:
  assumes run: "ssm_user_delete cr (Some u) p v = (st, v')" and ok: "vault_ok cr v"
  shows "contents cr (db_tabs (v_db v')) =
    (if st = SSM_OK then (\<lambda>(x, n). if x = u then None else contents cr (db_tabs (v_db v)) (x, n))
     else contents cr (db_tabs (v_db v)))"
proof (cases "p = None \<or> \<not> is_valid_username (Some u)")
  case True
  then show ?thesis using run by (auto simp: ssm_user_delete_def split: option.splits)
next
  case False
  let ?t = "db_tabs (v_db v)"
  obtain q where q: "p = Some q" using False by auto
  obtain ro db1 where f: "users_find_by_username (v_db v) u = (ro, db1)" by fastforce
  note t1 = users_find_contents [OF f]
  show ?thesis
  proof (cases ro)
    case None
    then have "st = SSM_ERR_AUTH" "v' = log_audit u 0 ''user_delete'' SSM_ERR_AUTH None
        (detail_error ''user not found'') (v\<lparr>v_db := db1\<rparr>)"
      using run False f q by (simp_all add: ssm_user_delete_def)
    then show ?thesis using t1 by simp
  next
    case (Some ur)
    obtain r where r: "find_user u ?t = Some r" "ur_id ur = u_id r"
      using users_find_Some [of "v_db v" u ur db1] f Some by auto
    obtain d db2 where d: "users_delete db1 (ur_id ur) = (d, db2)" by fastforce
    note c = users_delete_cases [OF d]
    have fk: "db_fk db1"
      using vault_ok_D(1) [OF ok] users_find_frame(1) [of "v_db v" u] f
      by (simp add: steady_def same_conn_def)
    have t2: "d \<Longrightarrow> db_tabs db2 = delete_user_row True (u_id r) ?t" using c(3) fk r t1 by simp
    have t3: "\<not> d \<Longrightarrow> db_tabs db2 = ?t"
    proof -
      assume nd: "\<not> d"
      have "r \<in> set (t_users ?t)" using find_user_Some [OF r(1)] by blast
      then show "db_tabs db2 = ?t"
        using d nd r t1 by (auto simp: users_delete_def Let_def dest!: sql_frameD
            split: prod.splits if_splits)
    qed
    show ?thesis
    proof (cases "argon2id_verify cr (bytes_of_string q) (ur_password_hash ur)")
      case False
      then have "st = SSM_ERR_AUTH" "v' = log_audit u (ur_id ur) ''user_delete'' SSM_ERR_AUTH None
          (detail_error ''password mismatch'') (v\<lparr>v_db := db1\<rparr>)"
        using run \<open>\<not> (p = None \<or> \<not> is_valid_username (Some u))\<close> f q Some
        by (simp_all add: ssm_user_delete_def)
      then show ?thesis using t1 by simp
    next
      case True
      then have "(st, v') = (if d then (SSM_OK, log_audit u (ur_id ur) ''user_delete'' SSM_OK None detail_ok
          (v\<lparr>v_db := db2\<rparr>)) else (SSM_ERR_INTERNAL, v\<lparr>v_db := db2\<rparr>))"
        using run \<open>\<not> (p = None \<or> \<not> is_valid_username (Some u))\<close> f q Some d
        by (auto simp: ssm_user_delete_def Let_def split: if_splits)
      then show ?thesis
        using t2 t3 contents_delete_user [OF vault_ok_D(2) [OF ok] r(1)] by (auto split: if_splits)
    qed
  qed
qed

lemma rotate_effect:
  assumes run: "ssm_kek_rotate cr (Some u) v = (st, v')" and ok: "vault_ok cr v" and law: "lawful cr"
  shows "x \<noteq> u \<Longrightarrow> contents cr (db_tabs (v_db v')) (x, n) = contents cr (db_tabs (v_db v)) (x, n)"
    and "fl_row (v_db v) = [] \<or> st \<noteq> SSM_OK \<Longrightarrow>
         contents cr (db_tabs (v_db v')) = contents cr (db_tabs (v_db v))"
proof -
  let ?t = "db_tabs (v_db v)"
  obtain ro db1 where f: "users_find_by_username (v_db v) u = (ro, db1)" by fastforce
  note t1 = users_find_contents [OF f]
  have row: "fl_row db1 = fl_row (v_db v)" using users_find_frame(3) [of "v_db v" u] f by simp
  note ok1 = vault_ok_users_find [OF ok f]
  have s1: "steady db1" "wf_tables (db_tabs db1)" using vault_ok_D [OF ok1] by simp_all
  have "(x \<noteq> u \<longrightarrow> contents cr (db_tabs (v_db v')) (x, n) = contents cr ?t (x, n))
      \<and> (fl_row (v_db v) = [] \<or> st \<noteq> SSM_OK \<longrightarrow> contents cr (db_tabs (v_db v')) = contents cr ?t)" for x n
  proof (cases ro)
    case None
    then have "v' = log_audit u 0 ''kek_rotate'' SSM_ERR_AUTH None (detail_error ''user not found'')
        (v\<lparr>v_db := db1\<rparr>)" using run f by (simp add: ssm_kek_rotate_def)
    then show ?thesis using t1 by simp
  next
    case (Some ur)
    obtain r where r: "find_user u ?t = Some r" "ur_id ur = u_id r" "ur_password_hash ur = u_password_hash r"
      using users_find_Some [of "v_db v" u ur db1] f Some by auto
    obtain ro db2 m2 where rot: "kek_rotate cr db1 (u_id r) (vec_data (u_password_hash r)) (v_mach v)
      = (ro, db2, m2)" by (metis prod_cases3)
    show ?thesis
    proof (cases ro)
      case False
      then have "db_tabs db2 = db_tabs db1" using kek_rotate_failed [of cr db1 _ _ _ db2 m2] rot s1 by simp
      moreover have "v' = log_audit u (u_id r) ''kek_rotate'' SSM_ERR_INTERNAL None
          (detail_error ''KEK rotation failed'') (v\<lparr>v_db := db2, v_mach := m2\<rparr>)"
        using run f Some r rot False by (simp add: ssm_kek_rotate_def)
      ultimately show ?thesis using t1 by simp
    next
      case True
      have v': "st = SSM_OK" "v' = log_audit u (u_id r) ''kek_rotate'' SSM_OK (Some u) detail_ok
          (v\<lparr>v_db := db2, v_mach := m2, v_cache := cache_invalidate (u_id r) (v_cache v)\<rparr>)"
        using run f Some r rot True by (simp_all add: ssm_kek_rotate_def Let_def)
      obtain S where S: "S \<subseteq> rows_of (u_id r) ?t"
        "rotation_result cr (m_now (v_mach v)) (u_password_hash r) (u_id r) S ?t (db_tabs db2)"
        "fl_row db1 = [] \<longrightarrow> S = rows_of (u_id r) ?t"
        using kek_rotate_effect [OF rot [unfolded eqTrueI [OF True]] law s1] t1 by auto
      note c = contents_rotation [OF vault_ok_D(2) [OF ok] r(1) S(2,1)]
      show ?thesis using v' c(1) c(2) S(3) row by simp
    qed
  qed
  then show "x \<noteq> u \<Longrightarrow> contents cr (db_tabs (v_db v')) (x, n) = contents cr ?t (x, n)"
    and "fl_row (v_db v) = [] \<or> st \<noteq> SSM_OK \<Longrightarrow> contents cr (db_tabs (v_db v')) = contents cr ?t"
    by blast+
qed

text \<open>A successful password change re-wraps the same KEK.\<close>

lemma kek_open_rewrapped:
  assumes law: "lawful cr" and raw: "aes_kw_unwrap cr (vec_data (k_wrapped_kek kr)) (Some wk0) = Some k"
    and old: "kek_open cr h0 kr = Some (load_key k)"
    and d: "kek_derive_wrapping_key cr (vec_data h) (vec_data (k_salt kr)) KEK_KEY_LEN = Some wk"
    and w: "aes_kw_wrap cr (Some k) (Some wk) = Some wr"
  shows "kek_open cr h (kr\<lparr>k_wrapped_kek := wr\<rparr>) = Some (load_key k)"
proof -
  have k: "length k mod 8 = 0" "pv_kw_wrap cr wk k = Some wr" "length wk = 32"
    using w by (auto simp: aes_kw_wrap_def AES_KW_BLOCK_def AES_256_KEY_LEN_def split: if_splits)
  note l = lawful_wrap [OF law k(2)]
  then have "wr \<noteq> []" "length wr mod 8 = 0" using k(1) by auto
  then have "aes_kw_unwrap cr (vec_data wr) (Some wk) = Some k"
    using l k(3) by (simp add: aes_kw_unwrap_def vec_data_def AES_KW_BLOCK_def AES_256_KEY_LEN_def)
  then show ?thesis using d by (simp add: kek_open_def)
qed

lemma kek_unwrap_raw:
  assumes "kek_unwrap cr w a s m = (Some k, m1)"
  shows "\<exists>wk. aes_kw_unwrap cr w (Some wk) = Some k"
  using assms by (cases w; cases a; cases s) (auto simp: kek_unwrap_def Let_def bind_Some_conv
      simp del: secure_buffers.simps split: if_splits prod.splits)

text \<open>What a password change that goes through writes: the new hash, and the KEK wrapped under the key it gives.\<close>

lemma change_body_rows:
  assumes run: "change_password_body cr user h db m = (True, db', m')"
    and r: "find_user u (db_tabs db) = Some r"
    and user: "user = \<lparr>ur_id = u_id r, ur_password_hash = u_password_hash r\<rparr>"
  shows "\<exists>kr k wk w m1 m2. find_kek (u_id r) (db_tabs db) = Some kr
    \<and> kek_unwrap cr (vec_data (k_wrapped_kek kr)) (vec_data (u_password_hash r)) (vec_data (k_salt kr)) m1 = (Some k, m2)
    \<and> kek_derive_wrapping_key cr (vec_data h) (vec_data (k_salt kr)) KEK_KEY_LEN = Some wk
    \<and> aes_kw_wrap cr (Some k) (Some wk) = Some w
    \<and> db_tabs db' = set_wrapped_kek (u_id r) w (set_password_hash (u_id r) h (db_tabs db))"
proof -
  let ?t = "db_tabs db"
  have sel: "ur_id user = u_id r" "ur_password_hash user = u_password_hash r" using user by simp_all
  obtain ok1 db1 where up: "update_password_hash db (u_id r) h = (ok1, db1)" by fastforce
  obtain ko db2 where kf: "kek_find_by_user db1 (u_id r) = (ko, db2)" by fastforce
  note run1 = run [unfolded change_password_body_def sel up kf Let_def prod.case]
  have ok1: "ok1" using run1 by (auto split: if_splits)
  have t1: "db_tabs db1 = set_password_hash (u_id r) h ?t"
    using update_password_hash_cases(2) [OF up] ok1 by simp
  have t2: "db_tabs db2 = db_tabs db1" using kek_find_frame(2) [of db1 "u_id r"] kf by simp
  obtain km where km: "ko = Some km" using run1 ok1 by (cases ko) simp_all
  obtain kr where kr: "find_kek (u_id r) (db_tabs db1) = Some kr" "km = read_kek_row kr"
    using kek_find_Some [of db1 "u_id r" km db2] kf km by blast
  have kr0: "find_kek (u_id r) ?t = Some kr" using kr t1 by (simp add: find_kek_def set_password_hash_def)
  obtain bo m1 where b: "secure_buffers [KEK_KEY_LEN, 64, KEK_KEY_LEN] m = (bo, m1)" by fastforce
  have ks: "kr_wrapped_kek km = k_wrapped_kek kr" "kr_salt km = k_salt kr" using kr by (simp_all add: read_kek_row_def)
  obtain ku m2 where uw: "kek_unwrap cr (vec_data (k_wrapped_kek kr)) (vec_data (u_password_hash r))
      (vec_data (k_salt kr)) m1 = (ku, m2)" by fastforce
  have bo: "bo" using run1 ok1 km b by (auto split: if_splits)
  note run2 = run1 [unfolded km option.case b prod.case ks uw]
  obtain k wk wr where k: "ku = Some k"
      "kek_derive_wrapping_key cr (vec_data h) (vec_data (k_salt kr)) KEK_KEY_LEN = Some wk"
      "aes_kw_wrap cr (Some k) (Some wk) = Some wr"
      "(let (a, c) = update_wrapped_kek db2 (u_id r) wr in (a, c, m2)) = (True, db', m')"
    using run2 ok1 bo by (auto simp: bind_Some_conv split: option.splits)
  obtain sw db3 where sw: "update_wrapped_kek db2 (u_id r) wr = (sw, db3)" by fastforce
  have t3: "db_tabs db' = set_wrapped_kek (u_id r) wr (set_password_hash (u_id r) h ?t)"
    using k(4) sw update_wrapped_kek_cases(2) [OF sw] t1 t2 by simp
  show ?thesis using kr0 uw k(1-3) t3 by blast
qed

lemma change_body_effect:
  assumes run: "change_password_body cr user h db m = (True, db', m')" and law: "lawful cr"
    and wf: "wf_tables (db_tabs db)" and r: "find_user u (db_tabs db) = Some r"
    and user: "user = \<lparr>ur_id = u_id r, ur_password_hash = u_password_hash r\<rparr>"
  shows "contents cr (db_tabs db') = contents cr (db_tabs db)
    \<and> find_user u (db_tabs db') = Some (r\<lparr>u_password_hash := h\<rparr>)"
proof -
  let ?t = "db_tabs db"
  obtain kr k wk wr m1 m2 where kr0: "find_kek (u_id r) ?t = Some kr"
    and uw: "kek_unwrap cr (vec_data (k_wrapped_kek kr)) (vec_data (u_password_hash r)) (vec_data (k_salt kr)) m1 = (Some k, m2)"
    and k: "kek_derive_wrapping_key cr (vec_data h) (vec_data (k_salt kr)) KEK_KEY_LEN = Some wk"
      "aes_kw_wrap cr (Some k) (Some wk) = Some wr"
    and t3: "db_tabs db' = set_wrapped_kek (u_id r) wr (set_password_hash (u_id r) h ?t)"
    using change_body_rows [OF run r user] by blast
  have old: "kek_open cr (u_password_hash r) kr = Some (load_key k)"
    by (rule kek_unwrap_Some [of cr kr _ m1 k m2]) (use uw in simp)
  obtain wk0 where raw: "aes_kw_unwrap cr (vec_data (k_wrapped_kek kr)) (Some wk0) = Some k"
    using kek_unwrap_raw [OF uw] by blast
  have "kek_open cr h (kr\<lparr>k_wrapped_kek := wr\<rparr>) = kek_open cr (u_password_hash r) kr"
    using kek_open_rewrapped [OF law raw old k] old by simp
  then have "contents cr (db_tabs db') = contents cr ?t"
    using contents_rewrap [OF wf r kr0] t3 by simp
  moreover have "find_user u (db_tabs db') = Some (r\<lparr>u_password_hash := h\<rparr>)"
    using t3 r find_user_set_hash [of u "u_id r" h ?t] by (simp add: find_user_def set_wrapped_kek_def)
  ultimately show ?thesis ..
qed

lemma change_transaction_effect:
  assumes run: "change_password_in_transaction cr u user h v = (st, v')" and law: "lawful cr"
    and ok: "vault_ok cr v" and r: "find_user u (db_tabs (v_db v)) = Some r"
    and user: "user = \<lparr>ur_id = u_id r, ur_password_hash = u_password_hash r\<rparr>"
  shows "contents cr (db_tabs (v_db v')) = contents cr (db_tabs (v_db v))
    \<and> find_user u (db_tabs (v_db v')) =
        (if st = SSM_OK then Some (r\<lparr>u_password_hash := h\<rparr>) else Some r)"
proof -
  let ?d = "v_db v"
  let ?begun = "?d\<lparr>fl_begin := tl (fl_begin ?d), db_snap := Some (db_tabs ?d)\<rparr>"
  have s: "steady ?d" using vault_ok_D(1) [OF ok] .
  have b: "exec_begin ?d = (True, ?begun)" using s by (intro exec_begin_ok) (auto simp: steady_def)
  obtain a db1 m1 where body: "change_password_body cr user h ?begun (v_mach v) = (a, db1, m1)"
    by (metis prod_cases3)
  note fr = change_password_body_frame [OF body]
  have c: "exec_commit db1 = (True, db1\<lparr>fl_commit := tl (fl_commit db1), db_snap := None\<rparr>)"
    using fr s by (intro exec_commit_ok) (auto simp: steady_def same_conn_def)
  have snap: "db_snap db1 = Some (db_tabs ?d)" using fr by (simp add: same_conn_def)
  note run1 = run [unfolded change_password_in_transaction_def b snd_conv body prod.case Let_def c]
  have fu: "find_user u (db_tabs (v_db (log_audit x i op z tgt det w))) = find_user u (db_tabs (v_db w))"
    for x i op z tgt det w
    using same_but_auditD(1) [OF log_audit_frame(4)] by (simp add: find_user_def)
  show ?thesis
  proof (cases a)
    case True
    have eff: "contents cr (db_tabs db1) = contents cr (db_tabs ?d)
        \<and> find_user u (db_tabs db1) = Some (r\<lparr>u_password_hash := h\<rparr>)"
      using change_body_effect [OF body [unfolded eqTrueI [OF True]] law _ _ user, of u] r
        vault_ok_D(2) [OF ok] by simp
    have "st = SSM_OK" using run1 True by auto
    moreover have "v' = log_audit u (ur_id user) ''user_change_password'' SSM_OK None detail_ok
      (v\<lparr>v_db := db1\<lparr>fl_commit := tl (fl_commit db1), db_snap := None\<rparr>, v_mach := m1,
         v_cache := cache_invalidate (ur_id user) (v_cache v)\<rparr>)"
      using run1 True by auto
    ultimately show ?thesis using eff by (simp add: fu)
  next
    case False
    have "st = SSM_ERR_INTERNAL" using run1 False by auto
    moreover have "v' = log_audit u (ur_id user) ''user_change_password'' SSM_ERR_INTERNAL None None
      (v\<lparr>v_db := exec_rollback db1, v_mach := m1\<rparr>)" using run1 False by auto
    ultimately show ?thesis using snap r by (simp add: fu exec_rollback_def)
  qed
qed

lemma change_password_effect:
  assumes run: "ssm_user_change_password cr vd u p q v = (st, v')" and law: "lawful cr" and ok: "vault_ok cr v"
  shows "contents cr (db_tabs (v_db v')) = contents cr (db_tabs (v_db v))"
proof (cases "u = None \<or> p = None \<or> q = None \<or> \<not> is_valid_username u \<or> vd (the q) \<noteq> SSM_OK")
  case True
  then show ?thesis using run by (auto simp: ssm_user_change_password_def split: option.splits if_splits)
next
  case False
  then obtain u' p' q' where a: "u = Some u'" "p = Some p'" "q = Some q'"
    and g: "is_valid_username (Some u')" "vd q' = SSM_OK" by auto
  obtain ro db1 where f: "users_find_by_username (v_db v) u' = (ro, db1)" by fastforce
  note ok1 = vault_ok_users_find [OF ok f]
  note t1 = users_find_contents [OF f]
  obtain hb m1 where vb: "secure_vector_new 1 crypto_pwhash_STRBYTES (v_mach v) = (hb :: bytes option, m1)"
    by fastforce
  obtain ho m2 where ah: "argon2id_hash cr (bytes_of_string q') (vec_size hb) m1 = (ho, m2)" by fastforce
  have ok2: "vault_ok cr (v\<lparr>v_db := db1, v_mach := m2\<rparr>)" using ok1 by (simp add: vault_ok_def coherent_def)
  note run1 = run [unfolded ssm_user_change_password_def a option.case prod.case f vb ah Let_def]
  show ?thesis
  proof (cases "\<exists>ur. ro = Some ur \<and> argon2id_verify cr (bytes_of_string p') (ur_password_hash ur) \<and> ho \<noteq> None")
    case True
    then obtain ur h where ur: "ro = Some ur" "argon2id_verify cr (bytes_of_string p') (ur_password_hash ur)"
      "ho = Some h" by auto
    obtain r where r: "find_user u' (db_tabs (v_db v)) = Some r"
      "ur = \<lparr>ur_id = u_id r, ur_password_hash = u_password_hash r\<rparr>"
      using users_find_Some [of "v_db v" u' ur db1] f ur by auto
    have "change_password_in_transaction cr u' ur h (v\<lparr>v_db := db1, v_mach := m2\<rparr>) = (st, v')"
      using run1 g ur by simp
    from change_transaction_effect [OF this law ok2 _ r(2)] show ?thesis using r(1) t1 by simp
  next
    case False
    then show ?thesis using run1 g t1 by (cases ro; cases ho) (auto split: if_splits)
  qed
qed

lemma get_effect:
  assumes run: "ssm_secret_get cr u n g v = (st, g', v')" and ok: "vault_ok cr v" and law: "lawful cr"
  shows "contents cr (db_tabs (v_db v')) = contents cr (db_tabs (v_db v))"
proof (cases "u = None \<or> n = None \<or> go_private g = None \<or> go_private_len g = None")
  case True
  then show ?thesis using run by (auto simp: ssm_secret_get_def split: option.splits)
next
  case False
  then obtain u' n' b l where a: "u = Some u'" "n = Some n'" "go_private g = Some b"
    "go_private_len g = Some l" by auto
  note run1 = run [unfolded ssm_secret_get_def a option.case prod.case]
  have dl: "contents cr (db_tabs (v_db (snd (snd (deliver_secret cr x y ur sr k gg w)))))
      = contents cr (db_tabs (v_db w))" for x y ur sr k gg w
    by (auto simp: deliver_secret_def Let_def split: prod.split option.split)
  show ?thesis
  proof (cases "open_session ''secret_get'' u' (Some n') v")
    case (Inl r)
    obtain s1 w1 where "r = (s1, w1)" by (cases r)
    then show ?thesis using run1 Inl open_session_Inl [OF ok, of "''secret_get''" u' "Some n'" s1 w1] by simp
  next
    case (Inr x)
    obtain user km v1 where x: "x = (user, km, v1)" by (cases x)
    have s: "session (db_tabs (v_db v1)) u' user km" "vault_ok cr v1" "db_tabs (v_db v1) = db_tabs (v_db v)"
      using open_session_cases [OF ok, where op = "''secret_get''" and u = u' and tgt = "Some n'"] Inr x
      by simp_all
    obtain so db2 where f: "secrets_find (v_db v1) (ur_id user) (Some n') = (so, db2)" by fastforce
    have fr: "same_conn (v_db v1) db2" "db_tabs db2 = db_tabs (v_db v1)"
      using secrets_find_frame [of "v_db v1" "ur_id user" "Some n'"] f by simp_all
    obtain ko v3 where l: "load_kek cr user km (v1\<lparr>v_db := db2\<rparr>) = (ko, v3)" by fastforce
    have k: "v_db v3 = db2" using session_kek [OF vault_ok_read [OF s(2) fr] law _ l] s fr by simp
    show ?thesis
    proof (cases so)
      case None
      then show ?thesis using run1 Inr x f fr s by auto
    next
      case (Some sr)
      note run2 = run1 [unfolded Inr x sum.case prod.case f Some option.case l]
      show ?thesis
      proof (cases ko)
        case None
        then show ?thesis using run2 fr s k by auto
      next
        case (Some kek)
        then show ?thesis using run2 dl [of u' n' user sr kek g v3] k fr s by simp
      qed
    qed
  qed
qed

lemma list_effect:
  assumes run: "ssm_secret_list u cb v = (st, xs, v')" and ok: "vault_ok cr v"
  shows "contents cr (db_tabs (v_db v')) = contents cr (db_tabs (v_db v))"
proof (cases "u = None \<or> \<not> cb")
  case False
  then obtain u' where a: "u = Some u'" "cb" by auto
  show ?thesis
  proof (cases "open_session ''secret_list'' u' None v")
    case (Inl r)
    obtain s1 w1 where "r = (s1, w1)" by (cases r)
    then show ?thesis using run a Inl open_session_Inl [OF ok, of "''secret_list''" u' None s1 w1]
      by (simp add: ssm_secret_list_def)
  next
    case (Inr x)
    obtain user km v1 where x: "x = (user, km, v1)" by (cases x)
    obtain so db2 where d: "secrets_list_for_user (v_db v1) (ur_id user) = (so, db2)" by fastforce
    have "db_tabs db2 = db_tabs (v_db v)"
      using secrets_list_cases(2) [OF d] open_session_Inr [OF ok Inr [unfolded x]] by auto
    then show ?thesis using run a Inr x d by (cases so) (auto simp: ssm_secret_list_def)
  qed
qed (use run in \<open>auto simp: ssm_secret_list_def split: option.splits\<close>)

lemma query_effect:
  "contents cr (db_tabs (v_db (snd (snd (ssm_audit_log_query u op res l off cb v)))))
    = contents cr (db_tabs (v_db v))"
  using audit_query_frame
  by (auto simp: ssm_audit_log_query_def split: prod.split option.split) (metis snd_conv)+

lemma migrate_effect:
  assumes "ssm_db_migrate v = (st, v')" and ok: "vault_ok cr v"
  shows "contents cr (db_tabs (v_db v')) = contents cr (db_tabs (v_db v))"
proof -
  obtain a db1 where m: "db_migrate (v_db v) = (a, db1)" by fastforce
  have "grown (db_tabs (v_db v)) (db_tabs db1)" using db_migrate_steady [OF m vault_ok_D(1) [OF ok]] by blast
  then show ?thesis using assms(1) m
    by (auto simp: ssm_db_migrate_def grown_def same_rows_def intro: contents_same)
qed

lemma version_effect: "contents cr (db_tabs (v_db (snd (snd (ssm_db_version out v))))) = contents cr (db_tabs (v_db v))"
  by (auto simp: ssm_db_version_def Let_def dest!: db_get_versionD split: option.split prod.split)

end
