(* ===== verification/Lifecycle.thy ===== *)
theory Lifecycle
  imports Vault_Spec
begin

section \<open>Opening and closing a handle (\<open>ssm_init\<close>, \<open>ssm_destroy\<close>)\<close>

text \<open>
  \<open>ssm_init\<close> opens the file, creates and migrates the schema, prunes the audit log and allocates the
  handle; \<open>ssm_destroy\<close> wipes the cache and closes the connection. \<open>os\<close> holds what the operating system
  and the libraries answer: whether libsodium initialises, whether the database library is SQLCipher,
  the files, the oracles of the new connection, the machine, and whether \<open>malloc\<close> gives memory for the
  path.
\<close>

record os_env =
  os_sodium :: bool
  os_cipher :: bool
  os_files :: "string \<Rightarrow> tables option"
  os_conn :: sqlite
  os_mach :: machine
  os_malloc :: bool

text \<open>256 slots of 56 bytes and 88 bytes around them; only that it is not zero matters.\<close>

definition sizeof_handle :: nat where
  "sizeof_handle = 14424"

text \<open>The answer is the status, the handle if one was made, and what the database file holds when the
  call closed it again.\<close>

definition ssm_init ::
  "os_env \<Rightarrow> bool \<Rightarrow> string option \<Rightarrow> bytes option \<Rightarrow> ssm_status \<times> vault option \<times> tables option" where
  "ssm_init os out db_path db_key =
     (if \<not> out then (SSM_ERR_INTERNAL, None, None)
      else if \<not> os_sodium os then (SSM_ERR_INTERNAL, None, None)
      else (let (ok1, db1) = db_open (os_cipher os) (os_files os) (os_conn os) db_path db_key
            in if \<not> ok1 then (SSM_ERR_INTERNAL, None, None)
               else (let (ok2, db2) = db_create_schema db1
                     in if \<not> ok2 then (SSM_ERR_INTERNAL, None, Some (db_close db2))
                        else (let (ok3, db3) = db_migrate db2
                              in if \<not> ok3 then (SSM_ERR_INTERNAL, None, Some (db_close db3))
                                 else (let (_, db4) = audit_log_prune (m_now (os_mach os)) db3 90;
                                           (mem, m1) = secure_alloc sizeof_handle (os_mach os)
                                       in if mem = None \<or> \<not> os_malloc os
                                          then (SSM_ERR_INTERNAL, None, Some (db_close db4))
                                          else (SSM_OK,
                                                Some \<lparr>v_db = db4,
                                                      v_path = (case db_path of None \<Rightarrow> [] | Some p \<Rightarrow> p),
                                                      v_cache = new_cache, v_mach = m1\<rparr>,
                                                None))))))"

text \<open>\<open>ssm_destroy\<close>: what the file holds afterwards and the cache memory as it is freed.\<close>

definition ssm_destroy :: "vault option \<Rightarrow> ssm_status \<times> (tables \<times> cache) option" where
  "ssm_destroy h =
     (case h of None \<Rightarrow> (SSM_ERR_INTERNAL, None)
      | Some v \<Rightarrow> (SSM_OK, Some (db_close (v_db v), erase_all (v_cache v))))"

subsection \<open>A new handle is well-formed\<close>

text \<open>
  What a file may hold: nothing yet, or well-formed tables. A file made before the table \<open>secrets\<close> had
  its \<open>UNIQUE\<close> clause is covered once its index is there.
\<close>

definition file_ok :: "tables \<Rightarrow> bool" where
  "file_ok t \<longleftrightarrow> (if t_exists t then wf_tables t
     else t = empty_tables\<lparr>t_version := t_version t, t_idx_user := t_idx_user t,
                           t_idx_name := t_idx_name t\<rparr>)"

lemma sql_calls_frame:
  "same_conn db (snd (sql_calls n db)) \<and> db_tabs (snd (sql_calls n db)) = db_tabs db"
proof (induction n arbitrary: db)
  case (Suc n)
  obtain ok db1 where c: "sql_call db = (ok, db1)" by fastforce
  show ?case
    using Suc [of db1] sql_frameD(1) [OF c] same_conn_trans
    by (subst (1 2) sql_calls.simps) (auto simp: c)
qed (simp add: sql_calls.simps)

lemma empty_wf: "wf_tables (empty_tables\<lparr>t_version := v, t_idx_user := i, t_idx_name := j,
    t_exists := True, t_unique_names := True\<rparr>)"
  by (simp add: wf_tables_def users_ok_def keks_ok_def secrets_ok_def sizes_ok_def audit_ok_def
      empty_tables_def)

lemma create_schema_ok:
  assumes run: "db_create_schema db = (True, db')" and f: "file_ok (db_tabs db)"
    and s: "\<not> db_null db" "\<not> db_readonly db" "db_snap db = None" "True \<notin> set (fl_begin db)"
      "True \<notin> set (fl_commit db)"
  shows "steady db' \<and> wf_tables (db_tabs db')"
proof -
  obtain ok1 db1 where c: "sql_call db = (ok1, db1)" by fastforce
  note d1 = sql_frameD(1) [OF c]
  have ok1: "ok1" using run s(1) by (auto simp: db_create_schema_def c split: if_splits)
  have snap: "db_snap db1 = None" using d1 s by (simp add: same_conn_def)
  let ?db2 = "db1\<lparr>db_fk := True\<rparr>"
  obtain ok2 db3 where k: "sql_calls 5 ?db2 = (ok2, db3)" by fastforce
  have d3: "same_conn ?db2 db3" "db_tabs db3 = db_tabs db"
    using sql_calls_frame [of ?db2 5] k d1 by simp_all
  have st3: "steady db3" using d3(1) d1 s by (auto simp: steady_def same_conn_def)
  let ?t = "db_tabs db"
  let ?db4 = "if t_exists ?t then db3 else db3\<lparr>db_tabs := ?t\<lparr>t_exists := True, t_unique_names := True\<rparr>\<rparr>"
  have wf4: "wf_tables (db_tabs ?db4)"
  proof (cases "t_exists ?t")
    case True
    then show ?thesis using f d3 by (simp add: file_ok_def)
  next
    case False
    then have "?t = empty_tables\<lparr>t_version := t_version ?t, t_idx_user := t_idx_user ?t,
        t_idx_name := t_idx_name ?t\<rparr>" using f by (simp add: file_ok_def)
    then have "?t\<lparr>t_exists := True, t_unique_names := True\<rparr> = empty_tables\<lparr>t_version := t_version ?t,
        t_idx_user := t_idx_user ?t, t_idx_name := t_idx_name ?t, t_exists := True,
        t_unique_names := True\<rparr>" by metis
    then show ?thesis using empty_wf False by simp
  qed
  have st4: "steady ?db4" using st3 by (simp add: steady_def)
  obtain v db5 where g: "db_get_version ?db4 = (v, db5)" by fastforce
  note d5 = db_get_versionD [OF g]
  have e: "db' = (if v = 0 then snd (db_set_version db5 1) else db5)"
    using run s(1) ok1 snap
    by (simp add: db_create_schema_def c k d3(2) g Let_def split: if_splits)
  have wf5: "wf_tables (db_tabs db5)" "steady db5"
    using d5 wf4 st4 same_conn_steady [of ?db4 db5] by simp_all
  obtain r db6 where w: "db_set_version db5 1 = (r, db6)" by fastforce
  have "wf_tables (t\<lparr>t_version := x\<rparr>) = wf_tables t" for t x
    by (simp add: wf_tables_def users_ok_def keks_ok_def secrets_ok_def sizes_ok_def audit_ok_def)
  then show ?thesis
    using e w db_set_versionD [OF w] wf5 same_conn_steady [of db5 db6] by (auto split: if_splits)
qed

lemma prune_frame:
  "audit_log_prune now db days = (ok, db') \<Longrightarrow> wf_tables (db_tabs db) \<Longrightarrow>
   same_conn db db' \<and> wf_tables (db_tabs db')"
  by (auto simp: audit_log_prune_def Let_def prune_audit_frame dest!: sql_frameD
      split: prod.splits if_splits)

text \<open>
  C26. A handle that \<open>ssm_init\<close> returns satisfies the invariant of the library, for a new file as for
  one with well-formed tables, whatever statements failed on the way; a call that fails returns no
  handle.
\<close>

theorem init_gives_valid_handle:
  assumes "ssm_init os out path key = (st, h, left)"
    and "\<And>p t. os_files os p = Some t \<Longrightarrow> file_ok t"
    and "True \<notin> set (fl_begin (os_conn os))" and "True \<notin> set (fl_commit (os_conn os))"
  shows "(st = SSM_OK \<longleftrightarrow> h \<noteq> None) \<and> (\<forall>v. h = Some v \<longrightarrow> vault_ok cr v)"
proof -
  obtain ok1 db1 where o: "db_open (os_cipher os) (os_files os) (os_conn os) path key = (ok1, db1)"
    by fastforce
  obtain ok2 db2 where c: "db_create_schema db1 = (ok2, db2)" by fastforce
  obtain ok3 db3 where m: "db_migrate db2 = (ok3, db3)" by fastforce
  obtain ok4 db4 where p: "audit_log_prune (m_now (os_mach os)) db3 90 = (ok4, db4)" by fastforce
  obtain mem m1 where a: "secure_alloc sizeof_handle (os_mach os) = (mem, m1)" by fastforce
  note run = assms(1) [unfolded ssm_init_def o prod.case Let_def c m p a]
  have iff: "st = SSM_OK \<longleftrightarrow> h \<noteq> None" using run by (auto split: if_splits)
  moreover have "vault_ok cr v" if h: "h = Some v" for v
  proof -
    have ok: "ok1" "ok2" "ok3" and v: "v_db v = db4" "v_cache v = new_cache"
      using run h by (auto split: if_splits)
    have db1: "\<not> db_null db1" "\<not> db_readonly db1" "db_snap db1 = None" "fl_begin db1 = fl_begin (os_conn os)"
      "fl_commit db1 = fl_commit (os_conn os)" "file_ok (db_tabs db1)"
      using o ok(1) assms(2)
      by (auto simp: db_open_def fresh_connection_def Let_def same_conn_def dest!: sql_frameD
          split: option.splits if_splits prod.splits)
    have s2: "steady db2" "wf_tables (db_tabs db2)"
      using create_schema_ok [of db1 db2] c ok(2) db1 assms(3,4) by simp_all
    have s3: "steady db3" "wf_tables (db_tabs db3)"
      using db_migrate_steady [OF m s2(1)] grown_wf s2(2) by blast+
    have "steady db4" "wf_tables (db_tabs db4)"
      using prune_frame [OF p s3(2)] s3(1) same_conn_steady by blast+
    then show ?thesis using v by (simp add: vault_ok_def coherent_def new_cache_ok)
  qed
  ultimately show ?thesis by blast
qed

text \<open>
  Closing a handle leaves no key material of the cache in memory, in whatever state a run left the
  cache, rolls an open transaction back, and a null handle is refused.
\<close>

theorem destroy_wipes_keys:
  assumes "vault_ok cr v"
  shows "\<exists>t c. ssm_destroy (Some v) = (SSM_OK, Some (t, c)) \<and> t = db_tabs (v_db v)
    \<and> (\<forall>e \<in> set (c_slots c). ce_key e = replicate KEK_KEY_LEN 0)
    \<and> ssm_destroy None = (SSM_ERR_INTERNAL, None)"
  using erase_all_zero [OF vault_ok_D(3) [OF assms]] vault_ok_D(1) [OF assms]
  by (simp add: ssm_destroy_def db_close_def exec_rollback_def steady_def)

end
