(* ===== verification/Sample_Provider.thy ===== *)
theory Sample_Provider
  imports Crypto
begin

section \<open>A concrete provider\<close>

text \<open>
  The theorems take the cryptographic primitives as a parameter with the laws of \<open>Crypto\<close> as a
  hypothesis. This theory holds a small computable provider that satisfies the laws, so that each
  of those theorems can be applied to a concrete run. It models nothing of the repository and is no
  cipher: the ciphertext is the plaintext backwards, and the tag a checksum of a few bytes.
\<close>

definition first_byte :: "bytes \<Rightarrow> byte" where
  "first_byte xs = (case xs of [] \<Rightarrow> 0 | b # _ \<Rightarrow> b)"

lemma first_byte_simps [simp]:
  "first_byte [] = 0" "first_byte (b # xs) = b"
  "first_byte (replicate n b @ xs) = (if n = 0 then first_byte xs else b)"
  "first_byte (replicate n b) = (if n = 0 then 0 else b)"
  by (cases n; simp add: first_byte_def)+

definition checksum :: "bytes \<Rightarrow> byte" where
  "checksum xs = first_byte xs + 3 * first_byte (rev xs) + 5 * word_of_nat (length xs)"

definition fit :: "nat \<Rightarrow> bytes \<Rightarrow> bytes" where
  "fit n xs = take n (xs @ replicate n 0)"

definition sample :: provider where
  "sample = \<lparr>
     pv_pwhash = (\<lambda>p s. Some (replicate 32 (checksum (p @ s)))),
     pv_pwhash_str = (\<lambda>p s. Some (replicate 1 (checksum p) @ fit 127 s)),
     pv_pwhash_str_verify = (\<lambda>h p. first_byte h = checksum p),
     pv_gcm_seal = (\<lambda>k n a p. Some (rev p, replicate 16 (checksum (k @ n @ a @ p)))),
     pv_gcm_open = (\<lambda>k n a c t.
        if t = replicate 16 (checksum (k @ n @ a @ rev c)) then Some (rev c) else None),
     pv_kw_wrap = (\<lambda>k p. Some (rev p @ replicate 8 (checksum (k @ p)))),
     pv_kw_unwrap = (\<lambda>k c.
        if 8 \<le> length c
           \<and> drop (length c - 8) c = replicate 8 (checksum (k @ rev (take (length c - 8) c)))
        then Some (rev (take (length c - 8) c)) else None),
     pv_sha256 = (\<lambda>x. replicate 32 (checksum x)),
     pv_hmac = (\<lambda>k x. replicate 32 (checksum (k @ x)))\<rparr>"

lemma length_fit [simp]: "length (fit n xs) = n"
  by (simp add: fit_def)

lemma sample_lawful: "lawful sample"
  by (auto simp: lawful_def gcm_law_def kw_law_def pwhash_law_def hash_law_def sample_def
      first_byte_def split: if_splits)

end
