(* ===== verification/Sample_Run.thy ===== *)
theory Sample_Run
  imports Vault_Contents Lifecycle Sample_Provider
begin

section \<open>A concrete handle, and the theorems applied to it\<close>

text \<open>
  One user \<open>ann\<close> with password \<open>pw\<close> and one secret \<open>k\<close> holding the bytes 1, 2, 3, as
  \<open>ssm_user_register\<close> and \<open>ssm_secret_store\<close> leave them under the provider \<open>sample\<close>, on a connection where
  nothing fails. The lemmas of this theory apply the theorems of the others to this handle.
\<close>

named_theorems evaluate \<open>definitions to unfold when a call is evaluated on the sample handle\<close>

definition sample_machine :: machine where
  "sample_machine = \<lparr>m_now = 1000, m_rand = (\<lambda>_. 9), m_pos = 76, m_alloc = []\<rparr>"

definition sample_user :: user_rec where
  "sample_user = \<lparr>u_id = 1, u_username = ''ann'',
     u_password_hash = 223 # replicate 16 9 @ replicate 111 0,
     u_created_at = ''1970-01-01T00:16:40Z''\<rparr>"

definition sample_kek :: kek_rec where
  "sample_kek = \<lparr>k_id = 1, k_user_id = 1,
     k_wrapped_kek = replicate 32 9 @ replicate 8 37,
     k_salt = replicate 16 9,
     k_expires_at = ''1970-04-01T00:16:40Z'', k_version = 1\<rparr>"

definition sample_secret :: secret_rec where
  "sample_secret = \<lparr>s_id = 1, s_user_id = 1, s_name = Some ''k'', s_private_key = [3, 2, 1],
     s_public_key = None, s_nonce = replicate 12 9,
     s_tag = replicate 16 253, s_description = None, s_updated_at = ''1970-01-01T00:16:40Z''\<rparr>"

definition sample_entry :: audit_rec where
  "sample_entry = \<lparr>a_id = 1, a_user_id = Some 1, a_username = ''ann'', a_operation = ''user_register'',
     a_target = None, a_details = None, a_result = ''SSM_OK'', a_timestamp = ''1970-01-01T00:16:40Z''\<rparr>"

definition sample_tables :: tables where
  "sample_tables = \<lparr>t_exists = True, t_unique_names = True, t_users = [sample_user],
     t_keks = [sample_kek], t_secrets = [sample_secret], t_audit = [sample_entry],
     t_user_seq = 1, t_kek_seq = 1, t_secret_seq = 1, t_audit_seq = 1,
     t_version = 3, t_idx_user = True, t_idx_name = True\<rparr>"

definition sample_db :: sqlite where
  "sample_db = \<lparr>db_null = False, db_readonly = False, db_tabs = sample_tables, db_snap = None,
     db_fk = True, fl_stmt = [], fl_row = [], fl_begin = [], fl_commit = []\<rparr>"

definition sample_vault :: vault where
  "sample_vault = \<lparr>v_db = sample_db, v_path = ''v.db'', v_cache = new_cache, v_mach = sample_machine\<rparr>"

definition sample_vd :: validator where
  "sample_vd = (\<lambda>_. SSM_OK)"

definition sample_out :: key_out where
  "sample_out = \<lparr>go_private = Some [0, 0, 0, 0], go_private_len = Some 4, go_public = None,
     go_public_len = None\<rparr>"

lemma sample_wf: "wf_tables sample_tables"
  by (simp add: wf_tables_def users_ok_def keks_ok_def secrets_ok_def sizes_ok_def audit_ok_def
      secret_key_def sample_tables_def sample_user_def sample_kek_def sample_secret_def sample_entry_def)

lemma sample_db_simps [simp]:
  "db_tabs sample_db = sample_tables" "fl_row sample_db = []" "fl_stmt sample_db = []"
  "db_null sample_db = False" "db_snap sample_db = None"
  "steady sample_db" "healthy sample_db"
  by (simp_all add: sample_db_def sample_tables_def steady_def healthy_def)

lemma sample_vault_simps [simp]:
  "v_db sample_vault = sample_db" "v_cache sample_vault = new_cache" "v_mach sample_vault = sample_machine"
  "m_now sample_machine = 1000" "m_alloc sample_machine = []"
  by (simp_all add: sample_vault_def sample_machine_def)

text \<open>Evaluation by rewriting: the definitions a call goes through, and the time stamps involved.\<close>

lemma sample_times [evaluate]:
  "iso_time 1000 = ''1970-01-01T00:16:40Z''"
  "kek_is_expired 1000 (Some ''1970-04-01T00:16:40Z'') = False"
  "kek_expires_at 1000 90 24 = Some ''1970-04-01T00:16:40Z''"
  "kek_expires_at 1000 KEK_DEFAULT_DAYS 24 = Some ''1970-04-01T00:16:40Z''"
  by code_simp+

lemma new_cache_lookup [evaluate]:
  "cache_lookup now u new_cache = (None, new_cache\<lparr>c_misses := 1\<rparr>)"
proof -
  have "lookup_slots now u (replicate n empty_slot) = None" for n
    by (induction n) (simp_all add: holds_def empty_slot_def)
  then show ?thesis by (simp add: cache_lookup_def new_cache_def)
qed

lemmas [evaluate] = sample_tables_def sample_user_def sample_kek_def sample_secret_def sample_entry_def
  sample_db_def sample_machine_def sample_vault_def sample_out_def sample_vd_def sample_def checksum_def fit_def

lemmas [evaluate] = contents_def stored_plaintext_def find_user_def find_kek_def find_secret_def
  kek_open_def kek_derive_wrapping_key_def open_secret_def has_name_def load_key_def
  KEK_KEY_LEN_def KEK_SALT_LEN_def AES_KW_BLOCK_def AES_256_KEY_LEN_def crypto_pwhash_SALTBYTES_def
  crypto_pwhash_STRBYTES_def AES_GCM_NONCE_LEN_def AES_GCM_TAG_LEN_def SSM_USERNAME_MAX_def
  aes_kw_wrap_def aes_kw_unwrap_def aes_gcm_encrypt_def aes_gcm_decrypt_def argon2id_hash_def
  argon2id_verify_def vec_data_def c_int_exact

lemmas [evaluate] = sql_call_def sql_prepare_def sql_write_def exec_begin_def exec_commit_def
  exec_rollback_def bind_blob_def SQLITE_MAX_LENGTH_def next_rowid_def MAX_ROWID_def

lemmas [evaluate] = secure_vector_new_def alloc_elements_def secure_alloc_def SIZE_MAX_def vec_size_def
  random_bytes_def map_replicate_const

lemmas [evaluate] = users_find_by_username_def kek_find_by_user_def secrets_find_def read_kek_row_def
  read_secret_row_def insert_user_def users_create_def delete_user_row_def users_delete_def
  set_password_hash_def update_password_hash_def insert_kek_def kek_store_def update_kek_def kek_update_def
  set_wrapped_kek_def update_wrapped_kek_def name_taken_def insert_secret_def secrets_store_def
  delete_secret_def secrets_delete_def secrets_of_user_def secrets_list_for_user_def reencrypt_row_def
  update_secret_def

lemmas [evaluate] = open_session_def load_kek_def fetch_wrapping_key_def deliver_secret_def put_public_def
  copy_to_def is_valid_username_def

lemmas [evaluate] = kek_rotate_def rotate_buffers_def rotate_body_def rotate_secrets_def kek_generate_def
  kek_unwrap_def max_private_len_def reencrypt_one_def step_update_secret_def

lemma sample_ok: "vault_ok sample sample_vault"
  by (simp add: vault_ok_def coherent_def sample_wf new_cache_ok)

subsection \<open>The theorems of the other theories on this handle\<close>

lemma get_sample:
  "fst (ssm_secret_get sample (Some ''ann'') (Some ''k'') sample_out sample_vault) = SSM_OK"
  by (simp add: evaluate ssm_secret_get_def)

lemma rotate_sample:
  "fst (kek_rotate sample sample_db 1 (vec_data (u_password_hash sample_user)) sample_machine)"
  by (simp add: evaluate)

lemma delete_sample: "fst (ssm_secret_delete (Some ''ann'') (Some ''k'') sample_vault) = SSM_OK"
  by (simp add: evaluate ssm_secret_delete_def)

lemma sample_contents: "contents sample sample_tables (''ann'', ''k'') = Some [1, 2, 3]"
  by (simp add: evaluate)

lemma sample_stored:
  "stored_plaintext sample sample_tables (u_password_hash sample_user) 1 ''k'' = Some [1, 2, 3]"
  by (simp add: evaluate)

theorem get_delivers_contents_witness:
  "\<exists>g' v'. ssm_secret_get sample (Some ''ann'') (Some ''k'') sample_out sample_vault = (SSM_OK, g', v')
    \<and> go_private g' = Some [1, 2, 3, 0] \<and> go_private_len g' = Some 3"
proof -
  obtain g' v' where run:
    "ssm_secret_get sample (Some ''ann'') (Some ''k'') sample_out sample_vault = (SSM_OK, g', v')"
    using get_sample by (metis prod.collapse)
  show ?thesis
    using get_delivers_contents [OF run sample_ok sample_lawful] sample_contents run
    by (auto simp: sample_out_def copy_to_def)
qed

theorem rotate_preserves_plaintexts_witness:
  "\<exists>db' m'. kek_rotate sample sample_db 1 (vec_data (u_password_hash sample_user)) sample_machine
      = (True, db', m')
    \<and> stored_plaintext sample (db_tabs db') (u_password_hash sample_user) 1 ''k'' = Some [1, 2, 3]"
proof -
  obtain db' m' where run:
    "kek_rotate sample sample_db 1 (vec_data (u_password_hash sample_user)) sample_machine = (True, db', m')"
    using rotate_sample by (metis eqTrueI prod.collapse)
  show ?thesis
    using rotate_preserves_plaintexts [OF run sample_lawful] sample_stored run by (auto simp: sample_wf)
qed

theorem rotate_failure_changes_nothing_witness:
  "\<exists>db' m'. kek_rotate sample (sample_db\<lparr>fl_stmt := [False, True]\<rparr>) 1
      (vec_data (u_password_hash sample_user)) sample_machine = (False, db', m')
    \<and> db_tabs db' = sample_tables"
proof -
  have "\<not> fst (kek_rotate sample (sample_db\<lparr>fl_stmt := [False, True]\<rparr>) 1
      (vec_data (u_password_hash sample_user)) sample_machine)"
    by (simp add: evaluate)
  then obtain db' m' where run: "kek_rotate sample (sample_db\<lparr>fl_stmt := [False, True]\<rparr>) 1
      (vec_data (u_password_hash sample_user)) sample_machine = (False, db', m')"
    by (metis (full_types) prod.collapse)
  have "steady (sample_db\<lparr>fl_stmt := [False, True]\<rparr>)" by (simp add: sample_db_def steady_def)
  from rotate_failure_changes_nothing [OF run this] show ?thesis using run by auto
qed

text \<open>The environment of a first start: no file yet.\<close>

definition sample_env :: os_env where
  "sample_env = \<lparr>os_sodium = True, os_cipher = False, os_files = (\<lambda>_. Some empty_tables),
     os_conn = sample_db, os_mach = sample_machine, os_malloc = True\<rparr>"

lemma empty_file_ok: "file_ok empty_tables"
  by (simp add: file_ok_def empty_tables_def)

theorem init_gives_valid_handle_witness:
  "\<exists>v. fst (snd (ssm_init sample_env True (Some ''v.db'') None)) = Some v \<and> vault_ok sample v"
proof -
  obtain st h left where run: "ssm_init sample_env True (Some ''v.db'') None = (st, h, left)"
    by (metis prod_cases3)
  have "fst (ssm_init sample_env True (Some ''v.db'') None) = SSM_OK"
    by (simp add: ssm_init_def sample_env_def db_open_def fresh_connection_def sample_db_def empty_tables_def
        db_create_schema_def sql_call_def sql_calls.simps db_get_version_def db_set_version_def
        db_migrate_def SSM_SCHEMA_VERSION_def migrations_def migrate_step_def exec_ddl_def run_ddl_def
        secret_keys_def exec_begin_def exec_commit_def audit_log_prune_def sql_write_def sql_prepare_def
        secure_alloc_def sizeof_handle_def Let_def split: prod.split)
  then show ?thesis
    using init_gives_valid_handle [OF run, where cr = sample] run empty_file_ok
    by (auto simp: sample_env_def sample_db_def split: if_splits)
qed

text \<open>A file of schema version 1, without the indexes.\<close>

definition old_db :: sqlite where
  "old_db = sample_db\<lparr>db_tabs := sample_tables\<lparr>t_version := 1, t_idx_user := False, t_idx_name := False\<rparr>\<rparr>"

lemma old_db_simps [simp]:
  "healthy old_db" "t_version (db_tabs old_db) = 1" "\<not> t_idx_user (db_tabs old_db)"
  "\<not> t_idx_name (db_tabs old_db)" "versioned (db_tabs old_db)" "fl_row old_db = []" "db_snap old_db = None"
  "distinct (secret_keys (db_tabs old_db))"
  by (simp_all add: old_db_def sample_db_def sample_tables_def healthy_def versioned_def secret_keys_def
      sample_secret_def)

theorem migrate_reaches_schema_version_witness:
  "\<exists>db'. db_migrate old_db = (True, db') \<and> t_version (db_tabs db') = 3"
proof -
  have "fst (db_migrate old_db)"
    by (simp add: db_migrate_def old_db_def sample_db_def sample_tables_def sample_secret_def
        SSM_SCHEMA_VERSION_def db_get_version_def db_set_version_def sql_call_def migrations_def
        migrate_step_def exec_ddl_def run_ddl_def secret_keys_def exec_begin_def exec_commit_def)
  then obtain db' where run: "db_migrate old_db = (True, db')" by (metis eqTrueI prod.collapse)
  from migrate_reaches_schema_version [OF run] show ?thesis
    using run by (simp add: SSM_SCHEMA_VERSION_def)
qed

theorem rollback_undoes_migrate_witness:
  "db_rollback (snd (db_migrate old_db)) 1 = (True, old_db)"
  using rollback_undoes_migrate [of old_db] by simp

theorem failed_migrate_is_consistent_witness:
  "\<exists>db'. db_migrate (old_db\<lparr>fl_stmt := [False, True]\<rparr>) = (False, db') \<and> versioned (db_close db')"
proof -
  have "\<not> fst (db_migrate (old_db\<lparr>fl_stmt := [False, True]\<rparr>))"
    by (simp add: db_migrate_def old_db_def sample_db_def sample_tables_def sample_secret_def
        SSM_SCHEMA_VERSION_def db_get_version_def db_set_version_def sql_call_def migrations_def
        migrate_step_def exec_ddl_def run_ddl_def secret_keys_def exec_begin_def exec_commit_def)
  then obtain db' where run: "db_migrate (old_db\<lparr>fl_stmt := [False, True]\<rparr>) = (False, db')"
    by (metis (full_types) prod.collapse)
  from failed_migrate_is_consistent [OF run] show ?thesis using run by simp
qed

end
