(* ===== verification/Vault_Refinement.thy ===== *)
theory Vault_Refinement
  imports Vault_Contents
begin

section \<open>The interface as operations on a map\<close>

text \<open>
  The abstract specification of the library: a map from user and secret name to a private key, and
  what each call may answer and do to it. \<open>run_call_refines\<close> says that \<open>contents\<close> is such a map for every
  call of \<open>Vault_Api\<close>, \<open>run_call_isolates\<close> that no call made for other users touches a user's entries;
  \<open>Interface_Behaviour\<close> takes both to the whole interface and to runs of it.
\<close>

type_synonym holdings = "string \<times> string \<Rightarrow> bytes option"

definition delivered :: "bytes \<Rightarrow> key_out \<Rightarrow> key_out \<Rightarrow> bool" where
  "delivered p g g' \<longleftrightarrow> (\<exists>buf. go_private g = Some buf \<and> go_private g' = Some (copy_to p buf)
     \<and> go_private_len g' = Some (length p))"

definition spec_step :: "call \<Rightarrow> reply \<Rightarrow> holdings \<Rightarrow> holdings \<Rightarrow> bool" where
  "spec_step c r m m' =
     (case (c, r) of
        (Store (Some u) (Some pk) pub publen (Some n) d, Plain SSM_OK) \<Rightarrow>
          m (u, n) = None \<and> m' = m((u, n) \<mapsto> pk)
      | (Delete (Some u) (Some n), Plain SSM_OK) \<Rightarrow> m' = m((u, n) := None)
      | (Delete_User (Some u) p, Plain SSM_OK) \<Rightarrow> m' = (\<lambda>(x, n). if x = u then None else m (x, n))
      | (Get (Some u) (Some n) g, Keys SSM_OK g') \<Rightarrow>
          m' = m \<and> (\<exists>p. m (u, n) = Some p \<and> delivered p g g')
      | _ \<Rightarrow> m' = m)"

text \<open>A private key whose length fits the \<open>int\<close> the cipher and the database take.\<close>

fun storable :: "call \<Rightarrow> bool" where
  "storable (Store u (Some pk) pub publen n d) = (length pk < 2 ^ 31)"
| "storable c = True"

abbreviation holds_of :: "provider \<Rightarrow> vault \<Rightarrow> holdings" where
  "holds_of cr v \<equiv> contents cr (db_tabs (v_db v))"

lemma null_args_effect:
  "ssm_secret_store cr u pk pub l n d v = (st, v') \<Longrightarrow> u = None \<or> pk = None \<or> n = None \<Longrightarrow>
     st \<noteq> SSM_OK \<and> v' = v"
  "ssm_secret_delete u n v = (st, v') \<Longrightarrow> u = None \<or> n = None \<Longrightarrow> st \<noteq> SSM_OK \<and> v' = v"
  "ssm_user_delete cr u p v = (st, v') \<Longrightarrow> u = None \<Longrightarrow> st \<noteq> SSM_OK \<and> v' = v"
  "ssm_kek_rotate cr u v = (st, v') \<Longrightarrow> u = None \<Longrightarrow> st \<noteq> SSM_OK \<and> v' = v"
  "ssm_secret_get cr u n g v = (st, g', v') \<Longrightarrow> u = None \<or> n = None \<Longrightarrow> st \<noteq> SSM_OK \<and> v' = v"
  by (auto simp: ssm_secret_store_def ssm_secret_delete_def ssm_user_delete_def ssm_kek_rotate_def
      ssm_secret_get_def split: option.splits)

lemma store_refines:
  assumes "ssm_secret_store cr u pk pub l n d v = (st, v')" and "vault_ok cr v" and "lawful cr"
    and "storable (Store u pk pub l n d)"
  shows "spec_step (Store u pk pub l n d) (Plain st) (holds_of cr v) (holds_of cr v')"
proof (cases "u = None \<or> pk = None \<or> n = None")
  case True
  then show ?thesis using null_args_effect(1) [OF assms(1)]
    by (auto simp: spec_step_def split: option.split ssm_status.split)
next
  case False
  then obtain u' pk' n' where a: "u = Some u'" "pk = Some pk'" "n = Some n'" by auto
  from store_effect [OF assms(1) [unfolded a] assms(2,3)] assms(4) show ?thesis
    by (cases st) (auto simp: spec_step_def a)
qed

lemma get_refines:
  assumes run: "ssm_secret_get cr u n g v = (st, g', v')" and ok: "vault_ok cr v" and law: "lawful cr"
  shows "spec_step (Get u n g) (Keys st g') (holds_of cr v) (holds_of cr v')"
proof (cases "st = SSM_OK \<and> u \<noteq> None \<and> n \<noteq> None")
  case True
  then obtain u' n' where a: "u = Some u'" "n = Some n'" "st = SSM_OK" by auto
  from get_ok_contents [OF run [unfolded a] ok law] get_effect [OF run ok law] show ?thesis
    by (auto simp: spec_step_def a delivered_def)
next
  case False
  then show ?thesis using get_effect [OF run ok law]
    by (auto simp: spec_step_def split: option.split ssm_status.split)
qed

lemma delete_refines:
  assumes run: "ssm_secret_delete u n v = (st, v')" and ok: "vault_ok cr v"
  shows "spec_step (Delete u n) (Plain st) (holds_of cr v) (holds_of cr v')"
proof (cases "u = None \<or> n = None")
  case True
  then show ?thesis using null_args_effect(2) [OF run]
    by (auto simp: spec_step_def split: option.split ssm_status.split)
next
  case False
  then obtain u' n' where a: "u = Some u'" "n = Some n'" by auto
  from delete_effect [OF run [unfolded a] ok] show ?thesis by (cases st) (auto simp: spec_step_def a)
qed

lemma delete_user_refines:
  assumes run: "ssm_user_delete cr u p v = (st, v')" and ok: "vault_ok cr v"
  shows "spec_step (Delete_User u p) (Plain st) (holds_of cr v) (holds_of cr v')"
proof (cases u)
  case None
  then show ?thesis using null_args_effect(3) [OF run] by (auto simp: spec_step_def)
next
  case (Some u')
  from delete_user_effect [OF run [unfolded Some] ok] show ?thesis
    by (cases st) (auto simp: spec_step_def Some)
qed

text \<open>The calls that leave the map alone, whatever they answer.\<close>

lemma frame_refines: "m' = m \<Longrightarrow> spec_step c r m m'"
  if "case c of Store u pk pub l n d \<Rightarrow> False | Delete u n \<Rightarrow> False | Delete_User u p \<Rightarrow> False
    | Get u n g \<Rightarrow> False | _ \<Rightarrow> True" for c
  using that by (cases c) (auto simp: spec_step_def split: option.splits)

lemma rotate_unchanged:
  assumes run: "ssm_kek_rotate cr u v = (st, v')" and ok: "vault_ok cr v" and law: "lawful cr"
    and "fl_row (v_db v) = []"
  shows "holds_of cr v' = holds_of cr v"
proof (cases u)
  case None
  then show ?thesis using null_args_effect(4) [OF run] by simp
next
  case (Some u')
  show ?thesis using rotate_effect(2) [OF run [unfolded Some] ok law] assms(4) by simp
qed

lemma run_call_refines:
  assumes run: "run_call cr vd c v = (r, v')" and ok: "vault_ok cr v" and law: "lawful cr"
    and rows: "\<And>u. c = Rotate u \<Longrightarrow> fl_row (v_db v) = []" and fits: "storable c"
  shows "spec_step c r (holds_of cr v) (holds_of cr v')"
proof (cases c)
  case (Store u pk pub l n d)
  then show ?thesis using run store_refines [OF _ ok law, of u pk pub l n d] fits
    by (auto simp: run_call_def map_prod_def split: prod.splits)
next
  case (Get u n g)
  then show ?thesis using run get_refines [OF _ ok law, of u n g]
    by (auto simp: run_call_def split: prod.splits)
next
  case (Delete u n)
  then show ?thesis using run delete_refines [OF _ ok, of u n]
    by (auto simp: run_call_def map_prod_def split: prod.splits)
next
  case (Delete_User u p)
  then show ?thesis using run delete_user_refines [OF _ ok, of u p]
    by (auto simp: run_call_def map_prod_def split: prod.splits)
next
  case (Register u p)
  then show ?thesis using run register_effect [OF _ ok law]
    by (intro frame_refines) (auto simp: run_call_def map_prod_def split: prod.splits)
next
  case (Authenticate u p i)
  then show ?thesis using run authenticate_effect [of cr u p i v]
    by (intro frame_refines) (auto simp: run_call_def split: prod.splits)
next
  case (Change_Password u p q)
  then show ?thesis using run change_password_effect [OF _ law ok]
    by (intro frame_refines) (auto simp: run_call_def map_prod_def split: prod.splits)
next
  case (Rotate u)
  then show ?thesis using run rotate_unchanged [OF _ ok law] rows
    by (intro frame_refines) (auto simp: run_call_def map_prod_def split: prod.splits)
next
  case (List_Secrets u cb)
  then show ?thesis using run list_effect [OF _ ok]
    by (intro frame_refines) (auto simp: run_call_def split: prod.splits)
next
  case (Query_Audit u op res l off cb)
  then show ?thesis using run query_effect [of cr u op res l off cb v]
    by (intro frame_refines) (auto simp: run_call_def split: prod.splits)
next
  case (Cache_Stats out)
  then show ?thesis using run
    by (intro frame_refines) (auto simp: run_call_def ssm_cache_get_stats_def split: prod.splits option.splits)
next
  case (Db_Version out)
  then show ?thesis using run version_effect [of cr out v]
    by (intro frame_refines) (auto simp: run_call_def split: prod.splits)
next
  case Db_Migrate
  then show ?thesis using run migrate_effect [OF _ ok]
    by (intro frame_refines) (auto simp: run_call_def map_prod_def split: prod.splits)
qed

subsection \<open>Isolation of users\<close>

text \<open>The user a call is made for.\<close>

fun call_user :: "call \<Rightarrow> string option" where
  "call_user (Register u p) = u"
| "call_user (Authenticate u p i) = u"
| "call_user (Delete_User u p) = u"
| "call_user (Change_Password u p q) = u"
| "call_user (Rotate u) = u"
| "call_user (Store u pk pub l n d) = u"
| "call_user (Get u n g) = u"
| "call_user (Delete u n) = u"
| "call_user (List_Secrets u cb) = u"
| "call_user _ = None"

lemma spec_step_isolates: "spec_step c r m m' \<Longrightarrow> call_user c \<noteq> Some x \<Longrightarrow> m' (x, n) = m (x, n)"
  by (cases c; cases r) (auto simp: spec_step_def split: option.splits ssm_status.splits)

lemma run_call_isolates:
  assumes run: "run_call cr vd c v = (r, v')" and ok: "vault_ok cr v" and law: "lawful cr"
    and fits: "storable c" and other: "call_user c \<noteq> Some x"
  shows "holds_of cr v' (x, n) = holds_of cr v (x, n)"
proof (cases "\<exists>u. c = Rotate u")
  case False
  then show ?thesis
    using spec_step_isolates [OF run_call_refines [OF run ok law _ fits] other] by blast
next
  case True
  then obtain u where c: "c = Rotate u" by blast
  obtain st where rot: "ssm_kek_rotate cr u v = (st, v')"
    using run by (auto simp: run_call_def map_prod_def c split: prod.splits)
  show ?thesis
  proof (cases u)
    case None
    then show ?thesis using null_args_effect(4) [OF rot] by simp
  next
    case (Some u')
    then show ?thesis using rotate_effect(1) [OF rot [unfolded Some] ok law, of x n] other c by simp
  qed
qed

end
