(* ===== verification/Vault_Behaviour.thy ===== *)
theory Vault_Behaviour
  imports Vault_Refinement
begin

section \<open>What each operation answers\<close>

text \<open>
  The answers of the operations on every branch, in terms of the tables alone. The key cache does not
  appear in them: whether a wrapping key is cached or derived again makes no difference to any answer.
\<close>

subsection \<open>\<open>ssm_secret_get\<close> on a working connection\<close>

text \<open>The status and output buffers as a function of the tables, the clock and the buffers.\<close>

definition spec_get ::
  "provider \<Rightarrow> nat \<Rightarrow> tables \<Rightarrow> string \<Rightarrow> string \<Rightarrow> key_out \<Rightarrow> ssm_status \<times> key_out" where
  "spec_get cr now t u n g =
     (case find_user u t of None \<Rightarrow> (SSM_ERR_AUTH, g)
      | Some r \<Rightarrow>
     (case find_kek (u_id r) t of None \<Rightarrow> (SSM_ERR_INTERNAL, g)
      | Some kr \<Rightarrow>
     if kek_is_expired now (Some (k_expires_at kr)) then (SSM_ERR_EXPIRED, g)
     else
     (case find_secret (u_id r) n t of None \<Rightarrow> (SSM_ERR_NOT_FOUND, g)
      | Some s \<Rightarrow>
     (case kek_open cr (u_password_hash r) kr of None \<Rightarrow> (SSM_ERR_INTERNAL, g)
      | Some kek \<Rightarrow>
     let len = length (s_private_key s) in
     if the (go_private_len g) < len then (SSM_ERR_INTERNAL, g\<lparr>go_private_len := Some len\<rparr>)
     else (case open_secret cr kek s of None \<Rightarrow> (SSM_ERR_INTEGRITY, g)
      | Some p \<Rightarrow>
     let (fits, g') = put_public (sr_public_key (read_secret_row s))
           (g\<lparr>go_private := map_option (copy_to p) (go_private g), go_private_len := Some len\<rparr>)
     in (if fits then SSM_OK else SSM_ERR_INTERNAL, g'))))))"

lemma get_follows_spec:
  assumes h: "healthy (v_db v)" and ok: "vault_ok cr v" and law: "lawful cr" and a: "m_alloc (v_mach v) = []"
    and g: "go_private g = Some buf" "go_private_len g = Some cap"
    and run: "ssm_secret_get cr (Some u) (Some n) g v = (st, g', v')"
  shows "(st, g') = spec_get cr (m_now (v_mach v)) (db_tabs (v_db v)) u n g"
proof -
  let ?t = "db_tabs (v_db v)"
  note run1 = run [unfolded ssm_secret_get_def g option.case prod.case]
  show ?thesis
  proof (cases "find_user u ?t")
    case None
    then show ?thesis using run1 h by (simp add: open_session_def users_find_healthy spec_get_def)
  next
    case (Some r)
    note r = this
    show ?thesis
    proof (cases "find_kek (u_id r) ?t")
      case None
      then show ?thesis using run1 h r
        by (simp add: open_session_def users_find_healthy kek_find_healthy spec_get_def)
    next
      case (Some kr)
      note kr = this
      have os: "open_session ''secret_get'' u (Some n) v =
        (if kek_is_expired (m_now (v_mach v)) (Some (k_expires_at kr))
         then Inl (SSM_ERR_EXPIRED, log_audit u (u_id r) ''secret_get'' SSM_ERR_EXPIRED (Some n)
                 (detail_error ''KEK expired'') v)
         else Inr (\<lparr>ur_id = u_id r, ur_password_hash = u_password_hash r\<rparr>, read_kek_row kr, v))"
        using h r kr by (simp add: open_session_def users_find_healthy kek_find_healthy read_kek_row_def)
      show ?thesis
      proof (cases "kek_is_expired (m_now (v_mach v)) (Some (k_expires_at kr))")
        case True
        then show ?thesis using run1 os r kr by (simp add: spec_get_def)
      next
        case False
        note run2 = run1 [unfolded os if_not_P [OF False] sum.case prod.case user_row.select_convs]
        have sf: "secrets_find (v_db v) (u_id r) (Some n)
            = (map_option read_secret_row (find_secret (u_id r) n ?t), v_db v)"
          using h by (simp add: secrets_find_def healthyD)
        show ?thesis
        proof (cases "find_secret (u_id r) n ?t")
          case None
          then show ?thesis using run2 sf r kr False by (simp add: spec_get_def)
        next
          case (Some s)
          note s = this
          have ls: "length (s_private_key s) < 2 ^ 31"
            using vault_ok_D(2) [OF ok] find_secret_Some [OF s] by (auto simp: wf_tables_def sizes_ok_def)
          obtain ko v3 where l: "load_kek cr \<lparr>ur_id = u_id r, ur_password_hash = u_password_hash r\<rparr>
              (read_kek_row kr) v = (ko, v3)" by fastforce
          have lk: "ko = kek_open cr (u_password_hash r) kr" "v_mach v3 = v_mach v"
            using load_kek_cases(3) [OF ok law r kr l a] by auto
          have vv: "v\<lparr>v_db := v_db v\<rparr> = v" by simp
          note run3 = run2 [unfolded sf s option.map option.case prod.case vv l]
          show ?thesis
          proof (cases ko)
            case None
            then show ?thesis using run3 lk r kr s False by (simp add: spec_get_def)
          next
            case (Some kek)
            obtain pb m4 where vb: "secure_vector_new 1 (length (s_private_key s)) (v_mach v3)
                = (pb :: bytes option, m4)" by fastforce
            have pb: "s_private_key s \<noteq> [] \<Longrightarrow> pb = Some (replicate (length (s_private_key s)) 0)"
              using vb lk a ls by (auto simp: secure_vector_new_def alloc_elements_def SIZE_MAX_def)
            have lp: "length p = length (s_private_key s)" if "open_secret cr kek s = Some p" for p
              using that by (auto simp: open_secret_def dest: lawful_open [OF law] split: if_splits)
            have dec: "aes_gcm_decrypt cr (vec_data (s_private_key s)) (length (s_private_key s)) (Some kek)
                (vec_data (s_nonce s)) None (vec_data (s_tag s)) pb = open_secret cr kek s"
            proof (cases "s_private_key s = []")
              case False
              then show ?thesis using pb lp unfolding decrypt_row [OF ls]
                by (cases "open_secret cr kek s") auto
            qed (simp add: aes_gcm_decrypt_def open_secret_def vec_data_def)
            have sel: "sr_private_key (read_secret_row s) = s_private_key s"
              "sr_nonce (read_secret_row s) = s_nonce s" "sr_tag (read_secret_row s) = s_tag s"
              by (simp_all add: read_secret_row_def)
            note run4 = run3 [unfolded Some option.case deliver_secret_def Let_def sel vb prod.case
                g option.sel dec]
            have keko: "kek_open cr (u_password_hash r) kr = Some kek" using lk Some by simp
            note spec = spec_get_def [of cr "m_now (v_mach v)" ?t u n g, unfolded r kr s option.case
                if_not_P [OF False] keko Let_def g option.sel]
            show ?thesis
            proof (cases "open_secret cr kek s")
              case None
              then show ?thesis using run4 unfolding spec by (auto split: if_splits)
            next
              case (Some p)
              then show ?thesis using run4 lp [OF Some] g unfolding spec
                by (auto split: if_splits prod.splits)
            qed
          qed
        qed
      qed
    qed
  qed
qed

text \<open>
  C22. The answer of \<open>ssm_secret_get\<close> on a working connection is, on every branch, the one the tables and
  the clock determine: an unknown user, a missing or expired KEK, an unknown name, a short buffer, a
  failed integrity check and success are told apart in this order, and what was cached plays no part.
\<close>

theorem get_answers_by_the_tables:
  assumes "healthy (v_db v)" and "vault_ok cr v" and "lawful cr" and "m_alloc (v_mach v) = []"
    and "go_private g = Some buf" and "go_private_len g = Some cap"
    and "ssm_secret_get cr (Some u) (Some n) g v = (st, g', v')"
  shows "(st, g') = spec_get cr (m_now (v_mach v)) (db_tabs (v_db v)) u n g"
  by (rule get_follows_spec [OF assms])

subsection \<open>Storing and getting back\<close>

text \<open>A store that succeeds found the user and an unexpired KEK, and leaves both as they are.\<close>

lemma store_keys:
  assumes run: "ssm_secret_store cr (Some u) (Some pk) pub l (Some n) d v = (SSM_OK, v')"
    and ok: "vault_ok cr v" and law: "lawful cr"
  shows "same_keys (db_tabs (v_db v)) (db_tabs (v_db v')) \<and> m_now (v_mach v') = m_now (v_mach v)
    \<and> (\<exists>r kr. find_user u (db_tabs (v_db v)) = Some r \<and> find_kek (u_id r) (db_tabs (v_db v)) = Some kr
         \<and> \<not> kek_is_expired (m_now (v_mach v)) (Some (k_expires_at kr)))"
proof -
  have ne: "\<not> length pk = 0" using run by (auto simp: ssm_secret_store_def)
  note run1 = run [unfolded ssm_secret_store_def option.case prod.case if_not_P [OF ne]]
  obtain user km v1 where os: "open_session ''secret_store'' u (Some n) v = Inr (user, km, v1)"
    using run1 open_session_cases [OF ok, where op = "''secret_store''" and u = u and tgt = "Some n"]
    by (cases "open_session ''secret_store'' u (Some n) v") auto
  obtain r kr where r: "find_user u (db_tabs (v_db v)) = Some r" "find_kek (u_id r) (db_tabs (v_db v)) = Some kr"
      "user = \<lparr>ur_id = u_id r, ur_password_hash = u_password_hash r\<rparr>" "km = read_kek_row kr"
      "vault_ok cr v1" "db_tabs (v_db v1) = db_tabs (v_db v)" "v_mach v1 = v_mach v"
      "\<not> kek_is_expired (m_now (v_mach v)) (Some (k_expires_at kr))"
    using open_session_Inr [OF ok os] by blast
  obtain ko v2 where ld: "load_kek cr user km v1 = (ko, v2)" by fastforce
  have k: "v_db v2 = v_db v1" "m_now (v_mach v2) = m_now (v_mach v)"
    using load_kek_cases(1) [OF r(5) law, of u r kr ko v2] r ld by simp_all
  obtain nonce m3 where rnd: "random_bytes AES_GCM_NONCE_LEN (v_mach v2) = (nonce, m3)" by fastforce
  obtain cb m4 where b: "secure_vector_new 1 (length pk) m3 = (cb :: bytes option, m4)" by fastforce
  have m4: "m_now m4 = m_now (v_mach v)"
    using k rnd b random_bytes_frame(1) [of AES_GCM_NONCE_LEN "v_mach v2"]
    by (auto simp: secure_vector_new_def alloc_elements_def Let_def secure_alloc_def split: if_splits prod.splits)
  note run2 = run1 [unfolded os sum.case prod.case ld rnd b Let_def]
  obtain kek sealed tag where e: "ko = Some kek" "aes_gcm_encrypt cr (Some pk) (length pk) (Some kek) (Some nonce)
      None cb AES_GCM_TAG_LEN = Some (sealed, tag)"
    using run2 by (auto split: option.splits)
  obtain so db5 where ss: "secrets_store (m_now m4) (v_db (v2\<lparr>v_mach := m4\<rparr>)) (ur_id user) (Some n)
      (vec_data sealed) (if l > 0 then pub else None) l (Some nonce) (Some tag) d = (so, db5)" by fastforce
  have keys: "same_keys (db_tabs (v_db v2)) (db_tabs db5)"
    using secrets_store_keys [of "v_db v2" "m_now m4" "ur_id user" "Some n" "vec_data sealed"] ss
    by (metis snd_conv vault.select_convs(1) vault.surjective vault.update_convs(4))
  have "v' = log_audit u (ur_id user) ''secret_store'' SSM_OK (Some n)
      (Some (store_details (length pk) l)) (v2\<lparr>v_mach := m4, v_db := db5\<rparr>)"
    using run2 e ss by (auto split: if_splits)
  moreover have "same_keys (db_tabs db5) (db_tabs (v_db (log_audit u i op st tgt det (w\<lparr>v_db := db5\<rparr>))))"
    for i op st tgt det w
    using same_but_audit_keys [OF log_audit_frame(4) [of "w\<lparr>v_db := db5\<rparr>"]] by simp
  ultimately show ?thesis using keys k r m4 by (auto simp: same_keys_def)
qed

lemma contents_Some:
  assumes "contents cr t (u, n) = Some p"
  shows "\<exists>r kr kek s. find_user u t = Some r \<and> find_kek (u_id r) t = Some kr
    \<and> kek_open cr (u_password_hash r) kr = Some kek \<and> find_secret (u_id r) n t = Some s
    \<and> open_secret cr kek s = Some p"
  using assms by (auto simp: contents_def stored_plaintext_def bind_Some_conv)

text \<open>
  What is stored comes back: after a successful \<open>ssm_secret_store\<close> an \<open>ssm_secret_get\<close> of the same
  name with a large enough buffer succeeds, and the buffer starts with exactly the bytes that were
  stored.
\<close>

theorem store_then_get:
  assumes run: "ssm_secret_store cr (Some u) (Some pk) pub l (Some n) d v = (SSM_OK, v1)"
    and ok: "vault_ok cr v" and law: "lawful cr" and len: "length pk < 2 ^ 31"
    and h: "healthy (v_db v1)" "m_alloc (v_mach v1) = []"
    and g: "go_private g = Some buf" "go_private_len g = Some cap" "length pk \<le> cap" "go_public g = None"
    and get: "ssm_secret_get cr (Some u) (Some n) g v1 = (st, g', v2)"
  shows "st = SSM_OK \<and> go_private g' = Some (copy_to pk buf) \<and> go_private_len g' = Some (length pk)"
proof -
  let ?t = "db_tabs (v_db v)" and ?t1 = "db_tabs (v_db v1)"
  have c: "contents cr ?t1 (u, n) = Some pk" using store_effect [OF run ok law len] by simp
  note k = store_keys [OF run ok law]
  have ok1: "vault_ok cr v1"
    using store_secret_ok [OF ok law, of "Some u" "Some pk" pub l "Some n" d] run by simp
  obtain r kr kek s where s: "find_user u ?t1 = Some r" "find_kek (u_id r) ?t1 = Some kr"
    "kek_open cr (u_password_hash r) kr = Some kek" "find_secret (u_id r) n ?t1 = Some s"
    "open_secret cr kek s = Some pk" using contents_Some [OF c] by blast
  have "\<not> kek_is_expired (m_now (v_mach v1)) (Some (k_expires_at kr))"
    using k s(1,2) by (auto simp: same_keys_def find_user_def find_kek_def)
  moreover have "length (s_private_key s) = length pk"
    using s(5) by (auto simp: open_secret_def dest: lawful_open [OF law] split: if_splits)
  ultimately show ?thesis
    using get_follows_spec [OF h(1) ok1 law h(2) g(1,2) get] s g
    by (auto simp: spec_get_def Let_def put_public_def)
qed

end
