(* ===== verification/Vault_Users.thy ===== *)
theory Vault_Users
  imports Vault_Behaviour
begin

section \<open>Users, passwords and expiry\<close>

text \<open>
  What registration, authentication, a password change and a user deletion leave in the tables, and
  the errors of an expired KEK.
\<close>

subsection \<open>Authentication\<close>

lemma authenticate_answer:
  assumes h: "healthy (v_db v)" and n: "is_valid_username (Some u)"
    and run: "ssm_user_authenticate cr (Some u) (Some p) (Some i) v = (st, i', v')"
  shows "st = SSM_OK \<and> i' = Some (if \<exists>r. find_user u (db_tabs (v_db v)) = Some r
       \<and> argon2id_verify cr (bytes_of_string p) (u_password_hash r) then 1 else 0)"
  using assms
  by (auto simp: ssm_user_authenticate_def users_find_healthy Let_def split: option.splits)

text \<open>
  On a working connection authentication never fails and answers 1 exactly when the user exists and
  the stored hash accepts the password, 0 otherwise; a wrong password and an unknown user look alike to
  the caller.
\<close>

theorem authenticate_decides:
  assumes "healthy (v_db v)" and "is_valid_username (Some u)"
    and "ssm_user_authenticate cr (Some u) (Some p) (Some i) v = (st, i', v')"
  shows "st = SSM_OK \<and> i' = Some (if \<exists>r. find_user u (db_tabs (v_db v)) = Some r
       \<and> argon2id_verify cr (bytes_of_string p) (u_password_hash r) then 1 else 0)"
  by (rule authenticate_answer [OF assms])

lemma hash_verifies:
  assumes "argon2id_hash cr p l m = (Some h, m')" and "lawful cr"
  shows "argon2id_verify cr p h \<and> length h = 128"
  using assms lawful_pwhash_str [OF assms(2)]
  by (auto simp: argon2id_hash_def argon2id_verify_def crypto_pwhash_STRBYTES_def Let_def split_beta
      split: if_splits)

subsection \<open>Registration\<close>

lemma kek_generate_opens:
  assumes g: "kek_generate cr (vec_data h) KEK_SALT_LEN 24 m = (Some (w, s, e), m')" and law: "lawful cr"
    and r: "k_wrapped_kek r = w" "k_salt r = s"
  shows "kek_open cr h r \<noteq> None \<and> kek_expires_at (m_now m) KEK_DEFAULT_DAYS 24 = Some e
    \<and> length w < 2 ^ 31 \<and> length s < 2 ^ 31"
proof -
  obtain b m1 where b: "secure_buffers [KEK_KEY_LEN, KEK_KEY_LEN] m = (b, m1)" by fastforce
  obtain k m2 where k: "random_bytes KEK_KEY_LEN m1 = (k, m2)" by fastforce
  obtain sa m3 where sa: "random_bytes KEK_SALT_LEN m2 = (sa, m3)" by fastforce
  have now: "m_now m3 = m_now m"
    using b k sa secure_buffers_frame(1) [of "[KEK_KEY_LEN, KEK_KEY_LEN]" m]
      random_bytes_frame(1) [of KEK_KEY_LEN m1] random_bytes_frame(1) [of KEK_SALT_LEN m2] by simp
  have lens: "length k = KEK_KEY_LEN" "length sa = KEK_SALT_LEN"
    using length_random_bytes [of KEK_KEY_LEN m1] length_random_bytes [of KEK_SALT_LEN m2] k sa by simp_all
  obtain wk where wk: "kek_derive_wrapping_key cr (vec_data h) (Some sa) KEK_KEY_LEN = Some wk"
    "aes_kw_wrap cr (Some k) (Some wk) = Some w" "s = sa"
    "kek_expires_at (m_now m3) KEK_DEFAULT_DAYS 24 = Some e"
    using g unfolding kek_generate_def b Let_def prod.case k sa
    by (auto simp: bind_Some_conv split: if_splits)
  have vh: "vec_data h = Some h" using wk(1) by (auto simp: kek_derive_wrapping_key_def vec_data_def)
  note ow = kek_open_wrapped [OF law wk(1) [unfolded vh] wk(2) lens(1)]
  show ?thesis using ow(1) ow(2) [of r] r wk now lens by (simp add: KEK_SALT_LEN_def)
qed

text \<open>What a registration leaves behind for a new user.\<close>

definition registered :: "provider \<Rightarrow> nat \<Rightarrow> string \<Rightarrow> string \<Rightarrow> tables \<Rightarrow> bool" where
  "registered cr now u p t \<longleftrightarrow>
     (\<exists>r kr. find_user u t = Some r \<and> argon2id_verify cr (bytes_of_string p) (u_password_hash r)
        \<and> find_kek (u_id r) t = Some kr \<and> kek_open cr (u_password_hash r) kr \<noteq> None
        \<and> k_version kr = 1 \<and> kek_expires_at now KEK_DEFAULT_DAYS 24 = Some (k_expires_at kr))"

lemma registered_audit:
  "same_but_audit t t' \<Longrightarrow> registered cr now u p t' = registered cr now u p t"
  by (simp add: registered_def find_user_def find_kek_def same_but_auditD)

lemma kek_store_inserted:
  assumes "kek_store db u (Some w) (Some s) (Some e) = (True, db')"
    and "length w < 2 ^ 31" and "length s < 2 ^ 31"
  shows "insert_kek (db_fk db) u w s e (db_tabs db) = Some (db_tabs db')"
  using assms by (auto dest!: sql_frameD simp: kek_store_def Let_def same_conn_fk
      split: prod.splits if_splits option.splits)

lemma register_new_creates:
  assumes run: "register_new cr u p v = (SSM_OK, v')" and ok: "vault_ok cr v" and law: "lawful cr"
  shows "registered cr (m_now (v_mach v)) u p (db_tabs (v_db v'))"
proof -
  obtain hb m1 where vb: "secure_vector_new 1 crypto_pwhash_STRBYTES (v_mach v) = (hb :: bytes option, m1)"
    by fastforce
  obtain ho m2 where ah: "argon2id_hash cr (bytes_of_string p) (vec_size hb) m1 = (ho, m2)" by fastforce
  have m2: "m_now m2 = m_now (v_mach v)"
    using vb ah by (auto simp: secure_vector_new_def alloc_elements_def argon2id_hash_def Let_def
        secure_alloc_def random_bytes_def split: if_splits prod.splits)
  note run1 = run [unfolded register_new_def vb ah Let_def prod.case]
  obtain h where h: "ho = Some h" using run1 by (cases ho) auto
  note hv = hash_verifies [OF ah [unfolded h] law]
  obtain io db1 where uc: "users_create (m_now m2) (v_db v) u h = (io, db1)" by fastforce
  have sel: "v_db (v\<lparr>v_mach := m2\<rparr>) = v_db v" by simp
  obtain i where i: "io = Some i" using run1 h uc by (cases io) auto
  have ins: "insert_user (m_now m2) u h (db_tabs (v_db v)) = Some (db_tabs db1, i)"
    using users_create_cases(3) [OF uc i] hv by simp
  have fk: "db_fk db1" using users_create_cases(1) [OF uc] vault_ok_D(1) [OF ok]
    by (simp add: same_conn_def steady_def)
  obtain go m3 where g: "kek_generate cr (vec_data h) KEK_SALT_LEN 24 m2 = (go, m3)" by fastforce
  obtain w s e where go: "go = Some (w, s, e)" using run1 h uc i g by (cases go) auto
  obtain so db2 where ks: "kek_store db1 i (Some w) (Some s) (Some e) = (so, db2)" by fastforce
  have so: "so" using run1 h uc i g go ks by (auto split: if_splits)
  note gk = kek_generate_opens [OF g [unfolded go] law]
  have "length w < 2 ^ 31" "length s < 2 ^ 31"
    using gk [of "\<lparr>k_id = 0, k_user_id = 0, k_wrapped_kek = w, k_salt = s, k_expires_at = e, k_version = 1\<rparr>"]
    by simp_all
  then have ik: "insert_kek True i w s e (db_tabs db1) = Some (db_tabs db2)"
    using kek_store_inserted [of db1 i w s e db2] ks so fk by simp
  obtain kr where kr: "find_kek i (db_tabs db2) = Some kr" "k_wrapped_kek kr = w" "k_salt kr = s"
    "k_expires_at kr = e" "k_version kr = 1" using find_kek_insert(2) [OF ik] by blast
  have users: "t_users (db_tabs db2) = t_users (db_tabs db1)" using insert_kek_eq(1) [OF ik] by auto
  have fu: "find_user u (db_tabs db2) = Some \<lparr>u_id = i, u_username = u, u_password_hash = h,
      u_created_at = iso_time (m_now m2)\<rparr>"
    using find_user_insert [OF ins, of u] users by (simp add: find_user_def)
  have "registered cr (m_now (v_mach v)) u p (db_tabs db2)"
    using fu kr gk [of kr] hv m2 by (simp add: registered_def)
  then show ?thesis
    using run1 h uc i g go ks so registered_audit [OF log_audit_frame(4)] by auto
qed

lemma register_answers:
  assumes run: "ssm_user_register cr vd (Some u) (Some p) v = (SSM_OK, v')" and h: "healthy (v_db v)"
  shows "is_valid_username (Some u)"
    and "(case find_user u (db_tabs (v_db v)) of
           None \<Rightarrow> register_new cr u p v
         | Some r \<Rightarrow> (SSM_OK, log_audit u 0 ''user_register'' SSM_OK None detail_ok v)) = (SSM_OK, v')"
  using run h by (auto simp: ssm_user_register_def users_find_healthy split: option.splits if_splits)

lemma register_free_name:
  assumes "ssm_user_register cr vd (Some u) (Some p) v = (SSM_OK, v')" and "healthy (v_db v)" and "vault_ok cr v"
    and "lawful cr" and "find_user u (db_tabs (v_db v)) = None"
  shows "registered cr (m_now (v_mach v)) u p (db_tabs (v_db v'))"
  using register_answers(2) [OF assms(1,2)] register_new_creates [OF _ assms(3,4)] assms(5) by simp

lemma register_taken_name:
  assumes "healthy (v_db v)" and "is_valid_username (Some u)" and "vd p = SSM_OK"
    and "find_user u (db_tabs (v_db v)) \<noteq> None"
  shows "ssm_user_register cr vd (Some u) (Some p) v
    = (SSM_OK, log_audit u 0 ''user_register'' SSM_OK None detail_ok v)"
  using assms by (auto simp: ssm_user_register_def users_find_healthy)

text \<open>
  C23. Registering a name that is taken, on a working connection and with a password the validator accepts,
  answers \<open>SSM_OK\<close> and changes nothing but the audit log: the password of the existing user stays. When
  the name is free and the call answers \<open>SSM_OK\<close>, there is a user whom the given password authenticates,
  with a KEK of version 1 that this password's hash opens and that expires 90 days from now. Either way
  nobody's secrets change.
\<close>

theorem register_creates_once:
  assumes run: "ssm_user_register cr vd (Some u) (Some p) v = (st, v')"
    and h: "healthy (v_db v)" and ok: "vault_ok cr v" and law: "lawful cr"
    and name: "is_valid_username (Some u)" and password: "vd p = SSM_OK"
  shows "(find_user u (db_tabs (v_db v)) \<noteq> None \<longrightarrow>
            st = SSM_OK \<and> same_but_audit (db_tabs (v_db v)) (db_tabs (v_db v')))
    \<and> (find_user u (db_tabs (v_db v)) = None \<and> st = SSM_OK \<longrightarrow>
            registered cr (m_now (v_mach v)) u p (db_tabs (v_db v')))
    \<and> contents cr (db_tabs (v_db v')) = contents cr (db_tabs (v_db v))"
proof (intro conjI impI)
  assume taken: "find_user u (db_tabs (v_db v)) \<noteq> None"
  have "ssm_user_register cr vd (Some u) (Some p) v
      = (SSM_OK, log_audit u 0 ''user_register'' SSM_OK None detail_ok v)"
    by (rule register_taken_name) (use h name password taken in auto)
  then show "st = SSM_OK" and "same_but_audit (db_tabs (v_db v)) (db_tabs (v_db v'))"
    using run log_audit_frame(4) [of v u 0 "''user_register''" SSM_OK None detail_ok] by auto
next
  assume free: "find_user u (db_tabs (v_db v)) = None \<and> st = SSM_OK"
  then have "ssm_user_register cr vd (Some u) (Some p) v = (SSM_OK, v')" using run by simp
  then show "registered cr (m_now (v_mach v)) u p (db_tabs (v_db v'))"
    using register_free_name h ok law free by blast
next
  show "contents cr (db_tabs (v_db v')) = contents cr (db_tabs (v_db v))"
    by (rule register_effect [OF run ok law])
qed

subsection \<open>Changing a password\<close>

lemma change_password_OK:
  assumes run: "ssm_user_change_password cr vd (Some u) (Some p) (Some q) v = (SSM_OK, v')"
    and ok: "vault_ok cr v" and law: "lawful cr"
  shows "is_valid_username (Some u) \<and> (\<exists>r h. find_user u (db_tabs (v_db v)) = Some r
      \<and> argon2id_verify cr (bytes_of_string p) (u_password_hash r)
      \<and> find_user u (db_tabs (v_db v')) = Some (r\<lparr>u_password_hash := h\<rparr>)
      \<and> argon2id_verify cr (bytes_of_string q) h)"
proof -
  have g: "is_valid_username (Some u)" "vd q = SSM_OK"
    using run by (auto simp: ssm_user_change_password_def split: if_splits)
  obtain ro db1 where f: "users_find_by_username (v_db v) u = (ro, db1)" by fastforce
  note ok1 = vault_ok_users_find [OF ok f] and t1 = users_find_contents [OF f]
  obtain hb m1 where vb: "secure_vector_new 1 crypto_pwhash_STRBYTES (v_mach v) = (hb :: bytes option, m1)"
    by fastforce
  obtain ho m2 where ah: "argon2id_hash cr (bytes_of_string q) (vec_size hb) m1 = (ho, m2)" by fastforce
  note run1 = run [unfolded ssm_user_change_password_def option.case prod.case f vb ah Let_def]
  obtain ur where ur: "ro = Some ur" "argon2id_verify cr (bytes_of_string p) (ur_password_hash ur)"
    using run1 g by (cases ro) (auto split: if_splits)
  obtain h where h: "ho = Some h" using run1 g ur by (cases ho) auto
  obtain r where r: "find_user u (db_tabs (v_db v)) = Some r"
      "ur = \<lparr>ur_id = u_id r, ur_password_hash = u_password_hash r\<rparr>"
    using users_find_Some [of "v_db v" u ur db1] f ur by auto
  have tx: "change_password_in_transaction cr u ur h (v\<lparr>v_db := db1, v_mach := m2\<rparr>) = (SSM_OK, v')"
    using run1 g ur h by simp
  have ok2: "vault_ok cr (v\<lparr>v_db := db1, v_mach := m2\<rparr>)" using ok1 by (simp add: vault_ok_def coherent_def)
  have "find_user u (db_tabs (v_db v')) = Some (r\<lparr>u_password_hash := h\<rparr>)"
    using change_transaction_effect [OF tx law ok2 _ r(2)] r(1) t1 by simp
  then show ?thesis using g r ur hash_verifies [OF ah [unfolded h] law] by auto
qed

text \<open>The rows a successful change leaves behind.\<close>

lemma change_transaction_rows:
  assumes run: "change_password_in_transaction cr u user h v = (SSM_OK, v')" and ok: "vault_ok cr v"
    and r: "find_user u (db_tabs (v_db v)) = Some r"
    and user: "user = \<lparr>ur_id = u_id r, ur_password_hash = u_password_hash r\<rparr>"
  shows "\<exists>kr k wk w. find_kek (u_id r) (db_tabs (v_db v)) = Some kr
    \<and> kek_derive_wrapping_key cr (vec_data h) (vec_data (k_salt kr)) KEK_KEY_LEN = Some wk
    \<and> aes_kw_wrap cr (Some k) (Some wk) = Some w
    \<and> same_but_audit (set_wrapped_kek (u_id r) w (set_password_hash (u_id r) h (db_tabs (v_db v)))) (db_tabs (v_db v'))"
proof -
  let ?d = "v_db v"
  let ?begun = "?d\<lparr>fl_begin := tl (fl_begin ?d), db_snap := Some (db_tabs ?d)\<rparr>"
  have b: "exec_begin ?d = (True, ?begun)"
    using vault_ok_D(1) [OF ok] by (intro exec_begin_ok) (auto simp: steady_def)
  obtain a db1 m1 where body: "change_password_body cr user h ?begun (v_mach v) = (a, db1, m1)" by (metis prod_cases3)
  note run1 = run [unfolded change_password_in_transaction_def b snd_conv body prod.case Let_def]
  have a: a using run1 by (cases a) auto
  have v': "v' = log_audit u (ur_id user) ''user_change_password'' SSM_OK None detail_ok
      (v\<lparr>v_db := snd (exec_commit db1), v_mach := m1, v_cache := cache_invalidate (ur_id user) (v_cache v)\<rparr>)"
    using run1 a by simp
  have "db_tabs (snd (exec_commit db1)) = db_tabs db1" by (simp add: exec_commit_def Let_def split_beta)
  then have "same_but_audit (db_tabs db1) (db_tabs (v_db v'))"
    unfolding v' using log_audit_frame(4) [of "v\<lparr>v_db := snd (exec_commit db1), v_mach := m1,
      v_cache := cache_invalidate (ur_id user) (v_cache v)\<rparr>" u "ur_id user"] by simp
  moreover obtain kr k wk w where "find_kek (u_id r) (db_tabs ?d) = Some kr"
    "kek_derive_wrapping_key cr (vec_data h) (vec_data (k_salt kr)) KEK_KEY_LEN = Some wk"
    "aes_kw_wrap cr (Some k) (Some wk) = Some w"
    "db_tabs db1 = set_wrapped_kek (u_id r) w (set_password_hash (u_id r) h (db_tabs ?d))"
    using change_body_rows [OF body [unfolded eqTrueI [OF a]] _ user, of u] r by auto
  ultimately show ?thesis by metis
qed

lemma change_password_rows:
  assumes run: "ssm_user_change_password cr vd (Some u) (Some p) (Some q) v = (SSM_OK, v')" and ok: "vault_ok cr v"
  shows "\<exists>r h kr k wk w. find_user u (db_tabs (v_db v)) = Some r \<and> find_kek (u_id r) (db_tabs (v_db v)) = Some kr
    \<and> kek_derive_wrapping_key cr (vec_data h) (vec_data (k_salt kr)) KEK_KEY_LEN = Some wk
    \<and> aes_kw_wrap cr (Some k) (Some wk) = Some w
    \<and> same_but_audit (set_wrapped_kek (u_id r) w (set_password_hash (u_id r) h (db_tabs (v_db v)))) (db_tabs (v_db v'))"
proof -
  have g: "is_valid_username (Some u)" "vd q = SSM_OK"
    using run by (auto simp: ssm_user_change_password_def split: if_splits)
  obtain ro db1 where f: "users_find_by_username (v_db v) u = (ro, db1)" by fastforce
  note ok1 = vault_ok_users_find [OF ok f] and t1 = users_find_contents [OF f]
  obtain hb m1 where vb: "secure_vector_new 1 crypto_pwhash_STRBYTES (v_mach v) = (hb :: bytes option, m1)" by fastforce
  obtain ho m2 where ah: "argon2id_hash cr (bytes_of_string q) (vec_size hb) m1 = (ho, m2)" by fastforce
  note run1 = run [unfolded ssm_user_change_password_def option.case prod.case f vb ah Let_def]
  obtain ur where ur: "ro = Some ur" "argon2id_verify cr (bytes_of_string p) (ur_password_hash ur)"
    using run1 g by (cases ro) (auto split: if_splits)
  obtain h where h: "ho = Some h" using run1 g ur by (cases ho) auto
  obtain r where r: "find_user u (db_tabs (v_db v)) = Some r"
      "ur = \<lparr>ur_id = u_id r, ur_password_hash = u_password_hash r\<rparr>"
    using users_find_Some [of "v_db v" u ur db1] f ur by auto
  have tx: "change_password_in_transaction cr u ur h (v\<lparr>v_db := db1, v_mach := m2\<rparr>) = (SSM_OK, v')"
    using run1 g ur h by simp
  have ok2: "vault_ok cr (v\<lparr>v_db := db1, v_mach := m2\<rparr>)" using ok1 by (simp add: vault_ok_def coherent_def)
  from change_transaction_rows [OF tx ok2 _ r(2)] show ?thesis using r(1) t1 by fastforce
qed

text \<open>
  C18. A password change that succeeds required the old password, makes the new one the one that
  authenticates, and leaves every secret of every user readable to the same bytes.
\<close>

theorem change_password_takes_effect:
  assumes run: "ssm_user_change_password cr vd (Some u) (Some p) (Some q) v = (SSM_OK, v')"
    and ok: "vault_ok cr v" and law: "lawful cr" and h: "healthy (v_db v')"
  shows "(\<exists>r. find_user u (db_tabs (v_db v)) = Some r
        \<and> argon2id_verify cr (bytes_of_string p) (u_password_hash r))
    \<and> (\<exists>w. ssm_user_authenticate cr (Some u) (Some q) (Some i) v' = (SSM_OK, Some 1, w))
    \<and> contents cr (db_tabs (v_db v')) = contents cr (db_tabs (v_db v))"
proof -
  note c = change_password_OK [OF run ok law]
  obtain st i' w where a: "ssm_user_authenticate cr (Some u) (Some q) (Some i) v' = (st, i', w)"
    by (metis prod_cases3)
  have "st = SSM_OK \<and> i' = Some 1" using authenticate_answer [OF h _ a] c by auto
  then show ?thesis using c a change_password_effect [OF run law ok] by auto
qed

text \<open>
  A password change that fails, whatever the reason, changes nobody's secrets and leaves the user's
  old password hash in place.
\<close>

theorem change_password_failure:
  assumes run: "ssm_user_change_password cr vd (Some u) p q v = (st, v')" and "st \<noteq> SSM_OK"
    and ok: "vault_ok cr v" and law: "lawful cr"
  shows "contents cr (db_tabs (v_db v')) = contents cr (db_tabs (v_db v))
    \<and> find_user u (db_tabs (v_db v')) = find_user u (db_tabs (v_db v))"
proof -
  have fu: "find_user u (db_tabs (v_db (log_audit x i op z tgt det w))) = find_user u (db_tabs (v_db w))"
    for x i op z tgt det w
    using same_but_auditD(1) [OF log_audit_frame(4)] by (simp add: find_user_def)
  have "find_user u (db_tabs (v_db v')) = find_user u (db_tabs (v_db v))"
  proof (cases "p = None \<or> q = None \<or> \<not> is_valid_username (Some u) \<or> vd (the q) \<noteq> SSM_OK")
    case True
    then show ?thesis using run by (auto simp: ssm_user_change_password_def split: option.splits if_splits)
  next
    case False
    then obtain p' q' where a: "p = Some p'" "q = Some q'" and g: "is_valid_username (Some u)" "vd q' = SSM_OK"
      by auto
    obtain ro db1 where f: "users_find_by_username (v_db v) u = (ro, db1)" by fastforce
    note ok1 = vault_ok_users_find [OF ok f] and t1 = users_find_contents [OF f]
    obtain hb m1 where vb: "secure_vector_new 1 crypto_pwhash_STRBYTES (v_mach v) = (hb :: bytes option, m1)"
      by fastforce
    obtain ho m2 where ah: "argon2id_hash cr (bytes_of_string q') (vec_size hb) m1 = (ho, m2)" by fastforce
    have ok2: "vault_ok cr (v\<lparr>v_db := db1, v_mach := m2\<rparr>)" using ok1 by (simp add: vault_ok_def coherent_def)
    note run1 = run [unfolded ssm_user_change_password_def a option.case prod.case f vb ah Let_def]
    show ?thesis
    proof (cases "\<exists>ur h. ro = Some ur \<and> argon2id_verify cr (bytes_of_string p') (ur_password_hash ur) \<and> ho = Some h")
      case True
      then obtain ur h where ur: "ro = Some ur" "argon2id_verify cr (bytes_of_string p') (ur_password_hash ur)"
        "ho = Some h" by auto
      obtain r where r: "find_user u (db_tabs (v_db v)) = Some r"
        "ur = \<lparr>ur_id = u_id r, ur_password_hash = u_password_hash r\<rparr>"
        using users_find_Some [of "v_db v" u ur db1] f ur by auto
      have tx: "change_password_in_transaction cr u ur h (v\<lparr>v_db := db1, v_mach := m2\<rparr>) = (st, v')"
        using run1 g ur by simp
      show ?thesis
        using change_transaction_effect [OF tx law ok2 _ r(2)] r(1) t1 assms(2) by simp
    next
      case False
      then show ?thesis using run1 g t1 by (cases ro; cases ho) (auto simp: fu split: if_splits)
    qed
  qed
  then show ?thesis using change_password_effect [OF run law ok] by simp
qed

subsection \<open>Deleting a user\<close>

text \<open>What the transaction of a successful deletion leaves behind.\<close>

lemma delete_user_effect_on_rows:
  assumes run: "ssm_user_delete cr (Some u) (Some p) v = (SSM_OK, v')" and ok: "vault_ok cr v"
  shows "\<exists>r. find_user u (db_tabs (v_db v)) = Some r
    \<and> argon2id_verify cr (bytes_of_string p) (u_password_hash r)
    \<and> find_user u (db_tabs (v_db v')) = None \<and> (\<forall>x \<in> set (t_users (db_tabs (v_db v'))). u_id x \<noteq> u_id r)
    \<and> u_id r \<le> t_user_seq (db_tabs (v_db v'))"
proof -
  let ?t = "db_tabs (v_db v)"
  have g: "is_valid_username (Some u)" using run by (auto simp: ssm_user_delete_def split: if_splits)
  obtain ro db1 where f: "users_find_by_username (v_db v) u = (ro, db1)" by fastforce
  note t1 = users_find_contents [OF f]
  obtain ur where ur: "ro = Some ur" "argon2id_verify cr (bytes_of_string p) (ur_password_hash ur)"
    using run g f by (cases ro) (auto simp: ssm_user_delete_def split: if_splits)
  obtain r where r: "find_user u ?t = Some r" "ur = \<lparr>ur_id = u_id r, ur_password_hash = u_password_hash r\<rparr>"
    using users_find_Some [of "v_db v" u ur db1] f ur by auto
  obtain so db2 where d: "users_delete db1 (ur_id ur) = (so, db2)" by fastforce
  have so: "so" and v': "v' = log_audit u (ur_id ur) ''user_delete'' SSM_OK None detail_ok (v\<lparr>v_db := db2\<rparr>)"
    using run g f ur d by (auto simp: ssm_user_delete_def Let_def split: if_splits)
  have "db_fk db1" using users_find_frame(1) [of "v_db v" u] f vault_ok_D(1) [OF ok]
    by (simp add: same_conn_def steady_def)
  then have t2: "db_tabs db2 = delete_user_row True (u_id r) ?t"
    using users_delete_cases(3) [OF d so] t1 r by simp
  have wf: "wf_tables ?t" by (rule vault_ok_D(2) [OF ok])
  have mem: "r \<in> set (t_users ?t)" using find_user_Some [OF r(1)] by blast
  have gone: "find_user u (db_tabs db2) = None"
    using find_user_delete [OF _ r(1), where fk = True and m = u] wf t2 by (simp add: wf_tables_def)
  have rest: "\<forall>x \<in> set (t_users (db_tabs db2)). u_id x \<noteq> u_id r" "u_id r \<le> t_user_seq (db_tabs db2)"
    using t2 mem wf by (auto simp: delete_user_row_def wf_tables_def users_ok_def Let_def)
  have same: "same_but_audit (db_tabs db2) (db_tabs (v_db v'))"
    using log_audit_frame(4) [of "v\<lparr>v_db := db2\<rparr>"] v' by simp
  show ?thesis
    using r ur gone rest same_but_auditD [OF same] by (auto simp: find_user_def)
qed

subsection \<open>An expired KEK\<close>

lemma open_session_expired:
  assumes h: "healthy (v_db v)" and r: "find_user u (db_tabs (v_db v)) = Some r"
    and kr: "find_kek (u_id r) (db_tabs (v_db v)) = Some kr"
    and ex: "kek_is_expired (m_now (v_mach v)) (Some (k_expires_at kr))"
  shows "open_session op u tgt v = Inl (SSM_ERR_EXPIRED,
    log_audit u (u_id r) op SSM_ERR_EXPIRED tgt (detail_error ''KEK expired'') v)"
proof -
  have vv: "v\<lparr>v_db := v_db v\<rparr> = v" by simp
  show ?thesis
    using assms by (simp add: open_session_def users_find_healthy kek_find_healthy read_kek_row_def vv Let_def)
qed

text \<open>
  Once a user's KEK has expired no secret of that user goes in or out: storing, getting, deleting and
  listing all answer \<open>SSM_ERR_EXPIRED\<close>, write nothing through the output pointers and change nothing but
  the audit log.
\<close>

theorem expired_kek_locks_secrets:
  assumes h: "healthy (v_db v)" and r: "find_user u (db_tabs (v_db v)) = Some r"
    and kr: "find_kek (u_id r) (db_tabs (v_db v)) = Some kr"
    and ex: "kek_is_expired (m_now (v_mach v)) (Some (k_expires_at kr))"
    and g: "go_private g = Some buf" "go_private_len g = Some cap" and pk: "pk \<noteq> []"
  shows "fst (ssm_secret_store cr (Some u) (Some pk) pub l (Some n) d v) = SSM_ERR_EXPIRED
    \<and> (\<exists>w. ssm_secret_get cr (Some u) (Some n) g v = (SSM_ERR_EXPIRED, g, w)
           \<and> same_but_audit (db_tabs (v_db v)) (db_tabs (v_db w)))
    \<and> fst (ssm_secret_delete (Some u) (Some n) v) = SSM_ERR_EXPIRED
    \<and> (\<exists>w. ssm_secret_list (Some u) True v = (SSM_ERR_EXPIRED, [], w))"
  using pk g
  by (simp add: ssm_secret_store_def ssm_secret_get_def ssm_secret_delete_def ssm_secret_list_def
      open_session_expired [OF h r kr ex])

end
