(* ===== verification/Vault_Audit.thy ===== *)
theory Vault_Audit
  imports Vault_Refinement
begin

section \<open>The audit log only grows\<close>

text \<open>
  No call of the interface removes or changes an entry of the audit log, and none writes more than one:
  each writes at most one entry, under the name of the user it was made for. (Pruning happens only when
  a handle is opened.)
\<close>

definition logged :: "string option \<Rightarrow> tables \<Rightarrow> tables \<Rightarrow> bool" where
  "logged u t t' \<longleftrightarrow> (\<exists>es. t_audit t' = t_audit t @ es \<and> length es \<le> 1
     \<and> (\<forall>e \<in> set es. Some (a_username e) = u))"

named_theorems audit_frame \<open>operations that leave the audit log alone\<close>

lemma logged_same: "t_audit t' = t_audit t \<Longrightarrow> logged u t t'"
  by (simp add: logged_def)

lemma audit_write_logged:
  "\<exists>es. t_audit (db_tabs (audit_write now db (Some n) u op res tgt det)) = t_audit (db_tabs db) @ es
     \<and> length es \<le> 1 \<and> (\<forall>e \<in> set es. a_username e = n)"
  by (auto simp: audit_write_def audit_log_write_def dest!: sql_frameD insert_audit_eq
      split: prod.split option.split)

lemma log_audit_logged:
  assumes "t_audit (db_tabs (v_db v)) = t_audit t"
  shows "logged (Some n) t (db_tabs (v_db (log_audit n i op st tgt det v)))"
  using audit_write_logged [of "m_now (v_mach v)" "v_db v" n i op st tgt det] assms
  by (auto simp: logged_def log_audit_def)

lemma table_frames [audit_frame]:
  "t_audit (db_tabs (snd (users_create now db n h))) = t_audit (db_tabs db)"
  "t_audit (db_tabs (snd (users_delete db i))) = t_audit (db_tabs db)"
  "t_audit (db_tabs (snd (update_password_hash db i h))) = t_audit (db_tabs db)"
  "t_audit (db_tabs (snd (kek_store db i w s e))) = t_audit (db_tabs db)"
  "t_audit (db_tabs (snd (update_wrapped_kek db i wr))) = t_audit (db_tabs db)"
  "t_audit (db_tabs (snd (kek_update db i w s e ver))) = t_audit (db_tabs db)"
  "t_audit (db_tabs (snd (secrets_store now db i nm pk pub l nc tg d))) = t_audit (db_tabs db)"
  "t_audit (db_tabs (snd (secrets_delete db i nm))) = t_audit (db_tabs db)"
  "t_audit (db_tabs (snd (secrets_list_for_user db i))) = t_audit (db_tabs db)"
  "t_audit (db_tabs (snd (kek_find_by_user db i))) = t_audit (db_tabs db)"
  "t_audit (db_tabs (snd (step_update_secret now db i pk' pub nc' tg'))) = t_audit (db_tabs db)"
  by (auto simp: users_create_def users_delete_def update_password_hash_def kek_store_def kek_update_def
      update_wrapped_kek_def secrets_store_def secrets_delete_def secrets_list_for_user_def insert_user_def
      insert_kek_def insert_secret_def delete_user_row_def set_password_hash_def set_wrapped_kek_def
      update_kek_def delete_secret_def kek_find_by_user_def step_update_secret_def update_secret_def Let_def
      dest!: sql_frameD split: prod.splits option.splits if_splits)

lemma query_frame [audit_frame]:
  "db_tabs (snd (audit_log_query db u op r l off)) = db_tabs db"
  using audit_query_frame by blast

lemma open_session_logged:
  "case open_session op u tgt v of
     Inl (st, v') \<Rightarrow> logged (Some u) (db_tabs (v_db v)) (db_tabs (v_db v'))
   | Inr (user, km, v') \<Rightarrow> t_audit (db_tabs (v_db v')) = t_audit (db_tabs (v_db v))"
proof -
  obtain uo db1 where f: "users_find_by_username (v_db v) u = (uo, db1)" by fastforce
  have t1: "db_tabs db1 = db_tabs (v_db v)" using users_find_frame(2) [of "v_db v" u] f by simp
  show ?thesis
  proof (cases uo)
    case None
    then show ?thesis using f t1 by (simp add: open_session_def log_audit_logged)
  next
    case (Some user)
    obtain ko db2 where k: "kek_find_by_user db1 (ur_id user) = (ko, db2)" by fastforce
    have "t_audit (db_tabs db2) = t_audit (db_tabs (v_db v))"
      using table_frames(10) [of db1 "ur_id user"] k t1 by simp
    then show ?thesis using f Some k
      by (cases ko) (simp_all add: open_session_def log_audit_logged logged_same Let_def)
  qed
qed

lemma load_kek_db: "v_db (snd (load_kek cr user km v)) = v_db v"
  by (auto simp: load_kek_def fetch_wrapping_key_def Let_def split: prod.split option.split)

lemma register_logged:
  "logged u (db_tabs (v_db v)) (db_tabs (v_db (snd (ssm_user_register cr vd u p v))))"
  by (simp add: ssm_user_register_def register_new_def split_beta Let_def audit_frame log_audit_logged
      logged_same split: option.split)

lemma authenticate_logged:
  "logged u (db_tabs (v_db v)) (db_tabs (v_db (snd (snd (ssm_user_authenticate cr u p i v)))))"
  by (simp add: ssm_user_authenticate_def split_beta Let_def audit_frame log_audit_logged logged_same
      split: option.split)

lemma user_delete_logged:
  "logged u (db_tabs (v_db v)) (db_tabs (v_db (snd (ssm_user_delete cr u p v))))"
  by (simp add: ssm_user_delete_def split_beta Let_def audit_frame log_audit_logged logged_same
      split: option.split)

lemma store_logged:
  "logged u (db_tabs (v_db v)) (db_tabs (v_db (snd (ssm_secret_store cr u pk pub l n d v))))"
proof (cases "u = None \<or> pk = None \<or> n = None")
  case True
  then show ?thesis by (auto simp: ssm_secret_store_def logged_same split: option.split)
next
  case False
  then obtain u' pk' n' where a: "u = Some u'" "pk = Some pk'" "n = Some n'" by auto
  note os = open_session_logged [where op = "''secret_store''" and u = u' and tgt = "Some n'" and v = v]
  show ?thesis
  proof (cases "open_session ''secret_store'' u' (Some n') v")
    case (Inl r)
    then show ?thesis using os by (cases r) (simp add: ssm_secret_store_def a logged_same)
  next
    case (Inr x)
    then show ?thesis using os
      by (cases x) (simp add: ssm_secret_store_def a split_beta Let_def audit_frame load_kek_db
          log_audit_logged logged_same split: option.split)
  qed
qed

lemma get_logged:
  "logged u (db_tabs (v_db v)) (db_tabs (v_db (snd (snd (ssm_secret_get cr u n g v)))))"
proof (cases "u = None \<or> n = None \<or> go_private g = None \<or> go_private_len g = None")
  case True
  then show ?thesis by (auto simp: ssm_secret_get_def logged_same split: option.split)
next
  case False
  then obtain u' n' b l where a: "u = Some u'" "n = Some n'" "go_private g = Some b"
    "go_private_len g = Some l" by auto
  note os = open_session_logged [where op = "''secret_get''" and u = u' and tgt = "Some n'" and v = v]
  show ?thesis
  proof (cases "open_session ''secret_get'' u' (Some n') v")
    case (Inl r)
    then show ?thesis using os by (cases r) (simp add: ssm_secret_get_def a)
  next
    case (Inr x)
    then show ?thesis using os
      by (cases x) (simp add: ssm_secret_get_def deliver_secret_def a split_beta Let_def audit_frame load_kek_db
          log_audit_logged logged_same split: option.split)
  qed
qed

lemma delete_logged:
  "logged u (db_tabs (v_db v)) (db_tabs (v_db (snd (ssm_secret_delete u n v))))"
proof (cases "u = None \<or> n = None")
  case True
  then show ?thesis by (auto simp: ssm_secret_delete_def logged_same split: option.split)
next
  case False
  then obtain u' n' where a: "u = Some u'" "n = Some n'" by auto
  note os = open_session_logged [where op = "''secret_delete''" and u = u' and tgt = "Some n'" and v = v]
  show ?thesis
  proof (cases "open_session ''secret_delete'' u' (Some n') v")
    case (Inl r)
    then show ?thesis using os by (cases r) (simp add: ssm_secret_delete_def a)
  next
    case (Inr x)
    then show ?thesis using os
      by (cases x) (simp add: ssm_secret_delete_def a split_beta Let_def audit_frame
          log_audit_logged logged_same)
  qed
qed

lemma list_logged:
  "logged u (db_tabs (v_db v)) (db_tabs (v_db (snd (snd (ssm_secret_list u cb v)))))"
proof (cases u)
  case (Some u')
  note os = open_session_logged [where op = "''secret_list''" and u = u' and tgt = None and v = v]
  show ?thesis
  proof (cases "open_session ''secret_list'' u' None v")
    case (Inl r)
    then show ?thesis using os by (cases r) (simp add: ssm_secret_list_def Some logged_same)
  next
    case (Inr x)
    then show ?thesis using os
      by (cases x) (simp add: ssm_secret_list_def Some split_beta Let_def audit_frame
          log_audit_logged logged_same split: option.split)
  qed
qed (simp add: ssm_secret_list_def logged_same)

lemma rotate_logged:
  assumes ok: "vault_ok cr v" and law: "lawful cr"
  shows "logged u (db_tabs (v_db v)) (db_tabs (v_db (snd (ssm_kek_rotate cr u v))))"
proof (cases u)
  case (Some u')
  obtain ro db1 where f: "users_find_by_username (v_db v) u' = (ro, db1)" by fastforce
  have d1: "same_conn (v_db v) db1" "db_tabs db1 = db_tabs (v_db v)"
    using users_find_frame [of "v_db v" u'] f by simp_all
  show ?thesis
  proof (cases ro)
    case None
    then show ?thesis using Some f d1 by (simp add: ssm_kek_rotate_def log_audit_logged)
  next
    case (Some user)
    obtain b db2 m2 where rot: "kek_rotate cr db1 (ur_id user) (vec_data (ur_password_hash user)) (v_mach v)
        = (b, db2, m2)" by (metis prod_cases3)
    have s1: "steady db1" using same_conn_steady [OF d1(1)] vault_ok_D(1) [OF ok] by simp
    have wf1: "wf_tables (db_tabs db1)" using vault_ok_D(2) [OF ok] d1 by simp
    have "t_audit (db_tabs db2) = t_audit (db_tabs (v_db v))"
    proof (cases b)
      case True
      show ?thesis
        using kek_rotate_effect [OF rot [unfolded eqTrueI [OF True]] law s1 wf1] d1(2)
        by (auto simp: rotation_result_def update_kek_def)
    next
      case False
      then show ?thesis using kek_rotate_failed [of cr db1 _ _ _ db2 m2] rot s1 d1 by simp
    qed
    then show ?thesis using \<open>u = Some u'\<close> Some f rot
      by (simp add: ssm_kek_rotate_def Let_def log_audit_logged)
  qed
qed (simp add: ssm_kek_rotate_def logged_same)

lemma change_body_audit:
  assumes run: "change_password_body cr user h db m = (r, db', m')"
  shows "t_audit (db_tabs db') = t_audit (db_tabs db)"
proof -
  let ?i = "ur_id user"
  obtain ok1 db1 where up: "update_password_hash db ?i h = (ok1, db1)" by fastforce
  obtain ko db2 where k: "kek_find_by_user db1 ?i = (ko, db2)" by fastforce
  have t: "t_audit (db_tabs db1) = t_audit (db_tabs db)" "t_audit (db_tabs db2) = t_audit (db_tabs db)"
    using table_frames(3) [of db ?i h] table_frames(10) [of db1 ?i] up k by simp_all
  consider "db' = db1" | "db' = db2" | w r where "update_wrapped_kek db2 ?i w = (r, db')"
    using run [unfolded change_password_body_def Let_def up prod.case k]
    by (cases ko) (auto split: if_splits prod.splits option.splits)
  then show ?thesis
    by cases (use t table_frames(5) [of db2 ?i] in \<open>auto, metis snd_conv\<close>)
qed

lemma change_transaction_logged:
  assumes s: "steady (v_db v)"
  shows "logged (Some u) (db_tabs (v_db v))
    (db_tabs (v_db (snd (change_password_in_transaction cr u user h v))))"
proof -
  let ?d = "v_db v"
  let ?begun = "?d\<lparr>fl_begin := tl (fl_begin ?d), db_snap := Some (db_tabs ?d)\<rparr>"
  have b: "exec_begin ?d = (True, ?begun)" using s by (intro exec_begin_ok) (auto simp: steady_def)
  obtain a db1 m1 where body: "change_password_body cr user h ?begun (v_mach v) = (a, db1, m1)"
    by (metis prod_cases3)
  have snap: "db_snap db1 = Some (db_tabs ?d)"
    using change_password_body_frame [OF body] by (simp add: same_conn_def)
  have t: "t_audit (db_tabs db1) = t_audit (db_tabs ?d)" using change_body_audit [OF body] by simp
  have c: "db_tabs (snd (exec_commit db1)) = db_tabs db1"
    by (simp add: exec_commit_def Let_def split_beta)
  show ?thesis
    unfolding change_password_in_transaction_def b snd_conv body prod.case Let_def
    using t snap c by (cases a) (simp_all add: log_audit_logged exec_rollback_def)
qed

lemma change_password_logged:
  assumes ok: "vault_ok cr v"
  shows "logged u (db_tabs (v_db v)) (db_tabs (v_db (snd (ssm_user_change_password cr vd u p q v))))"
proof (cases "u = None \<or> p = None \<or> q = None")
  case True
  then show ?thesis by (auto simp: ssm_user_change_password_def logged_same split: option.split)
next
  case False
  then obtain u' p' q' where a: "u = Some u'" "p = Some p'" "q = Some q'" by auto
  obtain ro db1 where f: "users_find_by_username (v_db v) u' = (ro, db1)" by fastforce
  have d1: "same_conn (v_db v) db1" "db_tabs db1 = db_tabs (v_db v)"
    using users_find_frame [of "v_db v" u'] f by simp_all
  have s1: "steady db1" using same_conn_steady [OF d1(1)] vault_ok_D(1) [OF ok] by simp
  have tx: "logged (Some u') (db_tabs (v_db v))
      (db_tabs (v_db (snd (change_password_in_transaction cr u' user h (v\<lparr>v_db := db1, v_mach := m\<rparr>)))))"
    for user h m
    using change_transaction_logged [of "v\<lparr>v_db := db1, v_mach := m\<rparr>" u' cr user h] s1 d1 by simp
  show ?thesis
    using tx by (simp add: ssm_user_change_password_def a f d1 log_audit_logged logged_same Let_def
        split: option.split prod.split)
qed

lemma run_call_logged:
  assumes run: "run_call cr vd c v = (r, v')" and ok: "vault_ok cr v" and law: "lawful cr"
  shows "logged (call_user c) (db_tabs (v_db v)) (db_tabs (v_db v'))"
proof -
  have v': "v' = snd (run_call cr vd c v)" using run by simp
  show ?thesis
  proof (cases c)
    case Db_Migrate
    obtain b db1 where m: "db_migrate (v_db v) = (b, db1)" by fastforce
    have "grown (db_tabs (v_db v)) (db_tabs db1)" using db_migrate_steady [OF m vault_ok_D(1) [OF ok]] by blast
    then show ?thesis using Db_Migrate m
      by (simp add: v' run_call_def ssm_db_migrate_def grown_def same_rows_def logged_same)
  next
    case (Db_Version out)
    then show ?thesis
      by (auto simp: v' run_call_def ssm_db_version_def Let_def logged_same dest!: db_get_versionD
          split: option.split prod.split)
  next
    case (Cache_Stats out)
    then show ?thesis by (simp add: v' run_call_def ssm_cache_get_stats_def logged_same split: option.split)
  next
    case (Query_Audit u op res l off cb)
    then show ?thesis
      by (simp add: v' run_call_def ssm_audit_log_query_def split_beta audit_frame logged_same split: option.split)
  qed (simp_all add: v' run_call_def split_beta register_logged authenticate_logged user_delete_logged
      store_logged get_logged delete_logged list_logged rotate_logged [OF ok law] change_password_logged [OF ok])
qed

end
