(* ===== verification/Cache_Transparency.thy ===== *)
theory Cache_Transparency
  imports Vault_Refinement
begin

section \<open>The key cache does not show\<close>

text \<open>
  A handle with any coherent cache answers every call, statistics aside, like the same handle with an
  empty one, and leaves the same database and machine behind. The two handles are run side by side,
  whatever statements, row fetches and allocations fail; \<open>Interface_Behaviour\<close> does it for sequences.
\<close>

definition same_but_cache :: "vault \<Rightarrow> vault \<Rightarrow> bool" where
  "same_but_cache v w \<longleftrightarrow> v_db w = v_db v \<and> v_mach w = v_mach v \<and> v_path w = v_path v"

lemma same_but_cache_iff: "same_but_cache v w \<longleftrightarrow> (\<exists>c. w = v\<lparr>v_cache := c\<rparr>)"
  by (cases v; cases w) (auto simp: same_but_cache_def)

lemma same_but_cache_simps [simp]:
  "same_but_cache v v"
  "same_but_cache (v\<lparr>v_db := d\<rparr>) (w\<lparr>v_db := d\<rparr>) \<longleftrightarrow> v_mach w = v_mach v \<and> v_path w = v_path v"
  "same_but_cache (v\<lparr>v_cache := c\<rparr>) (w\<lparr>v_cache := c'\<rparr>) \<longleftrightarrow> same_but_cache v w"
  "same_but_cache v (w\<lparr>v_cache := c'\<rparr>) \<longleftrightarrow> same_but_cache v w"
  "same_but_cache (v\<lparr>v_cache := c\<rparr>) w \<longleftrightarrow> same_but_cache v w"
  by (auto simp: same_but_cache_def)

subsection \<open>The operations that do not read the cache\<close>

lemma register_cache:
  "ssm_user_register cr vd u p (v\<lparr>v_cache := c\<rparr>)
    = map_prod id (\<lambda>x. x\<lparr>v_cache := c\<rparr>) (ssm_user_register cr vd u p v)"
  by (simp add: ssm_user_register_def log_audit_def register_new_def Let_def split_beta split: option.split prod.split)

lemma authenticate_cache:
  "ssm_user_authenticate cr u p i (v\<lparr>v_cache := c\<rparr>)
    = map_prod id (map_prod id (\<lambda>x. x\<lparr>v_cache := c\<rparr>)) (ssm_user_authenticate cr u p i v)"
  by (simp add: ssm_user_authenticate_def log_audit_def Let_def split: option.split prod.split)

lemma user_delete_cache:
  "ssm_user_delete cr u p (v\<lparr>v_cache := c\<rparr>)
    = map_prod id (\<lambda>x. x\<lparr>v_cache := c\<rparr>) (ssm_user_delete cr u p v)"
  by (simp add: ssm_user_delete_def log_audit_def Let_def split: option.split prod.split)

lemma open_session_cache:
  "open_session op u tgt (v\<lparr>v_cache := c\<rparr>)
    = map_sum (map_prod id (\<lambda>x. x\<lparr>v_cache := c\<rparr>)) (map_prod id (map_prod id (\<lambda>x. x\<lparr>v_cache := c\<rparr>)))
        (open_session op u tgt v)"
  by (simp add: open_session_def log_audit_def Let_def split: option.split prod.split)

lemma delete_cache:
  "ssm_secret_delete u n (v\<lparr>v_cache := c\<rparr>)
    = map_prod id (\<lambda>x. x\<lparr>v_cache := c\<rparr>) (ssm_secret_delete u n v)"
proof (cases "u = None \<or> n = None")
  case False
  then obtain u' n' where a: "u = Some u'" "n = Some n'" by auto
  show ?thesis
    by (cases "open_session ''secret_delete'' u' (Some n') v")
      (auto simp: ssm_secret_delete_def log_audit_def open_session_cache a Let_def split: prod.split)
qed (auto simp: ssm_secret_delete_def split: option.split)

lemma list_cache:
  "ssm_secret_list u cb (v\<lparr>v_cache := c\<rparr>)
    = map_prod id (map_prod id (\<lambda>x. x\<lparr>v_cache := c\<rparr>)) (ssm_secret_list u cb v)"
proof (cases u)
  case (Some u')
  show ?thesis
    by (cases "open_session ''secret_list'' u' None v")
      (auto simp: ssm_secret_list_def log_audit_def open_session_cache Some split: prod.split option.split)
qed (simp add: ssm_secret_list_def)

lemma query_cache:
  "ssm_audit_log_query u op r l off cb (v\<lparr>v_cache := c\<rparr>)
    = map_prod id (map_prod id (\<lambda>x. x\<lparr>v_cache := c\<rparr>)) (ssm_audit_log_query u op r l off cb v)"
  by (simp add: ssm_audit_log_query_def split: option.split prod.split)

lemma version_cache:
  "ssm_db_version out (v\<lparr>v_cache := c\<rparr>)
    = map_prod id (map_prod id (\<lambda>x. x\<lparr>v_cache := c\<rparr>)) (ssm_db_version out v)"
  by (simp add: ssm_db_version_def Let_def split: option.split prod.split)

lemma migrate_cache:
  "ssm_db_migrate (v\<lparr>v_cache := c\<rparr>) = map_prod id (\<lambda>x. x\<lparr>v_cache := c\<rparr>) (ssm_db_migrate v)"
  by (simp add: ssm_db_migrate_def Let_def split: prod.split)

subsection \<open>The operations that only invalidate\<close>

definition same_answer :: "'a \<times> vault \<Rightarrow> 'a \<times> vault \<Rightarrow> bool" where
  "same_answer a b \<longleftrightarrow> fst b = fst a \<and> same_but_cache (snd a) (snd b)"

lemma same_answer_pair [simp]: "same_answer (x, v) (y, w) \<longleftrightarrow> y = x \<and> same_but_cache v w"
  by (simp add: same_answer_def)

lemma same_answer_map [simp]: "same_answer a (map_prod id (\<lambda>x. x\<lparr>v_cache := c\<rparr>) a)"
  by (cases a) simp

lemma log_audit_same [simp]:
  "same_but_cache v w \<Longrightarrow> same_but_cache (log_audit u i op st tgt det v) (log_audit u i op st tgt det w)"
  by (simp add: same_but_cache_def log_audit_def)

lemma rotate_cache: "same_answer (ssm_kek_rotate cr u v) (ssm_kek_rotate cr u (v\<lparr>v_cache := c\<rparr>))"
  by (simp add: ssm_kek_rotate_def Let_def same_but_cache_def log_audit_def split: option.split prod.split)

lemma change_transaction_cache:
  assumes "same_but_cache v w"
  shows "same_answer (change_password_in_transaction cr u user h v) (change_password_in_transaction cr u user h w)"
  using assms
  by (simp add: change_password_in_transaction_def Let_def same_but_cache_def log_audit_def split: prod.split)

lemma change_password_cache:
  "same_answer (ssm_user_change_password cr vd u p q v)
     (ssm_user_change_password cr vd u p q (v\<lparr>v_cache := c\<rparr>))"
proof (cases "u = None \<or> p = None \<or> q = None")
  case True
  then show ?thesis by (auto simp: ssm_user_change_password_def split: option.split)
next
  case False
  then obtain u' p' q' where a: "u = Some u'" "p = Some p'" "q = Some q'" by auto
  have t: "same_answer (change_password_in_transaction cr u' ur h (v\<lparr>v_db := d, v_mach := m\<rparr>))
      (change_password_in_transaction cr u' ur h (v\<lparr>v_cache := c, v_db := d, v_mach := m\<rparr>))" for ur h d m
    by (rule change_transaction_cache) (simp add: same_but_cache_def)
  show ?thesis
    by (simp add: ssm_user_change_password_def a t log_audit_def same_but_cache_def Let_def
        split: option.split prod.split)
qed

subsection \<open>The operations that read it\<close>

lemma load_kek_cache:
  assumes v: "vault_ok cr v" and w: "vault_ok cr w" and same: "same_but_cache v w" and law: "lawful cr"
    and s: "session (db_tabs (v_db v)) u user km"
    and run: "load_kek cr user km v = (k, v')" "load_kek cr user km w = (k', w')"
  shows "k' = k \<and> same_but_cache v' w'"
proof -
  obtain r kr where r: "find_user u (db_tabs (v_db v)) = Some r" "find_kek (u_id r) (db_tabs (v_db v)) = Some kr"
    "user = \<lparr>ur_id = u_id r, ur_password_hash = u_password_hash r\<rparr>" "km = read_kek_row kr"
    using s by (auto simp: session_def)
  obtain b m1 where b: "secure_buffers [KEK_KEY_LEN, KEK_KEY_LEN] (v_mach v) = (b, m1)" by fastforce
  have eq: "v_db w = v_db v" "v_mach w = v_mach v" "v_path w = v_path v" using same by (simp_all add: same_but_cache_def)
  let ?v = "v\<lparr>v_mach := m1\<rparr>" and ?w = "w\<lparr>v_mach := m1\<rparr>"
  obtain wk v2 where f: "fetch_wrapping_key cr user km ?v = (wk, v2)" by fastforce
  obtain wk' w2 where f': "fetch_wrapping_key cr user km ?w = (wk', w2)" by fastforce
  have ok: "vault_ok cr ?v" "vault_ok cr ?w" using v w by simp_all
  have "wk = kek_derive_wrapping_key cr (vec_data (u_password_hash r)) (vec_data (k_salt kr)) KEK_KEY_LEN
      \<and> vault_ok cr v2 \<and> (\<exists>c. v2 = ?v\<lparr>v_cache := c\<rparr>)"
    by (rule fetch_wrapping_key_cases [OF ok(1) law]) (use r f in simp_all)
  moreover have "wk' = kek_derive_wrapping_key cr (vec_data (u_password_hash r)) (vec_data (k_salt kr)) KEK_KEY_LEN
      \<and> vault_ok cr w2 \<and> (\<exists>c. w2 = ?w\<lparr>v_cache := c\<rparr>)"
    by (rule fetch_wrapping_key_cases [OF ok(2) law]) (use r f' eq in simp_all)
  ultimately have k: "wk' = wk" "same_but_cache v2 w2" using eq by (auto simp: same_but_cache_def)
  note run1 = run [unfolded load_kek_def eq b Let_def prod.case f f']
  show ?thesis using run1 k same by (cases b) (auto simp: same_but_cache_def)
qed

lemma load_kek_mach: "\<exists>c m. snd (load_kek cr user km v) = v\<lparr>v_mach := m, v_cache := c\<rparr>"
  by (cases v) (auto simp: load_kek_def fetch_wrapping_key_def Let_def split: prod.split option.split)

lemma deliver_cache:
  "deliver_secret cr u n user sec k g (v\<lparr>v_cache := c\<rparr>)
    = map_prod id (map_prod id (\<lambda>x. x\<lparr>v_cache := c\<rparr>)) (deliver_secret cr u n user sec k g v)"
  by (simp add: deliver_secret_def log_audit_def Let_def split: option.split prod.split)

lemma get_cache:
  assumes v: "vault_ok cr v" and w: "vault_ok cr (v\<lparr>v_cache := c\<rparr>)" and law: "lawful cr"
    and run: "ssm_secret_get cr u n g v = (st, g1, v')" "ssm_secret_get cr u n g (v\<lparr>v_cache := c\<rparr>) = (st2, g2, w')"
  shows "st2 = st \<and> g2 = g1 \<and> same_but_cache v' w'"
proof (cases "u = None \<or> n = None \<or> go_private g = None \<or> go_private_len g = None")
  case True
  then show ?thesis using run by (auto simp: ssm_secret_get_def split: option.splits)
next
  case False
  then obtain u' n' b l where a: "u = Some u'" "n = Some n'" "go_private g = Some b"
    "go_private_len g = Some l" by auto
  note run1 = run [unfolded ssm_secret_get_def a option.case prod.case open_session_cache]
  show ?thesis
  proof (cases "open_session ''secret_get'' u' (Some n') v")
    case (Inl r)
    then show ?thesis using run1 by (cases r) auto
  next
    case (Inr x)
    obtain user km v1 where x: "x = (user, km, v1)" by (cases x)
    have s: "session (db_tabs (v_db v)) u' user km" "vault_ok cr v1" "db_tabs (v_db v1) = db_tabs (v_db v)"
      using open_session_cases [OF v, where op = "''secret_get''" and u = u' and tgt = "Some n'"] Inr x
      by simp_all
    have "open_session ''secret_get'' u' (Some n') (v\<lparr>v_cache := c\<rparr>) = Inr (user, km, v1\<lparr>v_cache := c\<rparr>)"
      using Inr x by (simp add: open_session_cache)
    then have ok: "vault_ok cr (v1\<lparr>v_cache := c\<rparr>)"
      using open_session_cases [OF w, where op = "''secret_get''" and u = u' and tgt = "Some n'"] by simp
    obtain so db2 where f: "secrets_find (v_db v1) (ur_id user) (Some n') = (so, db2)" by fastforce
    have fr: "same_conn (v_db v1) db2" "db_tabs db2 = db_tabs (v_db v1)"
      using secrets_find_frame [of "v_db v1" "ur_id user" "Some n'"] f by simp_all
    obtain k w1 where l: "load_kek cr user km (v1\<lparr>v_db := db2\<rparr>) = (k, w1)" by fastforce
    obtain k' w2 where l': "load_kek cr user km (v1\<lparr>v_cache := c, v_db := db2\<rparr>) = (k', w2)" by fastforce
    have ok2: "vault_ok cr (v1\<lparr>v_db := db2\<rparr>)" "vault_ok cr (v1\<lparr>v_cache := c, v_db := db2\<rparr>)"
      using vault_ok_read [OF s(2) fr] vault_ok_read [OF ok, of db2] fr by simp_all
    have eq: "k' = k" "same_but_cache w1 w2"
      using load_kek_cache [OF ok2 _ law _ l l', of u'] s fr by (simp_all add: same_but_cache_def)
    obtain c2 where c2: "w2 = w1\<lparr>v_cache := c2\<rparr>" using eq(2) by (auto simp: same_but_cache_iff)
    show ?thesis
      using run1 by (cases so; cases k) (auto simp: Inr x f l l' eq c2 deliver_cache)
  qed
qed

lemma store_cache:
  assumes v: "vault_ok cr v" and w: "vault_ok cr (v\<lparr>v_cache := c\<rparr>)" and law: "lawful cr"
    and run: "ssm_secret_store cr u pk pub l n d v = (st, v')"
      "ssm_secret_store cr u pk pub l n d (v\<lparr>v_cache := c\<rparr>) = (st2, w')"
  shows "st2 = st \<and> same_but_cache v' w'"
proof (cases "u = None \<or> pk = None \<or> pk = Some [] \<or> n = None")
  case True
  then show ?thesis using run by (auto simp: ssm_secret_store_def split: option.splits)
next
  case False
  then obtain u' k' n' where a: "u = Some u'" "pk = Some k'" "n = Some n'" and "\<not> length k' = 0" by auto
  note run1 = run [unfolded ssm_secret_store_def a option.case prod.case if_not_P [OF \<open>\<not> length k' = 0\<close>]
      open_session_cache]
  show ?thesis
  proof (cases "open_session ''secret_store'' u' (Some n') v")
    case (Inl r)
    then show ?thesis using run1 by (cases r) auto
  next
    case (Inr x)
    obtain user km v1 where x: "x = (user, km, v1)" by (cases x)
    have s: "session (db_tabs (v_db v)) u' user km" "vault_ok cr v1" "db_tabs (v_db v1) = db_tabs (v_db v)"
      using open_session_cases [OF v, where op = "''secret_store''" and u = u' and tgt = "Some n'"] Inr x
      by simp_all
    have "open_session ''secret_store'' u' (Some n') (v\<lparr>v_cache := c\<rparr>) = Inr (user, km, v1\<lparr>v_cache := c\<rparr>)"
      using Inr x by (simp add: open_session_cache)
    then have ok: "vault_ok cr (v1\<lparr>v_cache := c\<rparr>)"
      using open_session_cases [OF w, where op = "''secret_store''" and u = u' and tgt = "Some n'"] by simp
    obtain k w1 where l: "load_kek cr user km v1 = (k, w1)" by fastforce
    obtain k' w2 where l': "load_kek cr user km (v1\<lparr>v_cache := c\<rparr>) = (k', w2)" by fastforce
    have eq: "k' = k" "same_but_cache w1 w2"
      using load_kek_cache [OF s(2) ok _ law _ l l', of u'] s by (simp_all add: same_but_cache_def)
    obtain c2 where c2: "w2 = w1\<lparr>v_cache := c2\<rparr>" using eq(2) by (auto simp: same_but_cache_iff)
    show ?thesis
      using run1 by (cases k) (auto simp: Inr x l l' eq c2 log_audit_def same_but_cache_def Let_def
          split: prod.splits option.splits if_splits)
  qed
qed

subsection \<open>Whole runs\<close>

definition reads_stats :: "call \<Rightarrow> bool" where
  "reads_stats c = (case c of Cache_Stats out \<Rightarrow> True | _ \<Rightarrow> False)"

lemma run_call_cache:
  assumes v: "vault_ok cr v" and w: "vault_ok cr w" and same: "same_but_cache v w" and law: "lawful cr"
    and n: "\<not> reads_stats c"
    and run: "run_call cr vd c v = (r, v')" "run_call cr vd c w = (r', w')"
  shows "r' = r \<and> same_but_cache v' w'"
proof -
  obtain ch where ch: "w = v\<lparr>v_cache := ch\<rparr>" using same by (auto simp: same_but_cache_iff)
  note w1 = w [unfolded ch] and run1 = run [unfolded ch]
  show ?thesis
  proof (cases c)
    case (Store u pk pub l n d)
    then show ?thesis using run1 store_cache [OF v w1 law]
      by (auto simp: run_call_def map_prod_def split: prod.splits)
  next
    case (Get u n g)
    then show ?thesis using run1 get_cache [OF v w1 law] by (auto simp: run_call_def split: prod.splits)
  next
    case (Rotate u)
    then show ?thesis using run1 rotate_cache [of cr u v ch]
      by (auto simp: run_call_def map_prod_def split: prod.splits)
  next
    case (Change_Password u p q)
    then show ?thesis using run1 change_password_cache [of cr vd u p q v ch]
      by (auto simp: run_call_def map_prod_def split: prod.splits)
  qed (use run1 n in \<open>auto simp: run_call_def map_prod_def register_cache authenticate_cache user_delete_cache
      delete_cache list_cache query_cache version_cache migrate_cache reads_stats_def split: prod.splits\<close>)
qed

lemma vault_ok_uncached: "vault_ok cr v \<Longrightarrow> vault_ok cr (v\<lparr>v_cache := new_cache\<rparr>)"
  by (simp add: vault_ok_def coherent_def new_cache_ok)

end
