(* ===== verification/Hex_Utils.thy ===== *)
theory Hex_Utils
  imports Database
begin

section \<open>Hexadecimal keys (\<open>cli/hex_utils.h\<close>)\<close>

text \<open>
  The two decoders and the encoder the command-line programs use for keys and secrets. \<open>hex_decode\<close>
  writes into a buffer of the caller and is given its size; \<open>hex_decode_vec\<close> is the overload that
  resizes a vector. A \<open>char\<close> is compared by its code, as on the platforms where digits and letters are
  consecutive.
\<close>

unbundle bit_operations_syntax

definition hex_val :: "char \<Rightarrow> int" where
  "hex_val c =
     (let n = int (char_code c) in
      if 48 \<le> n \<and> n \<le> 57 then n - 48
      else if 97 \<le> n \<and> n \<le> 102 then n - 97 + 10
      else if 65 \<le> n \<and> n \<le> 70 then n - 65 + 10
      else -1)"

text \<open>The loop over the pairs of digits: what was written, and whether it ran to the end.\<close>

fun decode_pairs :: "string \<Rightarrow> bytes \<times> bool" where
  "decode_pairs (h # l # rest) =
     (let hi = hex_val h; lo = hex_val l
      in if hi < 0 \<or> lo < 0 then ([], False)
         else (let (bs, ok) = decode_pairs rest in (word_of_int (push_bit 4 hi OR lo) # bs, ok)))"
| "decode_pairs _ = ([], True)"

text \<open>
  \<open>out\<close> is the buffer with its contents, \<open>out_len\<close> what the length pointer holds; the answer is whether
  the call succeeded and the two afterwards.
\<close>

definition hex_decode ::
  "string \<Rightarrow> bytes \<Rightarrow> nat \<Rightarrow> nat \<Rightarrow> bool \<times> bytes \<times> nat" where
  "hex_decode hex out out_len max_out =
     (let len = length hex
      in if len mod 2 \<noteq> 0 \<or> len = 0 then (False, out, out_len)
         else if len div 2 > max_out then (False, out, len div 2)
         else (let (bs, ok) = decode_pairs hex in (ok, bs @ drop (length bs) out, len div 2)))"

definition hex_decode_vec :: "string \<Rightarrow> bytes \<Rightarrow> bool \<times> bytes" where
  "hex_decode_vec hex out =
     (if length hex mod 2 \<noteq> 0 \<or> length hex = 0 then (False, out)
      else (let (bs, ok) = decode_pairs hex in if ok then (True, bs) else (False, [])))"

definition hex_encode :: "bytes \<Rightarrow> string" where
  "hex_encode data =
     concat (map (\<lambda>b. [hex_digit (unat (drop_bit 4 b AND 0xf)), hex_digit (unat (b AND 0xf))]) data)"

subsection \<open>Encoding and decoding\<close>

lemma hex_val_digits: "\<forall>d \<in> set [0..<16]. hex_val (hex_digit d) = int d"
  by code_simp

lemma hex_val_digit [simp]: "d < 16 \<Longrightarrow> hex_val (hex_digit d) = int d"
  using hex_val_digits by auto

lemma hex_val_range: "hex_val c < 16" "hex_val c = -1 \<or> 0 \<le> hex_val c"
  by (auto simp: hex_val_def Let_def)

definition hex_pair :: "byte \<Rightarrow> string" where
  "hex_pair b = [hex_digit (unat (drop_bit 4 b AND 0xf)), hex_digit (unat (b AND 0xf))]"

lemma hex_encode_simps [simp]:
  "hex_encode [] = []" "hex_encode (b # bs) = hex_pair b @ hex_encode bs"
  by (simp_all add: hex_encode_def hex_pair_def)

lemma low_nibble: "(w AND 0xf :: byte) = take_bit 4 w"
proof -
  have "(0xf :: byte) = mask 4" by (simp add: mask_eq_exp_minus_1)
  then show ?thesis by (simp only: take_bit_eq_mask)
qed

lemma nibbles: "word_of_int (push_bit 4 (uint (take_bit 4 (drop_bit 4 b))) OR uint (take_bit 4 b)) = (b :: byte)"
  by (rule bit_word_eqI) (auto simp: bit_simps not_le)

lemma nibble_less: "unat (take_bit 4 (w :: byte)) < 16"
  using take_bit_nat_less_exp [of 4 "unat w"] by (simp add: unsigned_take_bit_eq)

lemma decode_hex_pair [simp]:
  "decode_pairs (hex_pair b @ rest) = (b # fst (decode_pairs rest), snd (decode_pairs rest))"
  using nibbles [of b] nibble_less by (simp add: hex_pair_def low_nibble split_beta Let_def)

lemma decode_encode_pairs [simp]: "decode_pairs (hex_encode data) = (data, True)"
  by (induction data) simp_all

lemma length_hex_encode [simp]: "length (hex_encode data) = 2 * length data"
  by (induction data) (simp_all add: hex_pair_def)

text \<open>What the loop accepts: pairs of digits.\<close>

lemma decode_pairs_ok:
  "even (length s) \<Longrightarrow> snd (decode_pairs s) \<longleftrightarrow> (\<forall>c \<in> set s. 0 \<le> hex_val c)"
  by (induction s rule: decode_pairs.induct) (auto simp: Let_def split_beta)

lemma decode_pairs_length:
  "even (length s) \<Longrightarrow> snd (decode_pairs s) \<Longrightarrow> length (fst (decode_pairs s)) = length s div 2"
  by (induction s rule: decode_pairs.induct) (auto simp: Let_def split_beta split: if_splits)

lemma decode_pairs_bound: "length (fst (decode_pairs s)) \<le> length s div 2"
  by (induction s rule: decode_pairs.induct) (auto simp: Let_def split_beta)

interpretation hex: codec hex_encode "\<lambda>s. let (ok, bs) = hex_decode_vec s [] in if ok then Some bs else None"
  "\<lambda>bs. bs \<noteq> []"
  by unfold_locales (simp add: hex_decode_vec_def)

text \<open>
  Hexadecimal keys survive the trip: both decoders read back exactly the bytes \<open>hex_encode\<close> printed,
  as long as there are some and they fit the buffer; two different keys never print alike.
\<close>

theorem hex_round_trip:
  assumes "bs \<noteq> []" and "length bs \<le> max_out" and "length out = max_out"
  shows "hex_decode (hex_encode bs) out l max_out = (True, bs @ drop (length bs) out, length bs)
    \<and> hex_decode_vec (hex_encode bs) v = (True, bs)
    \<and> (\<forall>cs. cs \<noteq> [] \<longrightarrow> hex_encode cs = hex_encode bs \<longrightarrow> cs = bs)"
  using assms hex.encode_inject by (auto simp: hex_decode_def hex_decode_vec_def)

text \<open>
  \<open>hex_decode\<close> accepts exactly the strings of an even, positive number of hexadecimal digits that fit
  the buffer, and whatever it is given it never writes past the buffer's end.
\<close>

theorem hex_decode_accepts:
  assumes "length out = max_out" and "hex_decode s out l max_out = (ok, out', l')"
  shows "(ok \<longleftrightarrow> s \<noteq> [] \<and> even (length s) \<and> length s div 2 \<le> max_out \<and> (\<forall>c \<in> set s. 0 \<le> hex_val c))
    \<and> length out' = max_out \<and> (ok \<longrightarrow> l' = length s div 2)"
  using assms decode_pairs_ok [of s] decode_pairs_bound [of s]
  by (auto simp: hex_decode_def Let_def even_iff_mod_2_eq_zero split_beta split: if_splits)

end
