(* ===== verification/Export.thy ===== *)
theory Export
  imports Vault_Api "HOL-Library.Option_ord"
begin

section \<open>Metadata export (\<open>src/export/export.cc\<close>)\<close>

text \<open>
  \<open>export_metadata\<close> runs three queries and prints their rows as JSON or CSV; \<open>ssm_export\<close> is its entry
  in the public API. A query whose fetch fails simply ends early. The printing functions answer the
  text they append to the buffer.
\<close>

record export_user =
  xu_id :: int
  xu_username :: string
  xu_created_at :: string

record export_secret =
  xs_username :: string
  xs_name :: string
  xs_size :: int
  xs_has_pub :: bool
  xs_description :: string
  xs_updated_at :: string

record export_kek =
  xk_username :: string
  xk_expires_at :: string
  xk_version :: int

subsection \<open>The queries\<close>

text \<open>\<open>JOIN users u ON u.id = user_id\<close>: a row with its user, for every user with that id.\<close>

definition join_users :: "('r \<Rightarrow> int) \<Rightarrow> 'r list \<Rightarrow> tables \<Rightarrow> (user_rec \<times> 'r) list" where
  "join_users key rows t =
     concat (map (\<lambda>u. map (\<lambda>r. (u, r)) (filter (\<lambda>r. key r = u_id u) rows)) (t_users t))"

text \<open>A \<open>NULL\<close> column of type text is read as the empty string.\<close>

definition or_empty :: "string option \<Rightarrow> string" where
  "or_empty x = (case x of None \<Rightarrow> [] | Some s \<Rightarrow> s)"

definition run_query :: "(tables \<Rightarrow> 'r list) \<Rightarrow> sqlite \<Rightarrow> 'r list option \<times> sqlite" where
  "run_query select db =
     (let (ok, db1) = sql_prepare db
      in if \<not> ok then (None, db1)
         else (let (rows, rest) = fetch_rows (select (db_tabs db1)) (fl_row db1)
               in (Some rows, db1\<lparr>fl_row := rest\<rparr>)))"

definition select_users :: "tables \<Rightarrow> export_user list" where
  "select_users t = map (\<lambda>u. \<lparr>xu_id = u_id u, xu_username = u_username u, xu_created_at = u_created_at u\<rparr>)
     (sort_key u_id (t_users t))"

definition query_users :: "sqlite \<Rightarrow> export_user list option \<times> sqlite" where
  "query_users db = run_query select_users db"

definition select_secrets :: "tables \<Rightarrow> export_secret list" where
  "select_secrets t =
     map (\<lambda>(u, s). \<lparr>xs_username = u_username u, xs_name = or_empty (s_name s),
            xs_size = int (length (s_private_key s)), xs_has_pub = (s_public_key s \<noteq> None),
            xs_description = or_empty (s_description s), xs_updated_at = s_updated_at s\<rparr>)
       (sort_key (\<lambda>(u, s). u_id u) (sort_key (\<lambda>(u, s). s_name s)
          (join_users s_user_id (t_secrets t) t)))"

definition query_secrets :: "sqlite \<Rightarrow> export_secret list option \<times> sqlite" where
  "query_secrets db = run_query select_secrets db"

definition select_keks :: "tables \<Rightarrow> export_kek list" where
  "select_keks t =
     map (\<lambda>(u, k). \<lparr>xk_username = u_username u, xk_expires_at = k_expires_at k, xk_version = k_version k\<rparr>)
       (sort_key (\<lambda>(u, k). u_id u) (join_users k_user_id (t_keks t) t))"

definition query_keks :: "sqlite \<Rightarrow> export_kek list option \<times> sqlite" where
  "query_keks db = run_query select_keks db"

subsection \<open>Escaping\<close>

definition dquote :: char where "dquote = CHR 0x22"
definition backslash :: char where "backslash = CHR 0x5C"
definition newline :: char where "newline = CHR 0x0A"
definition creturn :: char where "creturn = CHR 0x0D"
definition tab :: char where "tab = CHR 0x09"

definition json_char :: "char \<Rightarrow> string" where
  "json_char c =
     (if c = dquote then [backslash, dquote]
      else if c = backslash then [backslash, backslash]
      else if c = newline then [backslash, CHR ''n'']
      else if c = creturn then [backslash, CHR ''r'']
      else if c = tab then [backslash, CHR ''t'']
      else [c])"

definition json_escape :: "string \<Rightarrow> string" where
  "json_escape s = concat (map json_char s)"

definition csv_special :: "char \<Rightarrow> bool" where
  "csv_special c \<longleftrightarrow> c \<in> {CHR '','', dquote, newline, creturn}"

definition csv_escape :: "string \<Rightarrow> string" where
  "csv_escape s =
     (if \<not> (s = [] \<or> (\<exists>c \<in> set s. csv_special c)) then s
      else dquote # concat (map (\<lambda>c. if c = dquote then [dquote, dquote] else [c]) s) @ [dquote])"

subsection \<open>Printing\<close>

fun json_users :: "bool \<Rightarrow> nat \<Rightarrow> export_user list \<Rightarrow> string" where
  "json_users redact i [] = []"
| "json_users redact i (u # us) =
     (if i > 0 then '','' else []) @ ''{\"username\":\"''
     @ (if redact then ''user_'' @ decimal (i + 1) else json_escape (xu_username u))
     @ ''\",\"created_at\":\"'' @ json_escape (xu_created_at u) @ ''\"}'' @ json_users redact (i + 1) us"

definition emit_json_users :: "export_user list \<Rightarrow> bool \<Rightarrow> string" where
  "emit_json_users users redact = ''\"users\":['' @ json_users redact 0 users @ '']''"

fun csv_users :: "bool \<Rightarrow> nat \<Rightarrow> export_user list \<Rightarrow> string" where
  "csv_users redact i [] = []"
| "csv_users redact i (u # us) =
     (if redact then ''user_'' @ decimal (i + 1) else csv_escape (xu_username u))
     @ '','' @ csv_escape (xu_created_at u) @ [newline] @ csv_users redact (i + 1) us"

definition emit_csv_users :: "export_user list \<Rightarrow> bool \<Rightarrow> string" where
  "emit_csv_users users redact = ''username,created_at'' @ [newline] @ csv_users redact 0 users"

definition bool_text :: "bool \<Rightarrow> string" where
  "bool_text b = (if b then ''true'' else ''false'')"

fun json_secrets :: "bool \<Rightarrow> nat \<Rightarrow> export_secret list \<Rightarrow> string" where
  "json_secrets redact i [] = []"
| "json_secrets redact i (s # ss) =
     (if i > 0 then '','' else []) @ ''{\"user\":\"''
     @ (if redact then ''redacted'' else json_escape (xs_username s))
     @ ''\",\"name\":\"'' @ json_escape (xs_name s)
     @ ''\",\"size\":'' @ to_string (xs_size s) @ '',\"has_pub\":'' @ bool_text (xs_has_pub s)
     @ '',\"description\":\"'' @ json_escape (xs_description s)
     @ ''\",\"updated_at\":\"'' @ json_escape (xs_updated_at s) @ ''\"}'' @ json_secrets redact (i + 1) ss"

definition emit_json_secrets :: "export_secret list \<Rightarrow> bool \<Rightarrow> string" where
  "emit_json_secrets secrets redact = ''\"secrets\":['' @ json_secrets redact 0 secrets @ '']''"

fun csv_secrets :: "bool \<Rightarrow> export_secret list \<Rightarrow> string" where
  "csv_secrets redact [] = []"
| "csv_secrets redact (s # ss) =
     (if redact then ''redacted'' else csv_escape (xs_username s)) @ '','' @ csv_escape (xs_name s)
     @ '','' @ to_string (xs_size s) @ '','' @ bool_text (xs_has_pub s)
     @ '','' @ csv_escape (xs_description s) @ '','' @ csv_escape (xs_updated_at s) @ [newline]
     @ csv_secrets redact ss"

definition emit_csv_secrets :: "export_secret list \<Rightarrow> bool \<Rightarrow> string" where
  "emit_csv_secrets secrets redact =
     ''user,name,size,has_pub,description,updated_at'' @ [newline] @ csv_secrets redact secrets"

fun json_keks :: "bool \<Rightarrow> nat \<Rightarrow> export_kek list \<Rightarrow> string" where
  "json_keks redact i [] = []"
| "json_keks redact i (k # ks) =
     (if i > 0 then '','' else []) @ ''{\"user\":\"''
     @ (if redact then ''redacted'' else json_escape (xk_username k))
     @ ''\",\"expires_at\":\"'' @ json_escape (xk_expires_at k)
     @ ''\",\"version\":'' @ to_string (xk_version k) @ ''}'' @ json_keks redact (i + 1) ks"

definition emit_json_keks :: "export_kek list \<Rightarrow> bool \<Rightarrow> string" where
  "emit_json_keks keks redact = ''\"kek_metadata\":['' @ json_keks redact 0 keks @ '']''"

fun csv_keks :: "bool \<Rightarrow> export_kek list \<Rightarrow> string" where
  "csv_keks redact [] = []"
| "csv_keks redact (k # ks) =
     (if redact then ''redacted'' else csv_escape (xk_username k)) @ '','' @ csv_escape (xk_expires_at k)
     @ '','' @ to_string (xk_version k) @ [newline] @ csv_keks redact ks"

definition emit_csv_keks :: "export_kek list \<Rightarrow> bool \<Rightarrow> string" where
  "emit_csv_keks keks redact = ''user,expires_at,version'' @ [newline] @ csv_keks redact keks"

subsection \<open>\<open>export_metadata\<close>, \<open>ssm_export\<close>\<close>

datatype ssm_export_format = SSM_EXPORT_JSON | SSM_EXPORT_CSV

definition render ::
  "ssm_export_format \<Rightarrow> bool \<Rightarrow> export_user list \<Rightarrow> export_secret list \<Rightarrow> export_kek list \<Rightarrow> string" where
  "render format redact users secrets keks =
     (if format = SSM_EXPORT_JSON
      then ''{'' @ emit_json_users users redact @ '','' @ emit_json_secrets secrets redact @ '',''
           @ emit_json_keks keks redact @ ''}''
      else ''=== users ==='' @ [newline] @ emit_csv_users users redact
           @ ''=== secrets ==='' @ [newline] @ emit_csv_secrets secrets redact
           @ ''=== kek_metadata ==='' @ [newline] @ emit_csv_keks keks redact)"

text \<open>The callback gets the text up to its first NUL; the answer is what it is called with, if it is.\<close>

definition cb_write :: "string \<Rightarrow> bool \<Rightarrow> string option" where
  "cb_write s callback = (if callback then Some (takeWhile (\<lambda>c. c \<noteq> CHR 0x00) s) else None)"

definition export_metadata ::
  "sqlite \<Rightarrow> ssm_export_format \<Rightarrow> bool \<Rightarrow> bool \<Rightarrow> ssm_status \<times> string option \<times> sqlite" where
  "export_metadata db format redact callback =
     (if db_null db then (SSM_ERR_INTERNAL, None, db)
      else (case query_users db of
              (None, db1) \<Rightarrow> (SSM_ERR_INTERNAL, None, db1)
            | (Some users, db1) \<Rightarrow>
                (case query_secrets db1 of
                   (None, db2) \<Rightarrow> (SSM_ERR_INTERNAL, None, db2)
                 | (Some secrets, db2) \<Rightarrow>
                     (case query_keks db2 of
                        (None, db3) \<Rightarrow> (SSM_ERR_INTERNAL, None, db3)
                      | (Some keks, db3) \<Rightarrow>
                          (SSM_OK, cb_write (render format redact users secrets keks) callback, db3)))))"

definition ssm_export ::
  "ssm_export_format \<Rightarrow> bool \<Rightarrow> bool \<Rightarrow> vault \<Rightarrow> ssm_status \<times> string option \<times> vault" where
  "ssm_export format redact callback v =
     (if \<not> callback then (SSM_ERR_INTERNAL, None, v)
      else (let (st, text, db1) = export_metadata (v_db v) format redact callback
            in (st, text, v\<lparr>v_db := db1\<rparr>)))"

subsection \<open>Reading the output back\<close>

text \<open>
  The readers are those of the formats: a JSON string after its opening quote, in which control
  characters must not occur (RFC 8259), and a CSV field up to its separator (RFC 4180).
\<close>

definition json_unescape :: "char \<Rightarrow> char option" where
  "json_unescape c =
     (if c = dquote then Some dquote else if c = backslash then Some backslash
      else if c = CHR ''/'' then Some (CHR ''/'') else if c = CHR ''n'' then Some newline
      else if c = CHR ''r'' then Some creturn else if c = CHR ''t'' then Some tab
      else if c = CHR ''b'' then Some (CHR 0x08) else if c = CHR ''f'' then Some (CHR 0x0C) else None)"

fun json_read :: "string \<Rightarrow> (string \<times> string) option" where
  "json_read [] = None"
| "json_read (c # cs) =
     (if c = dquote then Some ([], cs)
      else if c = backslash
      then (case cs of [] \<Rightarrow> None
            | e # es \<Rightarrow> do { x \<leftarrow> json_unescape e; (s, r) \<leftarrow> json_read es; Some (x # s, r) })
      else if char_code c < 32 then None
      else do { (s, r) \<leftarrow> json_read cs; Some (c # s, r) })"

fun csv_quoted :: "string \<Rightarrow> (string \<times> string) option" where
  "csv_quoted [] = None"
| "csv_quoted (c # cs) =
     (if c = dquote
      then (case cs of [] \<Rightarrow> Some ([], [])
            | d # ds \<Rightarrow> if d = dquote then do { (s, r) \<leftarrow> csv_quoted ds; Some (dquote # s, r) }
                      else Some ([], cs))
      else do { (s, r) \<leftarrow> csv_quoted cs; Some (c # s, r) })"

definition csv_separator :: "char \<Rightarrow> bool" where
  "csv_separator c \<longleftrightarrow> c = CHR '','' \<or> c = newline"

definition csv_field :: "string \<Rightarrow> (string \<times> string) option" where
  "csv_field s =
     (case s of
        c # cs \<Rightarrow> if c = dquote then csv_quoted cs
                 else Some (takeWhile (\<lambda>c. \<not> csv_separator c) s, dropWhile (\<lambda>c. \<not> csv_separator c) s)
      | [] \<Rightarrow> Some ([], []))"

lemmas char_defs = dquote_def backslash_def newline_def creturn_def tab_def

definition json_plain :: "char \<Rightarrow> bool" where
  "json_plain c \<longleftrightarrow> 32 \<le> char_code c \<or> c \<in> {newline, creturn, tab}"

lemma json_read_char:
  "json_read (json_char c @ s) =
     (if json_plain c then do { (x, r) \<leftarrow> json_read s; Some (c # x, r) } else None)"
proof -
  consider "c = dquote" | "c = backslash" | "c = newline" | "c = creturn" | "c = tab"
    | "c \<notin> {dquote, backslash, newline, creturn, tab}" by blast
  then show ?thesis
    by cases (auto simp: json_char_def json_plain_def char_defs json_unescape_def of_char_def)
qed

lemma json_read_escape:
  "json_read (json_escape s @ dquote # rest) =
     (if \<forall>c \<in> set s. json_plain c then Some (s, rest) else None)"
proof (induction s)
  case (Cons c s)
  have "json_escape (c # s) @ dquote # rest = json_char c @ (json_escape s @ dquote # rest)"
    by (simp add: json_escape_def)
  then show ?case using Cons by (simp only: json_read_char) auto
qed (simp add: json_escape_def)

text \<open>
  C31. A JSON reader gets back exactly the value that was exported, and stops at the quote the exporter
  wrote: no user name, secret name or description can break out of its string. The exception are values
  with other control characters, which come out raw and make the document invalid.
\<close>

theorem json_values_read_back:
  "json_read (json_escape s @ dquote # rest) =
     (if list_all (\<lambda>c. 32 \<le> char_code c \<or> c \<in> {newline, creturn, tab}) s then Some (s, rest) else None)"
  using json_read_escape [of s rest] by (simp add: list_all_iff json_plain_def)

lemma csv_quoted_escape:
  assumes "c \<noteq> dquote"
  shows "csv_quoted (concat (map (\<lambda>c. if c = dquote then [dquote, dquote] else [c]) s) @ dquote # c # rest)
    = Some (s, c # rest)"
  using assms by (induction s) auto

text \<open>
  A CSV reader gets back exactly the value that was exported, whatever separators, quotes and line
  breaks it contains, and goes on at the separator the exporter wrote.
\<close>

theorem csv_values_read_back:
  assumes "csv_separator c"
  shows "csv_field (csv_escape s @ c # rest) = Some (s, c # rest)"
proof (cases "s = [] \<or> (\<exists>c \<in> set s. csv_special c)")
  case True
  have "c \<noteq> dquote" using assms by (auto simp: csv_separator_def char_defs)
  then show ?thesis using True csv_quoted_escape [of c s rest] by (simp add: csv_escape_def csv_field_def)
next
  case False
  then have s: "\<forall>x \<in> set s. \<not> csv_separator x" "csv_escape s = s" "s \<noteq> []" "hd s \<noteq> dquote"
    by (auto simp: csv_escape_def csv_separator_def csv_special_def)
  have "takeWhile (\<lambda>c. \<not> csv_separator c) (s @ c # rest) = s"
    "dropWhile (\<lambda>c. \<not> csv_separator c) (s @ c # rest) = c # rest"
    using s(1) assms by (simp_all add: takeWhile_append2 dropWhile_append2)
  then show ?thesis using s(2-4) by (cases s) (simp_all add: csv_field_def)
qed

subsection \<open>What the export reveals\<close>

text \<open>
  The parts of the tables an export may depend on: ids, dates, names, descriptions, sizes and versions;
  the user names only without redaction; no key, nonce, tag, salt or hash.
\<close>

definition shown_user :: "bool \<Rightarrow> user_rec \<Rightarrow> int \<times> string \<times> string" where
  "shown_user redact u = (u_id u, if redact then [] else u_username u, u_created_at u)"

definition shown_secret :: "secret_rec \<Rightarrow> int \<times> string option \<times> nat \<times> bool \<times> string \<times> string" where
  "shown_secret s = (s_user_id s, s_name s, length (s_private_key s), s_public_key s \<noteq> None,
     or_empty (s_description s), s_updated_at s)"

definition shown_kek :: "kek_rec \<Rightarrow> int \<times> string \<times> int" where
  "shown_kek k = (k_user_id k, k_expires_at k, k_version k)"

definition same_metadata :: "bool \<Rightarrow> tables \<Rightarrow> tables \<Rightarrow> bool" where
  "same_metadata redact t t' \<longleftrightarrow> t_exists t' = t_exists t
     \<and> map (shown_user redact) (t_users t') = map (shown_user redact) (t_users t)
     \<and> map shown_secret (t_secrets t') = map shown_secret (t_secrets t)
     \<and> map shown_kek (t_keks t') = map shown_kek (t_keks t)"

lemma insort_key_map: "insort_key k (f x) (map f xs) = map f (insort_key (\<lambda>x. k (f x)) x xs)"
  by (induction xs) auto

lemma sort_key_map: "sort_key k (map f xs) = map f (sort_key (\<lambda>x. k (f x)) xs)"
  by (induction xs) (simp_all add: insort_key_map)

lemma sorted_same:
  assumes "map f xs = map f ys" and "\<And>x. k x = k' (f x)"
  shows "map f (sort_key k xs) = map f (sort_key k ys)"
proof -
  have "k = (\<lambda>x. k' (f x))" using assms(2) by (simp add: fun_eq_iff)
  then show ?thesis using assms(1) sort_key_map [of k' f xs] sort_key_map [of k' f ys] by simp
qed

lemma join_same:
  assumes u: "map (shown_user redact) (t_users t') = map (shown_user redact) (t_users t)"
    and r: "map g rs' = map g rs" and key: "\<And>x. key x = key' (g x)"
  shows "map (map_prod (shown_user redact) g) (join_users key rs' t')
       = map (map_prod (shown_user redact) g) (join_users key rs t)"
proof -
  have j: "map (map_prod (shown_user redact) g) (join_users key xs w) =
      concat (map (\<lambda>su. map (\<lambda>y. (su, y)) (filter (\<lambda>y. key' y = fst su) (map g xs)))
        (map (shown_user redact) (t_users w)))" for xs w
    by (simp add: join_users_def map_concat comp_def filter_map key shown_user_def)
  show ?thesis by (simp only: j u r)
qed

text \<open>Printing with redaction ignores the user names.\<close>

definition hide_user :: "bool \<Rightarrow> export_user \<Rightarrow> export_user" where
  "hide_user redact u = (if redact then u\<lparr>xu_username := []\<rparr> else u)"

definition hide_secret :: "bool \<Rightarrow> export_secret \<Rightarrow> export_secret" where
  "hide_secret redact s = (if redact then s\<lparr>xs_username := []\<rparr> else s)"

definition hide_kek :: "bool \<Rightarrow> export_kek \<Rightarrow> export_kek" where
  "hide_kek redact k = (if redact then k\<lparr>xk_username := []\<rparr> else k)"

lemma render_hides:
  "render fm redact (map (hide_user redact) us) (map (hide_secret redact) ss) (map (hide_kek redact) ks)
     = render fm redact us ss ks"
proof (cases redact)
  case True
  have "json_users True i (map (hide_user True) us) = json_users True i us"
    "csv_users True i (map (hide_user True) us) = csv_users True i us" for i
    by (induction us arbitrary: i) (simp_all add: hide_user_def)
  moreover have "json_secrets True i (map (hide_secret True) ss) = json_secrets True i ss" for i
    by (induction ss arbitrary: i) (simp_all add: hide_secret_def)
  moreover have "csv_secrets True (map (hide_secret True) ss) = csv_secrets True ss"
    by (induction ss) (simp_all add: hide_secret_def)
  moreover have "json_keks True i (map (hide_kek True) ks) = json_keks True i ks" for i
    by (induction ks arbitrary: i) (simp_all add: hide_kek_def)
  moreover have "csv_keks True (map (hide_kek True) ks) = csv_keks True ks"
    by (induction ks) (simp_all add: hide_kek_def)
  ultimately show ?thesis
    using True by (simp add: render_def emit_json_users_def emit_csv_users_def emit_json_secrets_def
        emit_csv_secrets_def emit_json_keks_def emit_csv_keks_def)
next
  case False
  have "hide_user False = (\<lambda>u. u)" "hide_secret False = (\<lambda>s. s)" "hide_kek False = (\<lambda>k. k)"
    by (simp_all add: fun_eq_iff hide_user_def hide_secret_def hide_kek_def)
  then show ?thesis using False by simp
qed

lemma selects_same:
  assumes "same_metadata redact t t'"
  shows "map (hide_user redact) (select_users t') = map (hide_user redact) (select_users t)"
    and "map (hide_secret redact) (select_secrets t') = map (hide_secret redact) (select_secrets t)"
    and "map (hide_kek redact) (select_keks t') = map (hide_kek redact) (select_keks t)"
proof -
  let ?su = "shown_user redact"
  have u: "map ?su (t_users t') = map ?su (t_users t)" and s: "map shown_secret (t_secrets t') = map shown_secret (t_secrets t)"
    and k: "map shown_kek (t_keks t') = map shown_kek (t_keks t)"
    using assms by (simp_all add: same_metadata_def)
  let ?fu = "\<lambda>(i, n, c). \<lparr>xu_id = i, xu_username = n, xu_created_at = c\<rparr>"
  have "map (hide_user redact) (select_users w) = map ?fu (map ?su (sort_key u_id (t_users w)))" for w
    by (simp add: select_users_def hide_user_def shown_user_def)
  moreover have "map ?su (sort_key u_id (t_users t')) = map ?su (sort_key u_id (t_users t))"
    by (rule sorted_same [OF u, where k' = fst]) (simp add: shown_user_def)
  ultimately show "map (hide_user redact) (select_users t') = map (hide_user redact) (select_users t)" by metis
  let ?ps = "map_prod ?su shown_secret"
  let ?fs = "\<lambda>((i, n, c), (_, nm, l, p, d, up)). \<lparr>xs_username = n, xs_name = or_empty nm, xs_size = int l,
    xs_has_pub = p, xs_description = d, xs_updated_at = up\<rparr>"
  let ?ss = "\<lambda>w. sort_key (\<lambda>(u, s). u_id u) (sort_key (\<lambda>(u, s). s_name s) (join_users s_user_id (t_secrets w) w))"
  have "map (hide_secret redact) (select_secrets w) = map ?fs (map ?ps (?ss w))" for w
    by (simp add: select_secrets_def hide_secret_def shown_user_def shown_secret_def split_beta)
  moreover have "map ?ps (?ss t') = map ?ps (?ss t)"
  proof (rule sorted_same [where k' = "\<lambda>x. fst (fst x)"])
    show "map ?ps (sort_key (\<lambda>(u, s). s_name s) (join_users s_user_id (t_secrets t') t'))
        = map ?ps (sort_key (\<lambda>(u, s). s_name s) (join_users s_user_id (t_secrets t) t))"
      by (rule sorted_same [where k' = "\<lambda>x. fst (snd (snd x))", OF join_same [OF u s, where key' = fst]])
        (auto simp: shown_secret_def)
  qed (auto simp: shown_user_def)
  ultimately show "map (hide_secret redact) (select_secrets t') = map (hide_secret redact) (select_secrets t)"
    by metis
  let ?pk = "map_prod ?su shown_kek"
  let ?fk = "\<lambda>((i, n, c), (_, e, ver)). \<lparr>xk_username = n, xk_expires_at = e, xk_version = ver\<rparr>"
  let ?sk = "\<lambda>w. sort_key (\<lambda>(u, k). u_id u) (join_users k_user_id (t_keks w) w)"
  have "map (hide_kek redact) (select_keks w) = map ?fk (map ?pk (?sk w))" for w
    by (simp add: select_keks_def hide_kek_def shown_user_def shown_kek_def split_beta)
  moreover have "map ?pk (?sk t') = map ?pk (?sk t)"
    by (rule sorted_same [where k' = "\<lambda>x. fst (fst x)", OF join_same [OF u k, where key' = fst]])
      (auto simp: shown_user_def shown_kek_def)
  ultimately show "map (hide_kek redact) (select_keks t') = map (hide_kek redact) (select_keks t)" by metis
qed

lemma run_query_cases:
  "run_query select db = (r, db') \<Longrightarrow>
   db_tabs db' = db_tabs db \<and> (fl_row db = [] \<longrightarrow> fl_row db' = [] \<and> (r = None \<or> r = Some (select (db_tabs db))))"
  by (auto simp: run_query_def Let_def dest!: sql_frameD split: prod.splits if_splits)

lemma run_query_frame: "run_query select db = (r, db') \<Longrightarrow> same_conn db db' \<and> db_tabs db' = db_tabs db"
  by (auto simp: run_query_def dest!: sql_frameD split: prod.splits if_splits)

lemma export_frame:
  assumes "export_metadata db format redact cb = (st, x, db')"
  shows "same_conn db db' \<and> db_tabs db' = db_tabs db"
  using assms
  by (auto simp: export_metadata_def query_users_def query_secrets_def query_keks_def
      dest!: run_query_frame split: if_splits prod.splits option.splits intro: same_conn_trans)

lemma run_query_healthy:
  "healthy db \<Longrightarrow> run_query select db = (Some (select (db_tabs db)), db)"
  by (cases db) (simp add: run_query_def healthy_def sql_prepare_def sql_call_def)

lemma export_healthy:
  assumes "healthy db"
  shows "export_metadata db fm redact True = (SSM_OK, Some (takeWhile (\<lambda>c. c \<noteq> CHR 0x00)
    (render fm redact (select_users (db_tabs db)) (select_secrets (db_tabs db)) (select_keks (db_tabs db)))), db)"
  using assms
  by (simp add: export_metadata_def query_users_def query_secrets_def query_keks_def cb_write_def
      run_query_healthy healthyD)

text \<open>
  C30. The export shows no key material, and with redaction no user name: two databases that agree on
  ids, dates, secret names, descriptions, sizes and versions and on which secrets have a public key give
  the same text, whatever the bytes of their keys, salts and password hashes are, and with redaction
  whatever their users are called.
\<close>

theorem export_reveals_only_metadata:
  assumes "healthy db" and "same_metadata redact (db_tabs db) t"
  shows "fst (snd (export_metadata (db\<lparr>db_tabs := t\<rparr>) fm redact True))
    = fst (snd (export_metadata db fm redact True))"
proof -
  let ?t = "db_tabs db"
  have h: "healthy (db\<lparr>db_tabs := t\<rparr>)"
    using assms by (simp add: healthy_def same_metadata_def)
  have "render fm redact (select_users t) (select_secrets t) (select_keks t)
      = render fm redact (select_users ?t) (select_secrets ?t) (select_keks ?t)"
    using selects_same [OF assms(2)] render_hides by metis
  then show ?thesis using export_healthy [OF assms(1)] export_healthy [OF h] by simp
qed

end
