(* ===== verification/Backup.thy ===== *)
theory Backup
  imports Vault_Spec "HOL-Library.Sublist"
begin

section \<open>Encrypted backups (\<open>src/backup\<close>, \<open>ssm_backup_create\<close>, \<open>ssm_backup_restore\<close>)\<close>

text \<open>
  The files of the machine are a map from paths to bytes. Each use of a file takes one outcome from
  \<open>dk_io\<close>: it works, the file cannot be opened (or measured, or read), only a prefix is written and
  \<open>fwrite\<close> says so, or only a prefix reaches the disk when \<open>fclose\<close> flushes, which the code does not
  look at. \<open>dk_junk\<close> is what fresh memory holds. \<open>new\<close> always succeeds.
\<close>

datatype io = Io_Works | Io_Open | Io_Short nat | Io_Flush nat

record disk =
  dk_files :: "string \<Rightarrow> bytes option"
  dk_io :: "io list"
  dk_junk :: "nat \<Rightarrow> byte"

definition next_io :: "disk \<Rightarrow> io \<times> disk" where
  "next_io d = (case dk_io d of [] \<Rightarrow> (Io_Works, d) | x # xs \<Rightarrow> (x, d\<lparr>dk_io := xs\<rparr>))"

definition set_file :: "string \<Rightarrow> bytes option \<Rightarrow> disk \<Rightarrow> disk" where
  "set_file p b d = d\<lparr>dk_files := (dk_files d)(p := b)\<rparr>"

definition new_block :: "nat \<Rightarrow> disk \<Rightarrow> bytes" where
  "new_block n d = map (dk_junk d) [0..<n]"

definition read_file :: "string \<Rightarrow> disk \<Rightarrow> bytes option \<times> disk" where
  "read_file path d =
     (let (x, d1) = next_io d
      in ((if x \<noteq> Io_Works then None
           else (case dk_files d1 path of None \<Rightarrow> None
                 | Some b \<Rightarrow> if length b = 0 then None else Some b)), d1))"

definition write_file :: "string \<Rightarrow> bytes \<Rightarrow> disk \<Rightarrow> bool \<times> disk" where
  "write_file path data d =
     (let (x, d1) = next_io d
      in case x of
           Io_Works \<Rightarrow> (True, set_file path (Some data) d1)
         | Io_Open \<Rightarrow> (False, d1)
         | Io_Short n \<Rightarrow> (length data \<le> n, set_file path (Some (take n data)) d1)
         | Io_Flush n \<Rightarrow> (True, set_file path (Some (take n data)) d1))"

definition has_path_traversal :: "string option \<Rightarrow> bool" where
  "has_path_traversal path =
     (case path of
        None \<Rightarrow> True
      | Some p \<Rightarrow>
          (if p = [] then True
           else if p = ''..'' \<or> take 3 p = ''../'' then True
           else sublist ''/../'' p))"

subsection \<open>The file format\<close>

definition BACKUP_MAGIC_LEN :: nat where "BACKUP_MAGIC_LEN = 8"
definition BACKUP_HEADER_LEN :: nat where "BACKUP_HEADER_LEN = 32"
definition BACKUP_NONCE_LEN :: nat where "BACKUP_NONCE_LEN = 12"
definition BACKUP_TAG_LEN :: nat where "BACKUP_TAG_LEN = 16"
definition BACKUP_HMAC_LEN :: nat where "BACKUP_HMAC_LEN = 32"
definition BACKUP_VERSION :: "16 word" where "BACKUP_VERSION = 2"

lemmas backup_lengths = BACKUP_MAGIC_LEN_def BACKUP_HEADER_LEN_def BACKUP_NONCE_LEN_def
  BACKUP_TAG_LEN_def BACKUP_HMAC_LEN_def

definition EXPECTED_MAGIC :: bytes where
  "EXPECTED_MAGIC = bytes_of_string ''VAULTBKP''"

record backup_header =
  bh_magic :: bytes
  bh_version :: "16 word"
  bh_timestamp :: "64 word"
  bh_nonce :: bytes
  bh_reserved :: bytes

text \<open>The bytes of a word in memory, lowest first.\<close>

definition le_bytes :: "nat \<Rightarrow> 'a::len word \<Rightarrow> bytes" where
  "le_bytes n w = map (\<lambda>i. ucast (drop_bit (8 * i) w)) [0..<n]"

definition le_word :: "bytes \<Rightarrow> 'a::len word" where
  "le_word b = word_rcat (rev b)"

text \<open>The packed structure as it lies in memory on a little-endian machine, and \<open>memcpy\<close> into it.\<close>

definition header_bytes :: "backup_header \<Rightarrow> bytes" where
  "header_bytes h = bh_magic h @ le_bytes 2 (bh_version h) @ le_bytes 8 (bh_timestamp h)
     @ bh_nonce h @ bh_reserved h"

definition load_header :: "bytes \<Rightarrow> backup_header" where
  "load_header b = \<lparr>bh_magic = take 8 b, bh_version = le_word (take 2 (drop 8 b)),
     bh_timestamp = le_word (take 8 (drop 10 b)), bh_nonce = take 12 (drop 18 b),
     bh_reserved = take 2 (drop 30 b)\<rparr>"

definition derive_backup_keys :: "provider \<Rightarrow> bytes \<Rightarrow> bytes \<times> bytes" where
  "derive_backup_keys cr key =
     (pv_sha256 cr (bytes_of_string ''ssm-backup-enc'' @ key),
      pv_sha256 cr (bytes_of_string ''ssm-backup-auth'' @ key))"

definition backup_mac :: "provider \<Rightarrow> bytes \<Rightarrow> bytes \<Rightarrow> bytes \<Rightarrow> bytes \<Rightarrow> bytes" where
  "backup_mac cr auth_key header ciphertext tag = pv_hmac cr auth_key (header @ ciphertext @ tag)"

definition backup_create ::
  "provider \<Rightarrow> string option \<Rightarrow> string option \<Rightarrow> bytes option \<Rightarrow> machine \<Rightarrow> disk
   \<Rightarrow> bool \<times> machine \<times> disk" where
  "backup_create cr src_path dst_path key m d =
     (case (src_path, dst_path, key) of
        (Some src, Some dst, Some k) \<Rightarrow>
          (if length k \<noteq> 32 then (False, m, d)
           else if has_path_traversal (Some dst) then (False, m, d)
           else (let (enc_key, auth_key) = derive_backup_keys cr k;
                     (db_data, d1) = read_file src d
                 in case db_data of
                      None \<Rightarrow> (False, m, d1)
                    | Some data \<Rightarrow>
                        (let (nonce, m1) = random_bytes BACKUP_NONCE_LEN m;
                             header = header_bytes \<lparr>bh_magic = EXPECTED_MAGIC, bh_version = BACKUP_VERSION,
                               bh_timestamp = word_of_nat (m_now m), bh_nonce = nonce, bh_reserved = [0, 0]\<rparr>
                         in case aes_gcm_encrypt cr (Some data) (length data) (Some enc_key) (Some nonce)
                                   (Some header) (Some (new_block (length data) d1)) BACKUP_TAG_LEN of
                              None \<Rightarrow> (False, m1, d1)
                            | Some (ciphertext, tag) \<Rightarrow>
                                (let (ok, d2) = write_file dst (header @ ciphertext @ tag
                                        @ backup_mac cr auth_key header ciphertext tag) d1
                                 in (ok, m1, d2)))))
      | _ \<Rightarrow> (False, m, d))"

text \<open>The \<open>do\<close> block of \<open>backup_restore\<close>: the plaintext of a file that is accepted.\<close>

definition open_backup :: "provider \<Rightarrow> bytes \<Rightarrow> bytes \<Rightarrow> bytes \<Rightarrow> bytes \<Rightarrow> bytes option" where
  "open_backup cr enc_key auth_key block data =
     (if length data < BACKUP_HEADER_LEN + BACKUP_TAG_LEN + BACKUP_HMAC_LEN then None
      else (let header = load_header (take BACKUP_HEADER_LEN data);
                ciphertext_len = length data - BACKUP_HEADER_LEN - BACKUP_TAG_LEN - BACKUP_HMAC_LEN;
                ciphertext = take ciphertext_len (drop BACKUP_HEADER_LEN data);
                tag = take BACKUP_TAG_LEN (drop (BACKUP_HEADER_LEN + ciphertext_len) data);
                hmac_stored = drop (BACKUP_HEADER_LEN + ciphertext_len + BACKUP_TAG_LEN) data
            in if bh_magic header \<noteq> EXPECTED_MAGIC then None
               else if bh_version header \<noteq> BACKUP_VERSION then None
               else if backup_mac cr auth_key (take BACKUP_HEADER_LEN data) ciphertext tag \<noteq> hmac_stored
               then None
               else aes_gcm_decrypt cr (Some ciphertext) ciphertext_len (Some enc_key)
                      (Some (bh_nonce header)) (Some (header_bytes header)) (Some tag)
                      (Some (take ciphertext_len block))))"

definition backup_restore ::
  "provider \<Rightarrow> string option \<Rightarrow> string option \<Rightarrow> bytes option \<Rightarrow> disk \<Rightarrow> bool \<times> disk" where
  "backup_restore cr src_path dst_path key d =
     (case (src_path, dst_path, key) of
        (Some src, Some dst, Some k) \<Rightarrow>
          (if length k \<noteq> 32 then (False, d)
           else if has_path_traversal (Some src) \<or> has_path_traversal (Some dst) then (False, d)
           else (let (enc_key, auth_key) = derive_backup_keys cr k;
                     (backup_data, d1) = read_file src d
                 in case backup_data of
                      None \<Rightarrow> (False, d1)
                    | Some data \<Rightarrow>
                        (case open_backup cr enc_key auth_key (new_block (length data) d1) data of
                           None \<Rightarrow> (False, d1)
                         | Some plaintext \<Rightarrow> write_file dst plaintext d1)))
      | _ \<Rightarrow> (False, d))"

subsection \<open>Helper lemmas: the header\<close>

lemma length_le_bytes [simp]: "length (le_bytes n w) = n"
  by (simp add: le_bytes_def)

lemma le_word_bytes:
  assumes "8 * n = LENGTH('a::len)"
  shows "le_word (le_bytes n w) = (w :: 'a word)"
proof (rule bit_word_eqI)
  fix k assume k: "k < LENGTH('a)"
  then have "k div 8 < n" using assms by linarith
  then show "bit (le_word (le_bytes n w) :: 'a word) k = bit w k"
    using k by (simp add: le_word_def le_bytes_def word_rcat_def bit_word_of_int_iff
        bit_horner_sum_uint_exp_iff [where 'a = 8, simplified] bit_simps)
qed

lemma le_bytes_word:
  assumes "8 * length b = LENGTH('a::len)"
  shows "le_bytes (length b) (le_word b :: 'a word) = b"
proof (rule nth_equalityI)
  fix i assume "i < length (le_bytes (length b) (le_word b :: 'a word))"
  then have i: "i < length b" by simp
  show "le_bytes (length b) (le_word b :: 'a word) ! i = b ! i"
  proof (rule bit_word_eqI)
    fix k assume "k < LENGTH(8)"
    then have "8 * i + k < LENGTH('a)" "(8 * i + k) div 8 = i" "(8 * i + k) mod 8 = k" "k < 8"
      using i assms by auto
    then show "bit (le_bytes (length b) (le_word b :: 'a word) ! i) k = bit (b ! i) k"
      using i by (simp add: le_word_def le_bytes_def word_rcat_def bit_word_of_int_iff
        bit_horner_sum_uint_exp_iff [where 'a = 8, simplified] bit_simps)
  qed
qed simp

definition header_ok :: "backup_header \<Rightarrow> bool" where
  "header_ok h \<longleftrightarrow> length (bh_magic h) = 8 \<and> length (bh_nonce h) = 12 \<and> length (bh_reserved h) = 2"

lemma length_header_bytes: "header_ok h \<Longrightarrow> length (header_bytes h) = 32"
  by (simp add: header_ok_def header_bytes_def)

lemma load_header_bytes:
  assumes "header_ok h"
  shows "load_header (header_bytes h) = h"
proof -
  have "drop 8 (header_bytes h) = le_bytes 2 (bh_version h) @ le_bytes 8 (bh_timestamp h)
      @ bh_nonce h @ bh_reserved h"
    "drop 10 (header_bytes h) = le_bytes 8 (bh_timestamp h) @ bh_nonce h @ bh_reserved h"
    "drop 18 (header_bytes h) = bh_nonce h @ bh_reserved h" "drop 30 (header_bytes h) = bh_reserved h"
    using assms by (simp_all add: header_ok_def header_bytes_def)
  then show ?thesis using assms
    by (simp add: load_header_def header_ok_def le_word_bytes) (simp add: header_bytes_def)
qed

text \<open>The header format is a codec; \<open>header.encode_inject\<close> says that it loses nothing.\<close>

interpretation header: codec header_bytes "\<lambda>b. Some (load_header b)" header_ok
  by unfold_locales (simp add: load_header_bytes)

lemma load_header_ok: "length b = 32 \<Longrightarrow> header_ok (load_header b)"
  by (simp add: header_ok_def load_header_def)

lemma drop_chunk: "drop n b = take k (drop n b) @ drop (n + k) b"
  by (metis add.commute append_take_drop_id drop_drop)

lemma split_32:
  assumes "length b = 32"
  shows "b = take 8 b @ take 2 (drop 8 b) @ take 8 (drop 10 b) @ take 12 (drop 18 b) @ take 2 (drop 30 b)"
proof -
  have "drop 30 b = take 2 (drop 30 b)" using assms by simp
  moreover note drop_chunk [of 18 b 12] drop_chunk [of 10 b 8] drop_chunk [of 8 b 2]
    append_take_drop_id [of 8 b]
  ultimately show ?thesis by simp
qed

lemma header_bytes_load:
  assumes "length b = 32"
  shows "header_bytes (load_header b) = b"
proof -
  have "le_bytes 2 (le_word (take 2 (drop 8 b)) :: 16 word) = take 2 (drop 8 b)"
    "le_bytes 8 (le_word (take 8 (drop 10 b)) :: 64 word) = take 8 (drop 10 b)"
    using le_bytes_word [of "take 2 (drop 8 b)", where 'a = 16]
      le_bytes_word [of "take 8 (drop 10 b)", where 'a = 64] assms by simp_all
  then show ?thesis using split_32 [OF assms] by (simp add: header_bytes_def load_header_def)
qed

subsection \<open>Helper lemmas: sealing and opening\<close>

lemma length_new_block [simp]: "length (new_block n d) = n"
  by (simp add: new_block_def)

lemma next_io_files: "next_io d = (x, d') \<Longrightarrow> dk_files d' = dk_files d"
  by (auto simp: next_io_def split: list.splits)

lemma read_fileD:
  assumes "read_file path d = (b, d')"
  shows "dk_files d' = dk_files d \<and> (b \<noteq> None \<longrightarrow> b = dk_files d path \<and> b \<noteq> Some [])"
  using assms
  by (auto simp: read_file_def dest: next_io_files split: prod.splits option.splits if_splits)

lemma write_fileD:
  assumes "write_file path b d = (ok, d')"
  shows "dk_files d' = dk_files d \<or> (\<exists>n. dk_files d' = (dk_files d)(path := Some (take n b)))"
proof -
  obtain x d1 where x: "next_io d = (x, d1)" by fastforce
  have "\<exists>n. (dk_files d)(path := Some b) = (dk_files d)(path := Some (take n b))"
    by (rule exI [of _ "length b"]) simp
  then show ?thesis
    using assms next_io_files [OF x] by (cases x) (auto simp: write_file_def x set_file_def)
qed

lemma quiet_io [simp]:
  "dk_io d = [] \<Longrightarrow> read_file path d = (if dk_files d path = Some [] then None else dk_files d path, d)"
  "dk_io d = [] \<Longrightarrow> write_file path b d = (True, set_file path (Some b) d)"
  by (auto simp: read_file_def write_file_def next_io_def split: option.splits)

text \<open>What \<open>open_backup\<close> accepts, for a file an \<open>int\<close> can count.\<close>

lemma open_backup_accepts:
  assumes run: "open_backup cr ek ak block data = Some plain" and law: "lawful cr"
    and len: "length data < 2 ^ 31"
  shows "\<exists>hdr ct tag. data = hdr @ ct @ tag @ backup_mac cr ak hdr ct tag \<and> length hdr = 32 \<and> length tag = 16
    \<and> bh_magic (load_header hdr) = EXPECTED_MAGIC \<and> bh_version (load_header hdr) = BACKUP_VERSION
    \<and> pv_gcm_open cr (take 32 ek) (bh_nonce (load_header hdr)) hdr ct tag = Some plain"
proof -
  let ?n = "length data - 80" and ?hdr = "take 32 data"
  let ?ct = "take ?n (drop 32 data)" and ?tag = "take 16 (drop (32 + ?n) data)"
  have l: "80 \<le> length data"
    and g: "bh_magic (load_header ?hdr) = EXPECTED_MAGIC" "bh_version (load_header ?hdr) = BACKUP_VERSION"
    and m: "backup_mac cr ak ?hdr ?ct ?tag = drop (32 + ?n + 16) data"
    and dec: "aes_gcm_decrypt cr (Some ?ct) ?n (Some ek) (Some (bh_nonce (load_header ?hdr)))
        (Some (header_bytes (load_header ?hdr))) (Some ?tag) (Some (take ?n block)) = Some plain"
    using run by (auto simp: open_backup_def Let_def backup_lengths split: if_splits)
  have lens: "length ?hdr = 32" "length ?ct = ?n" "length ?tag = 16" using l by simp_all
  have "c_int ?n = int ?n" using len by (simp add: c_int_exact)
  then have "pv_gcm_open cr (take 32 ek) (bh_nonce (load_header ?hdr)) ?hdr ?ct ?tag = Some plain"
    using dec lens header_bytes_load [OF lens(1)] lawful_open [OF law]
    by (auto simp: aes_gcm_decrypt_def split: option.splits)
  moreover have "data = ?hdr @ ?ct @ ?tag @ drop (32 + ?n + 16) data"
    using append_take_drop_id [of 32 data] drop_chunk [of 32 data ?n] drop_chunk [of "32 + ?n" data 16]
    by simp
  ultimately show ?thesis using g m lens by metis
qed

text \<open>A file put together as \<open>backup_create\<close> does opens to the plaintext.\<close>

lemma open_sealed_file:
  assumes law: "lawful cr" and hdr: "header_ok h" "bh_magic h = EXPECTED_MAGIC" "bh_version h = BACKUP_VERSION"
    and seal: "pv_gcm_seal cr (take 32 ek) (bh_nonce h) (header_bytes h) plain = Some (ct, tag)"
    and len: "length plain < 2 ^ 31"
  shows "open_backup cr ek ak block (header_bytes h @ ct @ tag @ backup_mac cr ak (header_bytes h) ct tag)
    = Some plain"
proof -
  note l = lawful_seal [OF law seal] length_header_bytes [OF hdr(1)] load_header_bytes [OF hdr(1)]
  have m: "length (backup_mac cr ak (header_bytes h) ct tag) = 32"
    by (simp add: backup_mac_def lawful_lengths [OF law])
  show ?thesis
    using l m hdr len
    by (simp add: open_backup_def backup_lengths Let_def aes_gcm_decrypt_def c_int_exact)
qed

subsection \<open>Properties of the file operations\<close>

text \<open>The components of a path.\<close>

fun components :: "string \<Rightarrow> string list" where
  "components [] = [[]]"
| "components (c # s) =
     (if c = CHR ''/'' then [] # components s
      else (c # hd (components s)) # tl (components s))"

lemma components_not_Nil [simp]: "components p \<noteq> []"
  by (cases p) auto

lemma prefix_component: "prefix ''../'' p \<longleftrightarrow> (\<exists>w ws. components p = ''..'' # w # ws)"
proof -
  have nil: "components r = [] # ws \<longleftrightarrow> (r = [] \<and> ws = []) \<or> (\<exists>r'. r = CHR ''/'' # r' \<and> ws = components r')"
    for r ws by (cases r) auto
  show ?thesis
    by (cases p; cases "tl p"; cases "tl (tl p)")
      (auto simp: Cons_eq_append_conv nil prefix_Cons intro: hd_Cons_tl [OF components_not_Nil, symmetric])
qed

lemma inner_component: "sublist ''/../'' p \<longleftrightarrow> ''..'' \<in> set (butlast (tl (components p)))"
proof (induction p)
  case (Cons c p)
  obtain w ws where p: "components p = w # ws" using components_not_Nil [of p] by (meson neq_Nil_conv)
  have "prefix ''/../'' (c # p) \<longleftrightarrow> c = CHR ''/'' \<and> w = ''..'' \<and> ws \<noteq> []"
    using prefix_component [of p] p by (auto simp: neq_Nil_conv)
  then show ?case using Cons p by (auto simp: sublist_Cons_right)
qed simp

text \<open>
  The path check refuses exactly the paths that climb: the empty path, \<open>..\<close> itself, and every path
  with a component \<open>..\<close> anywhere but at the end. A name that merely contains two dots passes, and so
  does a path that ends in \<open>/..\<close>.
\<close>

theorem traversal_means_dotdot:
  "has_path_traversal (Some p) \<longleftrightarrow> p = [] \<or> p = ''..'' \<or> ''..'' \<in> set (butlast (components p))"
proof -
  obtain w ws where p: "components p = w # ws" using components_not_Nil [of p] by (meson neq_Nil_conv)
  have "take 3 p = ''../'' \<longleftrightarrow> prefix ''../'' p"
    by (metis (no_types, lifting) length_Cons list.size(3) numeral_3_eq_3 prefix_def prefix_order.refl
        append_take_drop_id take_is_prefix append_eq_conv_conj)
  then show ?thesis
    using prefix_component [of p] inner_component [of p] p
    by (auto simp: has_path_traversal_def neq_Nil_conv)
qed

text \<open>
  C17. A restore never lets an unauthenticated file through: if it changes any file at all, the backup was
  a header of the right magic and version, a ciphertext, a tag and the HMAC of all three under the key,
  the cipher accepted it, and what was written, to the destination only, is the plaintext or a prefix.
\<close>

theorem restore_writes_only_authentic:
  assumes law: "lawful cr" and run: "backup_restore cr (Some src) (Some dst) (Some k) d = (ok, d')"
    and change: "ok \<or> dk_files d' \<noteq> dk_files d"
    and len: "\<forall>b. dk_files d src = Some b \<longrightarrow> length b < 2 ^ 31"
  shows "\<exists>hdr ct tag plain n.
      dk_files d src = Some (hdr @ ct @ tag @ backup_mac cr (snd (derive_backup_keys cr k)) hdr ct tag)
    \<and> length hdr = 32 \<and> bh_magic (load_header hdr) = EXPECTED_MAGIC
    \<and> bh_version (load_header hdr) = BACKUP_VERSION
    \<and> pv_gcm_open cr (fst (derive_backup_keys cr k)) (bh_nonce (load_header hdr)) hdr ct tag = Some plain
    \<and> (dk_files d' = dk_files d \<or> dk_files d' = (dk_files d)(dst := Some (take n plain)))"
proof -
  obtain ek ak where k: "derive_backup_keys cr k = (ek, ak)" by fastforce
  then have ek: "take 32 ek = ek" using lawful_lengths(1) [OF law] by (auto simp: derive_backup_keys_def)
  obtain b d1 where r: "read_file src d = (b, d1)" by fastforce
  note d1 = read_fileD [OF r]
  obtain data plain where b: "b = Some data"
    and o: "open_backup cr ek ak (new_block (length data) d1) data = Some plain"
    and w: "write_file dst plain d1 = (ok, d')"
    using run change k r d1
    by (auto simp: backup_restore_def split: if_splits option.splits)
  have "length data < 2 ^ 31" using len d1 b by simp
  from open_backup_accepts [OF o law this] obtain hdr ct tag where
    "data = hdr @ ct @ tag @ backup_mac cr ak hdr ct tag" "length hdr = 32"
    "bh_magic (load_header hdr) = EXPECTED_MAGIC" "bh_version (load_header hdr) = BACKUP_VERSION"
    "pv_gcm_open cr ek (bh_nonce (load_header hdr)) hdr ct tag = Some plain"
    using ek by auto
  then show ?thesis using write_fileD [OF w] d1 b k by (metis fst_conv snd_conv option.distinct(1))
qed

text \<open>What \<open>backup_create\<close> leaves on a disk where nothing fails opens to what was read.\<close>

lemma created_opens:
  assumes law: "lawful cr" and io: "dk_io d = []"
    and create: "backup_create cr (Some src) (Some bak) (Some k) m d = (True, m', d')"
    and len: "\<forall>b. dk_files d src = Some b \<longrightarrow> length b < 2 ^ 31"
  shows "\<exists>data b. dk_files d src = Some data \<and> dk_files d' bak = Some b \<and> b \<noteq> []
    \<and> (\<forall>block. open_backup cr (fst (derive_backup_keys cr k)) (snd (derive_backup_keys cr k)) block b = Some data)"
proof -
  obtain ek ak where k: "derive_backup_keys cr k = (ek, ak)" by fastforce
  obtain data where data: "dk_files d src = Some data" "data \<noteq> []"
    using create io k by (auto simp: backup_create_def split: if_splits option.splits)
  then have l: "length data < 2 ^ 31" using len by simp
  obtain nonce m1 where n: "random_bytes BACKUP_NONCE_LEN m = (nonce, m1)" by fastforce
  let ?h = "\<lparr>bh_magic = EXPECTED_MAGIC, bh_version = BACKUP_VERSION,
    bh_timestamp = word_of_nat (m_now m), bh_nonce = nonce, bh_reserved = [0, 0]\<rparr>"
  obtain ct tag where s: "pv_gcm_seal cr (take 32 ek) nonce (header_bytes ?h) data = Some (ct, tag)"
    and f: "dk_files d' bak = Some (header_bytes ?h @ (ct @ drop (length ct) (new_block (length data) d))
        @ take 16 tag @ backup_mac cr ak (header_bytes ?h)
            (ct @ drop (length ct) (new_block (length data) d)) (take 16 tag))"
    using create io k data n l
    by (auto simp: backup_create_def aes_gcm_encrypt_def c_int_exact set_file_def BACKUP_TAG_LEN_def Let_def
        split: if_splits option.splits)
  have "length nonce = 12" using n by (metis BACKUP_NONCE_LEN_def fst_conv length_random_bytes)
  then have "header_ok ?h" by (simp add: header_ok_def EXPECTED_MAGIC_def)
  from open_sealed_file [OF law this _ _ _ l, of ek ct tag] s
  have "open_backup cr ek ak block (header_bytes ?h @ ct @ tag @ backup_mac cr ak (header_bytes ?h) ct tag)
      = Some data" for block by simp
  moreover have "dk_files d' bak = Some (header_bytes ?h @ ct @ tag @ backup_mac cr ak (header_bytes ?h) ct tag)"
    using f lawful_seal [OF law s] by simp
  moreover have "header_bytes ?h \<noteq> []" using length_header_bytes [OF \<open>header_ok ?h\<close>] by auto
  ultimately show ?thesis using data k by simp
qed

text \<open>
  A backup restores to the very bytes that were backed up, byte for byte: on a disk where nothing
  fails, whatever happened to other files in between.
\<close>

theorem backup_round_trip:
  assumes law: "lawful cr" and io: "dk_io d = []" "dk_io e = []"
    and create: "backup_create cr (Some src) (Some bak) (Some k) m d = (True, m', d')"
    and keep: "dk_files e bak = dk_files d' bak"
    and len: "\<forall>b. dk_files d src = Some b \<longrightarrow> length b < 2 ^ 31"
    and dst: "\<not> has_path_traversal (Some dst)"
  shows "\<exists>data. dk_files d src = Some data
    \<and> backup_restore cr (Some bak) (Some dst) (Some k) e = (True, set_file dst (Some data) e)"
proof -
  obtain data b where d: "dk_files d src = Some data" "dk_files e bak = Some b" "b \<noteq> []"
    and o: "\<And>block. open_backup cr (fst (derive_backup_keys cr k)) (snd (derive_backup_keys cr k)) block b = Some data"
    using created_opens [OF law io(1) create len] keep by auto
  have g: "\<not> has_path_traversal (Some bak)" "length k = 32"
    using create by (auto simp: backup_create_def split: if_splits)
  obtain ek ak where "derive_backup_keys cr k = (ek, ak)" by fastforce
  with d o g dst io show ?thesis by (simp add: backup_restore_def)
qed

section \<open>\<open>ssm_backup_create\<close>, \<open>ssm_backup_restore\<close>\<close>

text \<open>
  What the machine and SQLite answer during the two calls: the disk; the bytes of a database file that
  holds given tables, and the tables read back from such bytes without a key (\<open>None\<close> for a file that is
  no database, or an encrypted one); whether the library is SQLCipher; whether the checkpoint copies the
  log into the file; the letters \<open>mkstemp\<close> chooses, if it succeeds; whether opening the temporary file
  succeeds; the oracles of the connection that looks at it and of the new connection; whether \<open>rename\<close>
  succeeds.
\<close>

record host =
  ho_disk :: disk
  ho_image :: "tables \<Rightarrow> bytes"
  ho_load :: "bytes \<Rightarrow> tables option"
  ho_cipher :: bool
  ho_checkpoint :: bool
  ho_suffix :: "string option"
  ho_test_open :: bool
  ho_test :: sqlite
  ho_conn :: sqlite
  ho_rename :: bool

definition in_memory :: "string \<Rightarrow> bool" where
  "in_memory path \<longleftrightarrow> path = [] \<or> path = '':memory:''"

text \<open>The result of the checkpoint is not looked at: when it fails the file stays as it was.\<close>

definition wal_checkpoint :: "vault \<Rightarrow> host \<Rightarrow> host" where
  "wal_checkpoint v h =
     (if ho_checkpoint h \<and> \<not> in_memory (v_path v)
      then h\<lparr>ho_disk := set_file (v_path v) (Some (ho_image h (db_tabs (v_db v)))) (ho_disk h)\<rparr>
      else h)"

definition ssm_backup_create ::
  "provider \<Rightarrow> string option \<Rightarrow> bytes option \<Rightarrow> vault \<Rightarrow> host \<Rightarrow> ssm_status \<times> vault \<times> host" where
  "ssm_backup_create cr backup_path backup_key v h =
     (if backup_path = None \<or> backup_key = None then (SSM_ERR_INTERNAL, v, h)
      else (let h1 = wal_checkpoint v h
            in if in_memory (v_path v) then (SSM_ERR_INTERNAL, v, h1)
               else (let (ok, m1, d1) = backup_create cr (Some (v_path v)) backup_path backup_key
                           (v_mach v) (ho_disk h1)
                     in (if ok then SSM_OK else SSM_ERR_INTERNAL, v\<lparr>v_mach := m1\<rparr>,
                         h1\<lparr>ho_disk := d1\<rparr>))))"

text \<open>
  The name for \<open>mkstemp\<close> is put together in a buffer of 512 bytes: \<open>memcpy\<close> copies the directory part
  without looking at its length, \<open>snprintf\<close> cuts the rest off at the end of the buffer. \<open>None\<close> is the
  overrun (with exactly 512 bytes the name is not terminated).
\<close>

definition tmp_template :: "string \<Rightarrow> string option" where
  "tmp_template db_path =
     (let base = rev (takeWhile (\<lambda>c. c \<noteq> CHR ''/'') (rev db_path));
          dir = rev (dropWhile (\<lambda>c. c \<noteq> CHR ''/'') (rev db_path))
      in if length dir \<ge> 512 then None
         else Some (dir @ take (511 - length dir) (''.'' @ base @ ''.XXXXXX'')))"

text \<open>\<open>mkstemp\<close> wants six \<open>X\<close> at the end and creates an empty file under a name that is not in use.\<close>

definition mkstemp :: "string \<Rightarrow> host \<Rightarrow> string option \<times> host" where
  "mkstemp template h =
     (let stem = take (length template - 6) template
      in if drop (length template - 6) template \<noteq> ''XXXXXX'' then (None, h)
         else (case ho_suffix h of
                 None \<Rightarrow> (None, h)
               | Some x \<Rightarrow>
                   (if length x \<noteq> 6 \<or> dk_files (ho_disk h) (stem @ x) \<noteq> None then (None, h)
                    else (Some (stem @ x), h\<lparr>ho_disk := set_file (stem @ x) (Some []) (ho_disk h)\<rparr>))))"

text \<open>The temporary file is opened read-only and has to pass for a current database.\<close>

definition valid_schema :: "string \<Rightarrow> host \<Rightarrow> bool" where
  "valid_schema path h =
     (case dk_files (ho_disk h) path of
        None \<Rightarrow> False
      | Some b \<Rightarrow>
          (case ho_load h b of
             None \<Rightarrow> False
           | Some t \<Rightarrow>
               (let (ok, db1) = db_create_schema ((fresh_connection (ho_test h) t)\<lparr>db_readonly := True\<rparr>)
                in ok \<and> fst (db_migrate db1))))"

definition reopen :: "string \<Rightarrow> host \<Rightarrow> bool \<times> sqlite" where
  "reopen path h =
     db_open (ho_cipher h)
       (\<lambda>p. case dk_files (ho_disk h) p of None \<Rightarrow> Some empty_tables | Some b \<Rightarrow> ho_load h b)
       (ho_conn h) (Some path) None"

definition remove_file :: "string \<Rightarrow> host \<Rightarrow> host" where
  "remove_file p h = h\<lparr>ho_disk := set_file p None (ho_disk h)\<rparr>"

text \<open>
  From the point where the old connection is closed; the file it leaves holds its tables. A connection
  that could not be opened answers like a null pointer.
\<close>

definition replace_database :: "string \<Rightarrow> vault \<Rightarrow> host \<Rightarrow> ssm_status \<times> vault \<times> host" where
  "replace_database tmp v h =
     (let path = v_path v;
          h1 = h\<lparr>ho_disk := set_file path (Some (ho_image h (db_close (v_db v)))) (ho_disk h)\<rparr>;
          h2 = remove_file path h1;
          again = (\<lambda>g. v\<lparr>v_db := (let (ok, db) = reopen path g in if ok then db else db\<lparr>db_null := True\<rparr>)\<rparr>)
      in if \<not> ho_rename h then (SSM_ERR_INTERNAL, again (remove_file tmp h2), remove_file tmp h2)
         else (let h3 = remove_file tmp (h2\<lparr>ho_disk := set_file path (dk_files (ho_disk h2) tmp) (ho_disk h2)\<rparr>);
                   (ok1, db1) = reopen path h3
               in if \<not> ok1 then (SSM_ERR_INTERNAL, again h3, h3)
                  else (let (ok2, db2) = db_create_schema db1
                        in if \<not> ok2 then (SSM_ERR_INTERNAL, v\<lparr>v_db := db2\<rparr>, h3)
                           else (let (ok3, db3) = db_migrate db2
                                 in (if ok3 then SSM_OK else SSM_ERR_INTERNAL, v\<lparr>v_db := db3\<rparr>, h3)))))"

text \<open>The whole call; \<open>None\<close> is the overrun of the buffer, after which nothing is defined.\<close>

definition ssm_backup_restore ::
  "provider \<Rightarrow> string option \<Rightarrow> bytes option \<Rightarrow> vault \<Rightarrow> host \<Rightarrow> (ssm_status \<times> vault \<times> host) option" where
  "ssm_backup_restore cr backup_path backup_key v h =
     (if backup_path = None \<or> backup_key = None then Some (SSM_ERR_INTERNAL, v, h)
      else if in_memory (v_path v) then Some (SSM_ERR_INTERNAL, v, h)
      else (case tmp_template (v_path v) of
              None \<Rightarrow> None
            | Some template \<Rightarrow>
                Some (case mkstemp template h of
                        (None, h1) \<Rightarrow> (SSM_ERR_INTERNAL, v, h1)
                      | (Some tmp, h1) \<Rightarrow>
                          (let (restored, d2) = backup_restore cr backup_path (Some tmp) backup_key (ho_disk h1);
                               h2 = h1\<lparr>ho_disk := d2\<rparr>
                           in if \<not> restored then (SSM_ERR_INTERNAL, v, h2)
                              else if \<not> ho_test_open h \<or> \<not> valid_schema tmp h2
                              then (SSM_ERR_INTERNAL, v, remove_file tmp h2)
                              else replace_database tmp v h2))))"

subsection \<open>Helper lemmas: opening a current database\<close>

definition quiet :: "sqlite \<Rightarrow> bool" where
  "quiet db \<longleftrightarrow> fl_stmt db = [] \<and> fl_row db = []"

definition current :: "tables \<Rightarrow> bool" where
  "current t \<longleftrightarrow> t_exists t \<and> SSM_SCHEMA_VERSION \<le> t_version t"

lemma quiet_call: "quiet db \<Longrightarrow> sql_call db = (True, db)"
  by (cases db) (simp add: quiet_def sql_call_def)

lemma quiet_calls: "quiet db \<Longrightarrow> sql_calls n db = (True, db)"
proof (induction n)
  case (Suc n)
  then show ?case by (subst sql_calls.simps) (simp add: quiet_call)
qed (subst sql_calls.simps, simp)

lemma quiet_version: "quiet db \<Longrightarrow> \<not> db_null db \<Longrightarrow> db_get_version db = (t_version (db_tabs db), db)"
  by (cases db) (simp add: db_get_version_def quiet_def sql_call_def)

lemma create_schema_current:
  assumes "quiet db" "current (db_tabs db)" "\<not> db_null db"
  shows "\<exists>db'. db_create_schema db = (True, db') \<and> quiet db' \<and> db_tabs db' = db_tabs db \<and> \<not> db_null db'"
proof -
  have q: "quiet (db\<lparr>db_fk := True\<rparr>)" using assms by (simp add: quiet_def)
  note s = quiet_call [OF assms(1)]
  show ?thesis
    using assms q quiet_calls [OF assms(1), of 5] quiet_calls [OF q, of 5] quiet_version [OF assms(1)]
      quiet_version [OF q]
    by (auto simp: db_create_schema_def s current_def SSM_SCHEMA_VERSION_def)
qed

lemma migrate_current:
  assumes "quiet db" "current (db_tabs db)" "\<not> db_null db"
  shows "db_migrate db = (True, db)"
  using assms quiet_version [OF assms(1,3)] by (simp add: db_migrate_def current_def SSM_SCHEMA_VERSION_def)

lemma fresh_quiet: "quiet conn \<Longrightarrow> quiet (fresh_connection conn t)"
  by (simp add: quiet_def fresh_connection_def)

lemma fresh_simps [simp]: "db_tabs (fresh_connection conn t) = t" "\<not> db_null (fresh_connection conn t)"
  by (simp_all add: fresh_connection_def)

lemma valid_schema_current:
  assumes "dk_files (ho_disk h) p = Some b" "ho_load h b = Some t" "current t" "quiet (ho_test h)"
  shows "valid_schema p h"
proof -
  let ?db = "(fresh_connection (ho_test h) t)\<lparr>db_readonly := True\<rparr>"
  have "quiet ?db" "current (db_tabs ?db)" "\<not> db_null ?db"
    using assms by (simp_all add: quiet_def fresh_connection_def)
  from create_schema_current [OF this] migrate_current show ?thesis
    using assms by (auto simp: valid_schema_def)
qed

lemma replace_with_current:
  assumes "dk_files (ho_disk h) tmp = Some b" "ho_load h b = Some t" "current t" "quiet (ho_conn h)"
    and "\<not> ho_cipher h" "ho_rename h" "tmp \<noteq> v_path v"
  shows "\<exists>v' h'. replace_database tmp v h = (SSM_OK, v', h') \<and> db_tabs (v_db v') = t
    \<and> v_cache v' = v_cache v \<and> dk_files (ho_disk h') (v_path v) = Some b \<and> dk_files (ho_disk h') tmp = None"
proof -
  let ?db = "fresh_connection (ho_conn h) t"
  obtain db2 where c: "db_create_schema ?db = (True, db2)" and d: "quiet db2" "db_tabs db2 = t" "\<not> db_null db2"
    using create_schema_current [OF fresh_quiet [OF assms(4)], of t] assms by auto
  have "db_migrate db2 = (True, db2)" using migrate_current d assms by simp
  then show ?thesis using assms c d
    by (simp add: replace_database_def reopen_def db_open_def remove_file_def set_file_def Let_def)
qed

lemma create_leaves_file:
  assumes "dk_io d = []" and "backup_create cr (Some src) (Some bak) (Some k) m d = (True, m', d')"
  shows "dk_files d' bak \<noteq> None"
  using assms
  by (auto simp: backup_create_def set_file_def Let_def split: if_splits option.splits prod.splits)

lemma mkstempD:
  assumes "mkstemp template h = (Some tmp, h')"
  shows "h' = h\<lparr>ho_disk := set_file tmp (Some []) (ho_disk h)\<rparr> \<and> dk_files (ho_disk h) tmp = None"
  using assms by (auto simp: mkstemp_def Let_def split: if_splits option.splits)

subsection \<open>Properties of the two calls\<close>

text \<open>
  C6. What was backed up comes back, in a build without SQLCipher (with it no restore succeeds at all): take
  a backup of a handle on a file of less than 2 GiB with the current schema, where the checkpoint works.
  Restoring it on a handle with the same path, at any later time and in whatever state the handle and the
  file are by then, answers \<open>SSM_OK\<close> and leaves the handle on exactly the tables it had when the backup
  was made, provided that nothing fails on the way: file operations, \<open>mkstemp\<close> (whose name has to pass
  the check for path traversal and to differ from the database's), \<open>rename\<close>, and the statements of the
  connections that are opened. The key cache is carried over from before the restore.
\<close>

theorem backup_brings_vault_back:
  assumes law: "lawful cr" and io: "dk_io (ho_disk h) = []" "dk_io (ho_disk e) = []"
    and create: "ssm_backup_create cr (Some bak) (Some k) v h = (SSM_OK, v', h')" and ck: "ho_checkpoint h"
    and image: "ho_load e (ho_image h (db_tabs (v_db v))) = Some (db_tabs (v_db v))"
      "length (ho_image h (db_tabs (v_db v))) < 2 ^ 31" "current (db_tabs (v_db v))"
    and later: "v_path w = v_path v" "dk_files (ho_disk e) bak = dk_files (ho_disk h') bak"
    and tmp: "tmp_template (v_path v) = Some template" "mkstemp template e = (Some tmp, e1)"
      "\<not> has_path_traversal (Some tmp)" "tmp \<noteq> v_path v"
    and calm: "\<not> ho_cipher e" "ho_rename e" "ho_test_open e" "quiet (ho_test e)" "quiet (ho_conn e)"
  shows "\<exists>w' e'. ssm_backup_restore cr (Some bak) (Some k) w e = Some (SSM_OK, w', e')
    \<and> db_tabs (v_db w') = db_tabs (v_db v) \<and> v_cache w' = v_cache w"
proof -
  let ?b = "ho_image h (db_tabs (v_db v))"
  have mem: "\<not> in_memory (v_path v)" using create by (auto simp: ssm_backup_create_def Let_def)
  let ?d = "set_file (v_path v) (Some ?b) (ho_disk h)"
  obtain m1 d1 where c: "backup_create cr (Some (v_path v)) (Some bak) (Some k) (v_mach v) ?d = (True, m1, d1)"
    and h': "ho_disk h' = d1"
    using create ck mem by (auto simp: ssm_backup_create_def wal_checkpoint_def split: prod.splits if_splits)
  note mk = mkstempD [OF tmp(2)]
  let ?e = "ho_disk e1"
  have io': "dk_io ?d = []" "dk_io ?e = []" using io mk by (simp_all add: set_file_def)
  have src: "dk_files ?d (v_path v) = Some ?b" by (simp add: set_file_def)
  have ne: "tmp \<noteq> bak" using create_leaves_file [OF io'(1) c] mk later h' by metis
  then have "dk_files ?e bak = dk_files d1 bak" using mk later h' by (simp add: set_file_def)
  from backup_round_trip [OF law io' c this _ tmp(3)] src image(2)
  have r: "backup_restore cr (Some bak) (Some tmp) (Some k) ?e = (True, set_file tmp (Some ?b) ?e)" by simp
  let ?e2 = "e1\<lparr>ho_disk := set_file tmp (Some ?b) ?e\<rparr>"
  have f: "dk_files (ho_disk ?e2) tmp = Some ?b" by (simp add: set_file_def)
  have host: "ho_load ?e2 = ho_load e" "ho_test ?e2 = ho_test e" "ho_conn ?e2 = ho_conn e"
    "ho_cipher ?e2 = ho_cipher e" "ho_rename ?e2 = ho_rename e"
    using mk by simp_all
  have "valid_schema tmp ?e2"
    by (rule valid_schema_current [OF f]) (use image calm host in simp_all)
  moreover obtain w' e' where "replace_database tmp w ?e2 = (SSM_OK, w', e')" "db_tabs (v_db w') = db_tabs (v_db v)"
    "v_cache w' = v_cache w"
    using replace_with_current [OF f, of "db_tabs (v_db v)" w] image calm host tmp later by auto
  ultimately show ?thesis
    using mem r tmp later calm by (simp add: ssm_backup_restore_def)
qed

text \<open>
  A file that is no authentic backup, under this key, does no harm: the call fails, the handle is the
  same, and no file that was there before has changed.
\<close>

theorem rejected_backup_changes_nothing:
  assumes "\<forall>b block. dk_files (ho_disk h) bak = Some b \<longrightarrow>
      open_backup cr (fst (derive_backup_keys cr k)) (snd (derive_backup_keys cr k)) block b = None"
    and "tmp_template (v_path v) \<noteq> None"
  shows "\<exists>h'. ssm_backup_restore cr (Some bak) (Some k) v h = Some (SSM_ERR_INTERNAL, v, h')
    \<and> (\<forall>p. dk_files (ho_disk h) p \<noteq> None \<longrightarrow> dk_files (ho_disk h') p = dk_files (ho_disk h) p)"
proof (cases "in_memory (v_path v)")
  case False
  obtain template where t: "tmp_template (v_path v) = Some template" using assms by blast
  show ?thesis
  proof (cases "mkstemp template h")
    case (Pair x h1)
    show ?thesis
    proof (cases x)
      case None
      then have "h1 = h" using Pair by (auto simp: mkstemp_def Let_def split: if_splits option.splits)
      then show ?thesis using Pair None t False by (simp add: ssm_backup_restore_def)
    next
      case (Some tmp)
      note mk = mkstempD [OF Pair [unfolded Some]]
      obtain ok d2 where r: "backup_restore cr (Some bak) (Some tmp) (Some k) (ho_disk h1) = (ok, d2)"
        by fastforce
      obtain b d1 where rd: "read_file bak (ho_disk h1) = (b, d1)" by fastforce
      note d1 = read_fileD [OF rd]
      have "open_backup cr (fst (derive_backup_keys cr k)) (snd (derive_backup_keys cr k)) block data = None"
        if "b = Some data" for data block
        using that d1 mk assms(1) by (auto simp: set_file_def split: if_splits)
      then have "\<not> ok \<and> dk_files d2 = dk_files (ho_disk h1)"
        using r rd d1 by (auto simp: backup_restore_def case_prod_beta split: if_splits option.splits)
      then show ?thesis using Pair Some t False mk r
        by (auto simp: ssm_backup_restore_def set_file_def)
    qed
  qed
qed (simp add: ssm_backup_restore_def)

lemma reopen_cipher: "ho_cipher g \<Longrightarrow> \<not> fst (reopen p g)"
  by (auto simp: reopen_def db_open_def split: option.splits)

lemma replace_fails:
  assumes "tmp \<noteq> v_path v"
  shows "(\<not> ho_rename h \<longrightarrow> (\<exists>w g. replace_database tmp v h = (SSM_ERR_INTERNAL, w, g)
        \<and> dk_files (ho_disk g) (v_path v) = None \<and> dk_files (ho_disk g) tmp = None
        \<and> (\<not> ho_cipher h \<longrightarrow> db_tabs (v_db w) = empty_tables)))
    \<and> (ho_cipher h \<longrightarrow> (\<exists>w g. replace_database tmp v h = (SSM_ERR_INTERNAL, w, g) \<and> db_null (v_db w)))"
proof -
  have "\<not> fst (reopen (v_path v) g)" if "ho_cipher g" for g by (rule reopen_cipher [OF that])
  then show ?thesis using assms
    by (auto simp: replace_database_def remove_file_def set_file_def Let_def reopen_def db_open_def
        split: prod.splits option.splits)
qed

lemma replace_cipher: "ho_cipher h \<Longrightarrow> fst (replace_database tmp v h) \<noteq> SSM_OK"
proof -
  assume c: "ho_cipher h"
  let ?h1 = "h\<lparr>ho_disk := set_file (v_path v) (Some (ho_image h (db_close (v_db v)))) (ho_disk h)\<rparr>"
  let ?h2 = "remove_file (v_path v) ?h1"
  let ?h3 = "remove_file tmp (?h2\<lparr>ho_disk := set_file (v_path v) (dk_files (ho_disk ?h2) tmp) (ho_disk ?h2)\<rparr>)"
  have "\<not> fst (reopen (v_path v) ?h3)" by (rule reopen_cipher) (simp add: c remove_file_def)
  then show ?thesis by (cases "reopen (v_path v) ?h3") (simp add: replace_database_def Let_def)
qed

lemma restore_never_with_cipher:
  assumes c: "ho_cipher h"
  shows "ssm_backup_restore cr p k v h \<noteq> Some (SSM_OK, w, g)"
proof
  assume run: "ssm_backup_restore cr p k v h = Some (SSM_OK, w, g)"
  then obtain template where t: "tmp_template (v_path v) = Some template"
    by (auto simp: ssm_backup_restore_def split: if_splits option.splits)
  obtain x h1 where mk: "mkstemp template h = (x, h1)" by fastforce
  have c1: "ho_cipher h1" using mk c by (auto simp: mkstemp_def Let_def split: if_splits option.splits)
  obtain tmp where x: "x = Some tmp"
    using run t mk by (cases x) (auto simp: ssm_backup_restore_def split: if_splits)
  obtain b d where r: "backup_restore cr p (Some tmp) k (ho_disk h1) = (b, d)" by fastforce
  have "replace_database tmp v (h1\<lparr>ho_disk := d\<rparr>) = (SSM_OK, w, g)"
    using run t mk x r by (auto simp: ssm_backup_restore_def Let_def split: if_splits)
  then show False using replace_cipher [of "h1\<lparr>ho_disk := d\<rparr>" tmp v] c1 by simp
qed

text \<open>
  C32. A restore can lose the vault. When \<open>ssm_backup_restore\<close> has found its backup authentic and a
  current database (the temporary file was made, the backup was written to it, and it opened and passed
  the check), it removes the old file first: if \<open>rename\<close> fails then, the call answers
  \<open>SSM_ERR_INTERNAL\<close>, neither the database file, which was there, nor the restored one exists any more,
  and without SQLCipher the handle is on an empty database. With SQLCipher no restore answers \<open>SSM_OK\<close>,
  and one that has accepted its backup ends without any connection, since the file is opened again
  without a key. (Under SQLCipher the check, which has no key either, turns down every encrypted file
  before that; the handle then stays as it was.)
\<close>

theorem restore_can_lose_the_vault:
  assumes "\<not> in_memory (v_path v)" and "dk_files (ho_disk h) (v_path v) \<noteq> None"
    and "tmp_template (v_path v) = Some template" and "mkstemp template h = (Some tmp, h1)"
    and "backup_restore cr (Some bak) (Some tmp) (Some k) (ho_disk h1) = (True, d)"
    and "ho_test_open h" and "valid_schema tmp (h1\<lparr>ho_disk := d\<rparr>)"
  shows "(\<not> ho_rename h \<longrightarrow> (\<exists>w g. ssm_backup_restore cr (Some bak) (Some k) v h = Some (SSM_ERR_INTERNAL, w, g)
        \<and> dk_files (ho_disk g) (v_path v) = None \<and> dk_files (ho_disk g) tmp = None
        \<and> (\<not> ho_cipher h \<longrightarrow> db_tabs (v_db w) = empty_tables)))
    \<and> (ho_cipher h \<longrightarrow> (\<exists>w g. ssm_backup_restore cr (Some bak) (Some k) v h = Some (SSM_ERR_INTERNAL, w, g)
          \<and> db_null (v_db w)))
    \<and> (ho_cipher h \<longrightarrow> (\<forall>path key w g. ssm_backup_restore cr path key v h \<noteq> Some (SSM_OK, w, g)))"
proof -
  note mk = mkstempD [OF assms(4)]
  have ne: "tmp \<noteq> v_path v" using mk assms(2) by auto
  let ?e = "h1\<lparr>ho_disk := d\<rparr>"
  have "ssm_backup_restore cr (Some bak) (Some k) v h = Some (replace_database tmp v ?e)"
    using assms by (simp add: ssm_backup_restore_def)
  moreover have "ho_rename ?e = ho_rename h" "ho_cipher ?e = ho_cipher h" using mk by simp_all
  ultimately show ?thesis using replace_fails [OF ne, of ?e] restore_never_with_cipher by auto
qed

end
