(* ===== verification/Sample_Claims.thy ===== *)
theory Sample_Claims
  imports Sample_Run Vault_Users Vault_Audit Cache_Transparency Hex_Utils Export Backup
begin

section \<open>The theorems about calls, applied to the sample handle\<close>

text \<open>
  Each lemma runs one of the calls on the handle of \<open>Sample_Run\<close> and reads off what a theorem of the
  other theories says about that run.
\<close>

lemmas text_evaluate = evaluate bytes_of_string_def of_char_Char

lemma log_audit_healthy [simp]:
  "healthy (v_db v) \<Longrightarrow> healthy (v_db (log_audit u i op st tgt det v))"
  by (auto simp: log_audit_def audit_write_def audit_log_write_def insert_audit_def sql_write_def sql_call_def
      healthy_def split: option.splits)

lemma healthy_literal [simp]:
  "healthy \<lparr>db_null = False, db_readonly = False, db_tabs = t, db_snap = None, db_fk = True, fl_stmt = [],
     fl_row = [], fl_begin = [], fl_commit = []\<rparr> \<longleftrightarrow> t_exists t"
  by (simp add: healthy_def)

text \<open>A run is some answer: these name it.\<close>

lemma some_pair: "\<exists>a b. x = (a, b)"
  by (rule surj_pair)

theorem get_answers_by_the_tables_witness:
  "\<exists>v'. ssm_secret_get sample (Some ''ann'') (Some ''k'') sample_out sample_vault
    = (fst (spec_get sample 1000 sample_tables ''ann'' ''k'' sample_out),
       snd (spec_get sample 1000 sample_tables ''ann'' ''k'' sample_out), v')"
proof -
  obtain st g' v' where run:
    "ssm_secret_get sample (Some ''ann'') (Some ''k'') sample_out sample_vault = (st, g', v')"
    by (metis prod_cases3)
  have "go_private sample_out = Some [0, 0, 0, 0]" "go_private_len sample_out = Some 4"
    by (simp_all add: sample_out_def)
  from get_answers_by_the_tables [OF _ sample_ok sample_lawful _ this run] show ?thesis
    using run by (metis fst_conv snd_conv sample_db_simps(1) sample_db_simps(7) sample_vault_simps(1,3-5))
qed

lemma store_sample:
  "\<exists>v1. ssm_secret_store sample (Some ''ann'') (Some [7, 8]) None 0 (Some ''j'') None sample_vault = (SSM_OK, v1)
    \<and> healthy (v_db v1) \<and> m_alloc (v_mach v1) = []"
  by (simp add: evaluate ssm_secret_store_def)

theorem store_then_get_witness:
  "\<exists>v1 g' v2. ssm_secret_store sample (Some ''ann'') (Some [7, 8]) None 0 (Some ''j'') None sample_vault
      = (SSM_OK, v1)
    \<and> ssm_secret_get sample (Some ''ann'') (Some ''j'') sample_out v1 = (SSM_OK, g', v2)
    \<and> go_private g' = Some [7, 8, 0, 0] \<and> go_private_len g' = Some 2"
proof -
  obtain v1 where store:
    "ssm_secret_store sample (Some ''ann'') (Some [7, 8]) None 0 (Some ''j'') None sample_vault = (SSM_OK, v1)"
    and h: "healthy (v_db v1)" "m_alloc (v_mach v1) = []"
    using store_sample by blast
  obtain st g' v2 where get: "ssm_secret_get sample (Some ''ann'') (Some ''j'') sample_out v1 = (st, g', v2)"
    by (metis prod_cases3)
  from store_then_get [OF store sample_ok sample_lawful _ h _ _ _ _ get, where buf = "[0, 0, 0, 0]" and cap = 4]
  show ?thesis using store get by (simp add: sample_out_def copy_to_def)
qed

theorem authenticate_decides_witness:
  "\<exists>v'. ssm_user_authenticate sample (Some ''ann'') (Some ''pw'') (Some 0) sample_vault = (SSM_OK, Some 1, v')"
proof -
  obtain st i v' where run:
    "ssm_user_authenticate sample (Some ''ann'') (Some ''pw'') (Some 0) sample_vault = (st, i, v')"
    by (metis prod_cases3)
  have n: "is_valid_username (Some ''ann'')" by (simp add: evaluate)
  have "\<exists>r. find_user ''ann'' sample_tables = Some r
      \<and> argon2id_verify sample (bytes_of_string ''pw'') (u_password_hash r)"
    by (simp add: text_evaluate)
  with authenticate_decides [OF _ n run] show ?thesis using run by auto
qed

theorem register_creates_once_witness:
  "\<exists>v'. ssm_user_register sample sample_vd (Some ''bob'') (Some ''pw2'') sample_vault = (SSM_OK, v')
    \<and> registered sample 1000 ''bob'' ''pw2'' (db_tabs (v_db v'))"
proof -
  have "fst (ssm_user_register sample sample_vd (Some ''bob'') (Some ''pw2'') sample_vault) = SSM_OK"
    by (simp add: evaluate ssm_user_register_def register_new_def)
  then obtain v' where run:
    "ssm_user_register sample sample_vd (Some ''bob'') (Some ''pw2'') sample_vault = (SSM_OK, v')"
    by (metis prod.collapse)
  have "find_user ''bob'' sample_tables = None" "is_valid_username (Some ''bob'')" "sample_vd ''pw2'' = SSM_OK"
    by (simp_all add: evaluate)
  with register_creates_once [OF run _ sample_ok sample_lawful] show ?thesis using run by simp
qed

theorem change_password_failure_witness:
  "\<exists>v'. ssm_user_change_password sample sample_vd (Some ''ann'') (Some ''no'') (Some ''new'') sample_vault
      = (SSM_ERR_AUTH, v')
    \<and> contents sample (db_tabs (v_db v')) = contents sample sample_tables"
proof -
  have "fst (ssm_user_change_password sample sample_vd (Some ''ann'') (Some ''no'') (Some ''new'') sample_vault)
      = SSM_ERR_AUTH"
    by (simp add: text_evaluate ssm_user_change_password_def)
  then obtain v' where run:
    "ssm_user_change_password sample sample_vd (Some ''ann'') (Some ''no'') (Some ''new'') sample_vault
      = (SSM_ERR_AUTH, v')"
    by (metis prod.collapse)
  from change_password_failure [OF run _ sample_ok sample_lawful] show ?thesis using run by simp
qed

theorem change_password_takes_effect_witness:
  "\<exists>v'. ssm_user_change_password sample sample_vd (Some ''ann'') (Some ''pw'') (Some ''new'') sample_vault
      = (SSM_OK, v')
    \<and> (\<exists>w. ssm_user_authenticate sample (Some ''ann'') (Some ''new'') (Some 0) v' = (SSM_OK, Some 1, w))"
proof -
  obtain v' where run:
    "ssm_user_change_password sample sample_vd (Some ''ann'') (Some ''pw'') (Some ''new'') sample_vault
      = (SSM_OK, v')" and h: "healthy (v_db v')"
    by (simp add: text_evaluate ssm_user_change_password_def change_password_in_transaction_def
        change_password_body_def)
  from change_password_takes_effect [OF run sample_ok sample_lawful h] show ?thesis using run by blast
qed

text \<open>The handle three months later.\<close>

definition late_vault :: vault where
  "late_vault = sample_vault\<lparr>v_mach := sample_machine\<lparr>m_now := 7777000\<rparr>\<rparr>"

lemma late_expired: "kek_is_expired 7777000 (Some ''1970-04-01T00:16:40Z'')"
  by code_simp

theorem expired_kek_locks_secrets_witness:
  "\<exists>w. ssm_secret_get sample (Some ''ann'') (Some ''k'') sample_out late_vault = (SSM_ERR_EXPIRED, sample_out, w)"
proof -
  have h: "healthy (v_db late_vault)" by (simp add: late_vault_def)
  have r: "find_user ''ann'' (db_tabs (v_db late_vault)) = Some sample_user"
    and k: "find_kek (u_id sample_user) (db_tabs (v_db late_vault)) = Some sample_kek"
    by (simp_all add: late_vault_def evaluate)
  have e: "kek_is_expired (m_now (v_mach late_vault)) (Some (k_expires_at sample_kek))"
    using late_expired by (simp add: late_vault_def sample_kek_def)
  have g: "go_private sample_out = Some [0, 0, 0, 0]" "go_private_len sample_out = Some 4" "[1 :: byte] \<noteq> []"
    by (simp_all add: sample_out_def)
  from expired_kek_locks_secrets [OF h r k e g] show ?thesis by blast
qed

subsection \<open>The theorems about the components\<close>

theorem kek_lives_exactly_its_days_witness:
  "kek_is_expired 7777000 (Some ''1970-04-01T00:16:40Z'')
    \<and> \<not> kek_is_expired 7776999 (Some ''1970-04-01T00:16:40Z'')"
  using kek_lives_exactly_its_days [OF sample_times(3), of 7777000]
    kek_lives_exactly_its_days [OF sample_times(3), of 7776999] by (simp add: time_limit_def)

theorem time_stamps_sort_by_time_witness:
  "iso_time 1000 < iso_time 7777000 \<and> parse_iso (iso_time 1000) = Some 1000"
  using time_stamps_sort_by_time [of 1000 7777000] by (simp add: time_limit_def)

theorem audit_query_pages_witness:
  "\<exists>a b. fst (audit_log_query sample_db None None None 1 0) = Some a
    \<and> fst (audit_log_query sample_db None None None 1 1) = Some b
    \<and> fst (audit_log_query sample_db None None None 2 0) = Some (a @ b)"
proof -
  have "audit_ok (db_tabs sample_db)" using sample_wf by (simp add: wf_tables_def)
  from audit_query_pages [OF _ this, of 1 0 None None None] show ?thesis by auto
qed

theorem audit_prune_exact_witness:
  "\<exists>db'. audit_log_prune 7777001 sample_db 90 = (True, db') \<and> t_audit (db_tabs db') = []"
proof -
  obtain ok db' where run: "audit_log_prune 7777001 sample_db 90 = (ok, db')" using some_pair by metis
  have ok: ok using run by (auto simp: audit_log_prune_def evaluate)
  have "\<forall>r \<in> set (t_audit (db_tabs sample_db)). a_timestamp r = iso_time ((\<lambda>_. 1000) r) \<and> (\<lambda>_. 1000) r < time_limit"
    by (simp add: evaluate time_limit_def)
  from audit_prune_exact [OF run this] show ?thesis using run ok by (simp add: evaluate time_limit_def)
qed

theorem wrappers_round_trip_witness:
  "\<exists>c t. aes_gcm_encrypt sample (Some [1, 2]) (length [1 :: byte, 2]) (Some (replicate 32 9)) (Some [5]) None
        (Some [0, 0]) AES_GCM_TAG_LEN = Some (c, t)
    \<and> aes_gcm_decrypt sample (Some c) (length c) (Some (replicate 32 9)) (Some [5]) None (Some t) (Some [0, 0])
       = Some [1, 2]"
proof -
  have "\<exists>c t. aes_gcm_encrypt sample (Some [1, 2]) (length [1 :: byte, 2]) (Some (replicate 32 9)) (Some [5]) None
      (Some [0, 0]) AES_GCM_TAG_LEN = Some (c, t)"
    by (simp add: evaluate)
  then obtain c t where enc: "aes_gcm_encrypt sample (Some [1, 2]) (length [1 :: byte, 2]) (Some (replicate 32 9))
      (Some [5]) None (Some [0, 0]) AES_GCM_TAG_LEN = Some (c, t)"
    by blast
  have "\<exists>w. aes_kw_wrap sample (Some (replicate 8 4)) (Some (replicate 32 9)) = Some w"
    by (simp add: evaluate)
  then obtain w where wrap: "aes_kw_wrap sample (Some (replicate 8 4)) (Some (replicate 32 9)) = Some w"
    by blast
  from wrappers_round_trip [OF sample_lawful _ _ _ enc wrap, of "[0, 0]"] show ?thesis
    using enc by auto
qed

theorem gcm_length_wraps_witness:
  "aes_gcm_encrypt sample (Some (replicate (2 ^ 32 + 3) 7)) (2 ^ 31 + 3) (Some []) (Some []) None
     (Some (replicate (2 ^ 32 + 3) 0)) AES_GCM_TAG_LEN = None"
proof -
  have "c_int 4294967299 = 3" using c_int_wraps [of 3] c_int_exact [of 3] by simp
  then have "\<exists>c t. aes_gcm_encrypt sample (Some (replicate (2 ^ 32 + 3) 7)) (length (replicate (2 ^ 32 + 3) (7 :: byte)))
      (Some []) (Some []) None (Some (replicate (2 ^ 32 + 3) 0)) AES_GCM_TAG_LEN = Some (c, t)"
    by (simp add: aes_gcm_encrypt_def AES_GCM_TAG_LEN_def sample_def)
  then obtain c t where enc: "aes_gcm_encrypt sample (Some (replicate (2 ^ 32 + 3) 7))
      (length (replicate (2 ^ 32 + 3) (7 :: byte))) (Some []) (Some []) None (Some (replicate (2 ^ 32 + 3) 0))
      AES_GCM_TAG_LEN = Some (c, t)"
    by blast
  from gcm_length_wraps [OF sample_lawful _ _ enc, of 3] show ?thesis by simp
qed

theorem vec_resize_keeps_elements_witness:
  "\<exists>v' m'. vec_resize 1 3 (Some [4, 5 :: byte]) sample_machine = Some (v', m') \<and> vec_size v' = 3 \<and> the v' ! 1 = 5"
  using vec_resize_keeps_elements [of 3 1 "Some [4, 5 :: byte]" sample_machine]
  by (auto simp: SIZE_MAX_def vec_size_def)

definition full_cache :: cache where
  "full_cache = new_cache\<lparr>c_slots := map (\<lambda>i. \<lparr>ce_user_id = int i, ce_key = replicate 32 1, ce_last_used = i,
     ce_valid = True\<rparr>) [0..<SSM_CACHE_MAX]\<rparr>"

theorem insert_evicts_least_recently_used_witness:
  "\<exists>i < SSM_CACHE_MAX. c_slots (cache_insert 300 999 (replicate 32 2) full_cache) ! i
      = \<lparr>ce_user_id = 999, ce_key = replicate 32 2, ce_last_used = 300, ce_valid = True\<rparr>"
proof -
  have "cache_ok full_cache"
    by (auto simp: cache_ok_def full_cache_def clean_slot_def KEK_KEY_LEN_def comp_def distinct_map inj_on_def)
  moreover have "list_all ce_valid (c_slots full_cache)" "\<forall>e \<in> set (c_slots full_cache). ce_last_used e \<le> 300"
    by (auto simp: full_cache_def list_all_iff SSM_CACHE_MAX_def)
  ultimately show ?thesis
    using insert_evicts_least_recently_used [of full_cache 300 999 "replicate 32 2"]
    by (auto simp: KEK_KEY_LEN_def)
qed

theorem cache_stats_count_witness:
  "valid_entries (cache_stats new_cache) \<le> total_entries (cache_stats new_cache)"
  using cache_stats_count [of new_cache] new_cache_ok by simp

theorem destroy_wipes_keys_witness:
  "\<exists>t c. ssm_destroy (Some sample_vault) = (SSM_OK, Some (t, c))
    \<and> (\<forall>e \<in> set (c_slots c). ce_key e = replicate KEK_KEY_LEN 0)"
  using destroy_wipes_keys [OF sample_ok] by blast

theorem hex_round_trip_witness:
  "hex_decode (hex_encode [0xDE, 0x0F]) [0, 0] 9 2 = (True, [0xDE, 0x0F], 2)"
  using hex_round_trip [of "[0xDE, 0x0F]" 2 "[0, 0]" 9] by simp

theorem hex_decode_accepts_witness:
  "\<not> fst (hex_decode ''0'' [0, 0] 9 2)"
proof -
  obtain ok out l where run: "hex_decode ''0'' [0, 0] 9 2 = (ok, out, l)" by (metis prod_cases3)
  from hex_decode_accepts [OF _ run] show ?thesis using run by simp
qed

theorem csv_values_read_back_witness:
  "csv_field (csv_escape ''a\"b,c'' @ CHR '','' # ''rest'') = Some (''a\"b,c'', CHR '','' # ''rest'')"
  by (rule csv_values_read_back) (simp add: csv_separator_def)

theorem export_reveals_only_metadata_witness:
  "fst (snd (export_metadata (sample_db\<lparr>db_tabs := sample_tables\<lparr>t_users :=
       [sample_user\<lparr>u_password_hash := [], u_username := ''zoe''\<rparr>]\<rparr>\<rparr>) SSM_EXPORT_JSON True True))
    = fst (snd (export_metadata sample_db SSM_EXPORT_JSON True True))"
  by (rule export_reveals_only_metadata) (simp_all add: same_metadata_def sample_tables_def shown_user_def)

subsection \<open>Backups\<close>

text \<open>A disk that starts empty, and a SQLite whose file for the sample tables is three bytes.\<close>

definition sample_host :: host where
  "sample_host = \<lparr>ho_disk = \<lparr>dk_files = (\<lambda>_. None), dk_io = [], dk_junk = (\<lambda>_. 7)\<rparr>,
     ho_image = (\<lambda>_. [1, 2, 3]), ho_load = (\<lambda>b. if b = [1, 2, 3] then Some sample_tables else None),
     ho_cipher = False, ho_checkpoint = True, ho_suffix = Some ''abcdef'', ho_test_open = True,
     ho_test = sample_db, ho_conn = sample_db, ho_rename = True\<rparr>"

definition sample_key :: bytes where
  "sample_key = replicate 32 5"

lemma sample_paths:
  "\<not> has_path_traversal (Some ''b'')" "\<not> has_path_traversal (Some ''.v.db.abcdef'')"
  "tmp_template ''v.db'' = Some ''.v.db.XXXXXX''" "\<not> in_memory ''v.db''"
  by code_simp+

lemma backup_sample:
  "\<exists>v' h'. ssm_backup_create sample (Some ''b'') (Some sample_key) sample_vault sample_host = (SSM_OK, v', h')
    \<and> h' = sample_host\<lparr>ho_disk := ho_disk h'\<rparr> \<and> dk_io (ho_disk h') = []
    \<and> dk_files (ho_disk h') ''.v.db.abcdef'' = None"
  by (simp add: ssm_backup_create_def wal_checkpoint_def backup_create_def sample_paths sample_host_def
      sample_vault_def sample_key_def set_file_def derive_backup_keys_def aes_gcm_encrypt_def sample_def
      random_bytes_def c_int_exact BACKUP_TAG_LEN_def Let_def)

theorem backup_brings_vault_back_witness:
  "\<exists>v' h' w' e'. ssm_backup_create sample (Some ''b'') (Some sample_key) sample_vault sample_host = (SSM_OK, v', h')
    \<and> ssm_backup_restore sample (Some ''b'') (Some sample_key) (sample_vault\<lparr>v_db := old_db\<rparr>) h' = Some (SSM_OK, w', e')
    \<and> db_tabs (v_db w') = sample_tables"
proof -
  obtain v' h' where run:
    "ssm_backup_create sample (Some ''b'') (Some sample_key) sample_vault sample_host = (SSM_OK, v', h')"
    and h: "h' = sample_host\<lparr>ho_disk := ho_disk h'\<rparr>" and d: "dk_io (ho_disk h') = []"
      "dk_files (ho_disk h') ''.v.db.abcdef'' = None"
    using backup_sample by blast
  have f: "ho_load h' = ho_load sample_host" "ho_suffix h' = Some ''abcdef''" "\<not> ho_cipher h'" "ho_rename h'"
    "ho_test_open h'" "quiet (ho_test h')" "quiet (ho_conn h')"
    by (subst h, simp add: sample_host_def quiet_def sample_db_def)+
  have m: "mkstemp ''.v.db.XXXXXX'' h' = (Some ''.v.db.abcdef'',
      h'\<lparr>ho_disk := set_file ''.v.db.abcdef'' (Some []) (ho_disk h')\<rparr>)"
    using f d by (simp add: mkstemp_def numeral_eq_Suc)
  have i: "ho_image sample_host t = [1, 2, 3]" "dk_io (ho_disk sample_host) = []" "ho_checkpoint sample_host"
    "ho_load sample_host [1, 2, 3] = Some sample_tables" for t
    by (simp_all add: sample_host_def)
  have p: "v_path sample_vault = ''v.db''" "current sample_tables"
    by (simp_all add: sample_vault_def current_def sample_tables_def SSM_SCHEMA_VERSION_def)
  from backup_brings_vault_back [OF sample_lawful i(2) d(1) run i(3), where w = "sample_vault\<lparr>v_db := old_db\<rparr>"
      and template = "''.v.db.XXXXXX''" and tmp = "''.v.db.abcdef''"]
  show ?thesis using run f i p m sample_paths by auto
qed

lemma restorable_sample:
  "\<exists>h. mkstemp ''.v.db.XXXXXX'' h = (Some ''.v.db.abcdef'', h\<lparr>ho_disk := set_file ''.v.db.abcdef'' (Some []) (ho_disk h)\<rparr>)
    \<and> (\<exists>d. backup_restore sample (Some ''b'') (Some ''.v.db.abcdef'') (Some sample_key)
          (set_file ''.v.db.abcdef'' (Some []) (ho_disk h)) = (True, d)
        \<and> valid_schema ''.v.db.abcdef'' (h\<lparr>ho_disk := d\<rparr>))
    \<and> dk_files (ho_disk h) ''v.db'' \<noteq> None \<and> ho_test_open h \<and> \<not> ho_rename h \<and> \<not> ho_cipher h"
proof -
  let ?d = "set_file ''v.db'' (Some [1, 2, 3]) (ho_disk sample_host)" and ?tmp = "''.v.db.abcdef''"
  have s: "ho_disk sample_host = \<lparr>dk_files = (\<lambda>_. None), dk_io = [], dk_junk = (\<lambda>_. 7)\<rparr>" by (simp add: sample_host_def)
  obtain m d where c: "backup_create sample (Some ''v.db'') (Some ''b'') (Some sample_key) sample_machine ?d = (True, m, d)"
    and d: "dk_io d = []" "dk_files d ?tmp = None" "dk_files d ''v.db'' = Some [1, 2, 3]"
    by (simp add: backup_create_def sample_paths s sample_key_def set_file_def derive_backup_keys_def
      aes_gcm_encrypt_def sample_def random_bytes_def c_int_exact BACKUP_TAG_LEN_def Let_def)
  let ?h = "sample_host\<lparr>ho_disk := d, ho_rename := False\<rparr>" and ?e = "set_file ?tmp (Some []) d"
  have io: "dk_io ?d = []" "dk_files ?d ''v.db'' = Some [1, 2, 3]" by (simp_all add: set_file_def s)
  have "dk_files ?e ''b'' = dk_files d ''b''" "dk_io ?e = []" using d by (simp_all add: set_file_def)
  from backup_round_trip [OF sample_lawful io(1) this(2) c this(1) _ sample_paths(2)] io
  have r: "backup_restore sample (Some ''b'') (Some ?tmp) (Some sample_key) ?e = (True, set_file ?tmp (Some [1, 2, 3]) ?e)"
    by simp
  have "valid_schema ?tmp (?h\<lparr>ho_disk := set_file ?tmp (Some [1, 2, 3]) ?e\<rparr>)"
    by (rule valid_schema_current [where b = "[1, 2, 3]" and t = sample_tables])
      (simp_all add: set_file_def sample_host_def quiet_def current_def sample_tables_def SSM_SCHEMA_VERSION_def sample_db_def)
  moreover have "mkstemp ''.v.db.XXXXXX'' ?h = (Some ?tmp, ?h\<lparr>ho_disk := ?e\<rparr>)"
    using d by (simp add: mkstemp_def sample_host_def numeral_eq_Suc)
  ultimately show ?thesis using r d by (intro exI [of _ ?h]) (auto simp: sample_host_def)
qed

theorem restore_can_lose_the_vault_witness:
  "\<exists>h w g. dk_files (ho_disk h) ''v.db'' \<noteq> None
    \<and> ssm_backup_restore sample (Some ''b'') (Some sample_key) sample_vault h = Some (SSM_ERR_INTERNAL, w, g)
    \<and> dk_files (ho_disk g) ''v.db'' = None"
proof -
  have p: "v_path sample_vault = ''v.db''" by (simp add: sample_vault_def)
  obtain h d where h: "mkstemp ''.v.db.XXXXXX'' h
      = (Some ''.v.db.abcdef'', h\<lparr>ho_disk := set_file ''.v.db.abcdef'' (Some []) (ho_disk h)\<rparr>)"
    "backup_restore sample (Some ''b'') (Some ''.v.db.abcdef'') (Some sample_key)
          (set_file ''.v.db.abcdef'' (Some []) (ho_disk h)) = (True, d)"
    "valid_schema ''.v.db.abcdef'' (h\<lparr>ho_disk := d\<rparr>)"
    "dk_files (ho_disk h) ''v.db'' \<noteq> None" "ho_test_open h" "\<not> ho_rename h"
    using restorable_sample by blast
  from restore_can_lose_the_vault [OF _ _ _ h(1), where v = sample_vault and cr = sample and bak = "''b''"
      and k = sample_key and d = d] h p sample_paths
  show ?thesis by auto
qed

text \<open>A file that is too short to be a backup.\<close>

theorem rejected_backup_changes_nothing_witness:
  "\<exists>h'. ssm_backup_restore sample (Some ''b'') (Some sample_key) sample_vault sample_host
     = Some (SSM_ERR_INTERNAL, sample_vault, h')"
  using rejected_backup_changes_nothing [of sample_host "''b''" sample sample_key sample_vault]
  by (auto simp: sample_host_def sample_vault_def sample_paths)

text \<open>One file is backed up, another restored from the backup.\<close>

definition sample_disk :: disk where
  "sample_disk = \<lparr>dk_files = [''a'' \<mapsto> [4, 5, 6]], dk_io = [], dk_junk = (\<lambda>_. 7)\<rparr>"

lemma create_sample:
  "\<exists>m' d'. backup_create sample (Some ''a'') (Some ''b'') (Some sample_key) sample_machine sample_disk = (True, m', d')
    \<and> dk_io d' = [] \<and> (\<forall>b. dk_files d' ''b'' = Some b \<longrightarrow> length b < 2 ^ 31)"
  by (simp add: backup_create_def sample_paths sample_disk_def sample_key_def set_file_def derive_backup_keys_def
      aes_gcm_encrypt_def sample_def random_bytes_def c_int_exact BACKUP_TAG_LEN_def header_bytes_def
      BACKUP_NONCE_LEN_def EXPECTED_MAGIC_def backup_mac_def Let_def)

theorem backup_round_trip_witness:
  "\<exists>m' d' d''. backup_create sample (Some ''a'') (Some ''b'') (Some sample_key) sample_machine sample_disk = (True, m', d')
    \<and> backup_restore sample (Some ''b'') (Some ''.v.db.abcdef'') (Some sample_key) d' = (True, d'')
    \<and> dk_files d'' ''.v.db.abcdef'' = Some [4, 5, 6]"
proof -
  obtain m' d' where c:
    "backup_create sample (Some ''a'') (Some ''b'') (Some sample_key) sample_machine sample_disk = (True, m', d')"
    and d: "dk_io d' = []" using create_sample by blast
  have io: "dk_io sample_disk = []" "dk_files sample_disk ''a'' = Some [4, 5, 6]" by (simp_all add: sample_disk_def)
  from backup_round_trip [OF sample_lawful io(1) d c refl _ sample_paths(2)] show ?thesis
    using io c by (simp add: set_file_def)
qed

theorem restore_writes_only_authentic_witness:
  "\<exists>m' d' hdr ct tag.
      backup_create sample (Some ''a'') (Some ''b'') (Some sample_key) sample_machine sample_disk = (True, m', d')
    \<and> dk_files d' ''b'' = Some (hdr @ ct @ tag @ backup_mac sample (snd (derive_backup_keys sample sample_key)) hdr ct tag)
    \<and> bh_version (load_header hdr) = BACKUP_VERSION"
proof -
  obtain m' d' where c:
    "backup_create sample (Some ''a'') (Some ''b'') (Some sample_key) sample_machine sample_disk = (True, m', d')"
    and d: "dk_io d' = []" and l: "\<forall>b. dk_files d' ''b'' = Some b \<longrightarrow> length b < 2 ^ 31"
    using create_sample by blast
  obtain ok e where r: "backup_restore sample (Some ''b'') (Some ''.v.db.abcdef'') (Some sample_key) d' = (ok, e)"
    by fastforce
  have "dk_io sample_disk = []" "\<forall>b. dk_files sample_disk ''a'' = Some b \<longrightarrow> length b < 2 ^ 31"
    by (simp_all add: sample_disk_def)
  from created_opens [OF sample_lawful this(1) c this(2)] have ok
    using r d by (auto simp: backup_restore_def sample_paths sample_key_def case_prod_beta)
  then have "ok \<or> dk_files e \<noteq> dk_files d'" by simp
  from restore_writes_only_authentic [OF sample_lawful r this l] c show ?thesis by blast
qed

end
