(* ===== verification/C_Text.thy ===== *)
theory C_Text
  imports Prelude
begin

section \<open>C strings and numbers as the tools use them\<close>

text \<open>What the command-line programs use of the C library: the end of a string at its first NUL,
  \<open>strtol\<close> and \<open>atoi\<close>, reading a line, and the padding of \<open>printf\<close>.\<close>

definition c_str :: "string \<Rightarrow> string" where
  "c_str s = takeWhile (\<lambda>c. c \<noteq> char_of (0 :: nat)) s"

definition quoted :: "string \<Rightarrow> string" where
  "quoted w = [CHR 0x27] @ w @ [CHR 0x27]"

definition end_of_line :: char where
  "end_of_line = CHR 0x0A"

text \<open>\<open>strtol(s, &end, 10)\<close>: the value, held to the range of a \<open>long\<close>, and whether \<open>end\<close> moved.\<close>

definition is_space :: "char \<Rightarrow> bool" where
  "is_space c \<longleftrightarrow> c = CHR '' '' \<or> 9 \<le> char_code c \<and> char_code c \<le> 13"

definition strtol :: "string \<Rightarrow> int \<times> bool" where
  "strtol s =
     (let t = dropWhile is_space s;
          neg = (take 1 t = ''-'');
          t1 = (if neg \<or> take 1 t = ''+'' then tl t else t);
          digits = takeWhile is_digit t1;
          n = int (decimal_value digits)
      in (if digits = [] then 0 else if neg then max (- n) (- (2 ^ 63)) else min n (2 ^ 63 - 1),
          digits \<noteq> []))"

definition atoi :: "string \<Rightarrow> int" where
  "atoi s = sint (word_of_int (fst (strtol s)) :: 32 word)"

text \<open>\<open>fgets(buf, n, stdin)\<close>: at most \<open>n - 1\<close> characters up to and with the first newline; \<open>None\<close> at the
  end of the input.\<close>

fun line_of :: "nat \<Rightarrow> string \<Rightarrow> string \<times> string" where
  "line_of 0 s = ([], s)"
| "line_of (Suc n) [] = ([], [])"
| "line_of (Suc n) (c # s) =
     (if c = end_of_line then ([c], s) else (let (l, r) = line_of n s in (c # l, r)))"

definition fgets :: "nat \<Rightarrow> string \<Rightarrow> string option \<times> string" where
  "fgets n input = (if input = [] then (None, []) else (let (l, r) = line_of (n - 1) input in (Some l, r)))"

text \<open>\<open>%-<w>s\<close>.\<close>

definition pad_right :: "nat \<Rightarrow> string \<Rightarrow> string" where
  "pad_right w s = s @ replicate (w - length s) (CHR '' '')"

text \<open>The number a non-negative decimal text stands for is read back, as far as a \<open>long\<close> goes.\<close>

lemma strtol_decimal:
  assumes "n < 2 ^ 63"
  shows "strtol (decimal n) = (int n, True)"
proof -
  obtain c s where d: "decimal n = c # s" by (meson decimal_not_Nil neq_Nil_conv)
  have c: "is_digit c" using decimal_digits [of c n] d by simp
  have "takeWhile is_digit (decimal n) = decimal n" using decimal_digits by (simp add: takeWhile_eq_all_conv)
  moreover have "\<not> is_space c" "c \<noteq> CHR ''-''" "c \<noteq> CHR ''+''"
    using c by (auto simp: is_digit_def is_space_def)
  moreover have "decimal_value (c # s) = n" using decimal_value_decimal [of n] d by simp
  ultimately show ?thesis using assms d by (simp add: strtol_def Let_def min_def)
qed

end
