(* ===== verification/Rest_Server.thy ===== *)
theory Rest_Server
  imports Vault_Behaviour Backup Export Hex_Utils C_Text
begin

section \<open>The REST server (\<open>cli/ssm_server.cc\<close>)\<close>

text \<open>
  libevent hands a request over and sends the reply, JsonCpp reads and writes JSON; neither is part of the
  repository. A request is what the handlers ask libevent for: the method, the URI, the headers by name,
  the body, and whether \<open>evbuffer_new\<close> gives memory for the reply. A JSON value has the kinds
  \<open>Json::Value\<close> distinguishes, with its two kinds of integers as one and a real number as the bits of the
  double; what JsonCpp does with one is a record of functions, where \<open>None\<close> is an exception. The reader
  too raises one, when a body is nested deeper than its \<open>stackLimit\<close>. Nothing catches an exception: the
  process ends, which is the answer \<open>Terminated\<close>.
\<close>

datatype http_method = Http_Get | Http_Post | Http_Put | Http_Delete | Http_Other

record request =
  rq_method :: http_method
  rq_uri :: string
  rq_header :: "string \<Rightarrow> string option"
  rq_body :: string
  rq_buffer :: bool

datatype json =
    JNull
  | JBool bool
  | JInt int
  | JReal "64 word"
  | JStr string
  | JArr "json list"
  | JObj "(string \<times> json) list"

datatype parse_result = Parsed json | Malformed | Parser_Throws

record json_lib =
  js_parse :: "string \<Rightarrow> parse_result"
  js_is_member :: "json \<Rightarrow> string \<Rightarrow> bool option"
  js_at :: "json \<Rightarrow> string \<Rightarrow> json option"
  js_get :: "json \<Rightarrow> string \<Rightarrow> json \<Rightarrow> json option"
  js_as_string :: "json \<Rightarrow> string option"
  js_as_cstring :: "json \<Rightarrow> string option"

datatype response =
    Reply nat json
  | Reply_Text nat string string
  | Send_Error nat string
  | Terminated

text \<open>The globals \<open>g_h\<close> and \<open>g_api_key\<close>, and the machine around the handle.\<close>

record server =
  sv_vault :: vault
  sv_host :: host
  sv_api_key :: string

definition HTTP_OK :: nat where "HTTP_OK = 200"
definition HTTP_CREATED :: nat where "HTTP_CREATED = 201"
definition HTTP_BADREQUEST :: nat where "HTTP_BADREQUEST = 400"
definition HTTP_UNAUTHORIZED :: nat where "HTTP_UNAUTHORIZED = 401"
definition HTTP_NOTFOUND :: nat where "HTTP_NOTFOUND = 404"
definition HTTP_BADMETHOD :: nat where "HTTP_BADMETHOD = 405"
definition HTTP_INTERNAL :: nat where "HTTP_INTERNAL = 500"

subsection \<open>Replies and bodies\<close>

definition reply_json :: "request \<Rightarrow> nat \<Rightarrow> json \<Rightarrow> response" where
  "reply_json req code v =
     (if rq_buffer req then Reply code v else Send_Error HTTP_INTERNAL ''out of memory'')"

definition reply_ok :: "request \<Rightarrow> json \<Rightarrow> response" where
  "reply_ok req v = reply_json req HTTP_OK v"

definition reply_created :: "request \<Rightarrow> json \<Rightarrow> response" where
  "reply_created req v = reply_json req HTTP_CREATED v"

definition reply_error :: "request \<Rightarrow> nat \<Rightarrow> string \<Rightarrow> response" where
  "reply_error req code msg = reply_json req code (JObj [(''error'', JStr msg)])"

definition reply_status :: "request \<Rightarrow> nat \<Rightarrow> string \<Rightarrow> ssm_status \<Rightarrow> response" where
  "reply_status req code what st =
     reply_json req code (JObj [(''error'', JStr (status_name st)), (''operation'', JStr what)])"

definition status_ok :: json where
  "status_ok = JObj [(''status'', JStr ''OK'')]"

definition parse_body :: "json_lib \<Rightarrow> request \<Rightarrow> (bool \<times> json) option" where
  "parse_body js req =
     (if length (rq_body req) = 0 then Some (True, JNull)
      else (case js_parse js (rq_body req) of
              Parser_Throws \<Rightarrow> None
            | Malformed \<Rightarrow> Some (False, JNull)
            | Parsed v \<Rightarrow> Some (True, v)))"

text \<open>The chain of \<open>!body.isMember(...)\<close> tests, left to right.\<close>

fun has_members :: "json_lib \<Rightarrow> json \<Rightarrow> string list \<Rightarrow> bool option" where
  "has_members js body [] = Some True"
| "has_members js body (k # ks) =
     (case js_is_member js body k of
        None \<Rightarrow> None
      | Some False \<Rightarrow> Some False
      | Some True \<Rightarrow> has_members js body ks)"

text \<open>The first test of a handler with a body; \<open>rest\<close> is what follows it.\<close>

definition with_body ::
  "json_lib \<Rightarrow> request \<Rightarrow> string list \<Rightarrow> string \<Rightarrow> server \<Rightarrow> (json \<Rightarrow> response \<times> server) \<Rightarrow> response \<times> server" where
  "with_body js req ks msg sv rest =
     (case parse_body js req of
        None \<Rightarrow> (Terminated, sv)
      | Some (ok, body) \<Rightarrow>
          (if \<not> ok then (reply_error req HTTP_BADREQUEST msg, sv)
           else (case has_members js body ks of
                   None \<Rightarrow> (Terminated, sv)
                 | Some False \<Rightarrow> (reply_error req HTTP_BADREQUEST msg, sv)
                 | Some True \<Rightarrow> rest body)))"

text \<open>\<open>body[k].asCString()\<close> and \<open>asString()\<close> as an argument of what follows.\<close>

definition with_value :: "server \<Rightarrow> 'a option \<Rightarrow> ('a \<Rightarrow> response \<times> server) \<Rightarrow> response \<times> server" where
  "with_value sv x rest = (case x of None \<Rightarrow> (Terminated, sv) | Some a \<Rightarrow> rest a)"

definition cstring_at :: "json_lib \<Rightarrow> json \<Rightarrow> string \<Rightarrow> string option" where
  "cstring_at js body k = Option.bind (js_at js body k) (js_as_cstring js)"

definition string_at :: "json_lib \<Rightarrow> json \<Rightarrow> string \<Rightarrow> string option" where
  "string_at js body k = Option.bind (js_at js body k) (js_as_string js)"

definition string_or_empty :: "json_lib \<Rightarrow> json \<Rightarrow> string \<Rightarrow> string option" where
  "string_or_empty js body k = Option.bind (js_get js body k (JStr [])) (js_as_string js)"

subsection \<open>Routes\<close>

record route_match =
  rm_username :: string
  rm_resource :: string
  rm_matched :: bool

text \<open>The loop that splits at the slashes; a slash at the end leaves no empty part behind.\<close>

function route_parts :: "string \<Rightarrow> string list" where
  "route_parts s =
     (if s = [] then []
      else (let part = takeWhile (\<lambda>c. c \<noteq> CHR ''/'') s; rest = dropWhile (\<lambda>c. c \<noteq> CHR ''/'') s
            in if rest = [] then [s] else part # route_parts (tl rest)))"
  by pat_completeness auto

termination
proof (relation "measure length")
  fix s part rest :: string
  assume "s \<noteq> []" "rest = dropWhile (\<lambda>c. c \<noteq> CHR ''/'') s" "rest \<noteq> []"
  then have "length rest \<le> length s" "0 < length s" by (simp_all add: length_dropWhile_le)
  then show "(tl rest, s) \<in> measure length" by (simp only: in_measure length_tl)
qed simp

declare route_parts.simps [simp del]

definition match_user_route :: "string \<Rightarrow> bool \<Rightarrow> route_match" where
  "match_user_route uri require_resource =
     (let m = \<lparr>rm_username = [], rm_resource = [], rm_matched = False\<rparr>;
          parts = route_parts (dropWhile (\<lambda>c. c = CHR ''/'') uri)
      in if length parts < 3 then m
         else if parts ! 0 \<noteq> ''v1'' then m
         else if parts ! 1 \<noteq> ''users'' then m
         else (let resource = (if length parts \<ge> 4 then parts ! 3 else [])
                     @ (if length parts \<ge> 5 then ''/'' @ parts ! 4 else [])
               in \<lparr>rm_username = parts ! 2, rm_resource = resource,
                   rm_matched = \<not> (require_resource \<and> resource = [])\<rparr>))"

subsection \<open>Handlers\<close>

definition handle_health :: "request \<Rightarrow> response" where
  "handle_health req =
     reply_ok req (JObj [(''status'', JStr ''ok''), (''version'', JStr ''0.3.0-beta'')])"

definition handle_version :: "request \<Rightarrow> response" where
  "handle_version req = reply_ok req (JObj [(''version'', JStr ''0.3.0-beta''), (''api'', JStr ''v1'')])"

definition handle_user_register_req ::
  "json_lib \<Rightarrow> provider \<Rightarrow> validator \<Rightarrow> request \<Rightarrow> route_match \<Rightarrow> server \<Rightarrow> response \<times> server" where
  "handle_user_register_req js cr vd req m sv =
     with_body js req [''password''] (''body must contain '' @ quoted ''password'') sv (\<lambda>body.
     with_value sv (cstring_at js body ''password'') (\<lambda>p.
       let (st, v) = ssm_user_register cr vd (Some (rm_username m)) (Some p) (sv_vault sv)
       in (if st \<noteq> SSM_OK then reply_status req HTTP_BADREQUEST ''user_register'' st
           else reply_created req (JObj [(''status'', JStr ''OK''), (''username'', JStr (rm_username m))]),
           sv\<lparr>sv_vault := v\<rparr>)))"

definition handle_user_auth_req ::
  "json_lib \<Rightarrow> provider \<Rightarrow> request \<Rightarrow> route_match \<Rightarrow> server \<Rightarrow> response \<times> server" where
  "handle_user_auth_req js cr req m sv =
     with_body js req [''password''] (''body must contain '' @ quoted ''password'') sv (\<lambda>body.
     with_value sv (cstring_at js body ''password'') (\<lambda>p.
       let (st, is_valid, v) =
             ssm_user_authenticate cr (Some (rm_username m)) (Some p) (Some 0) (sv_vault sv)
       in (if st \<noteq> SSM_OK then reply_status req HTTP_INTERNAL ''user_authenticate'' st
           else reply_ok req (JObj [(''authenticated'', JBool (the is_valid \<noteq> 0))]),
           sv\<lparr>sv_vault := v\<rparr>)))"

definition handle_user_delete_req ::
  "json_lib \<Rightarrow> provider \<Rightarrow> request \<Rightarrow> route_match \<Rightarrow> server \<Rightarrow> response \<times> server" where
  "handle_user_delete_req js cr req m sv =
     with_body js req [''password''] (''body must contain '' @ quoted ''password'') sv (\<lambda>body.
     with_value sv (cstring_at js body ''password'') (\<lambda>p.
       let (st, v) = ssm_user_delete cr (Some (rm_username m)) (Some p) (sv_vault sv)
       in (if st \<noteq> SSM_OK then reply_status req HTTP_BADREQUEST ''user_delete'' st
           else reply_ok req status_ok, sv\<lparr>sv_vault := v\<rparr>)))"

definition handle_user_change_password_req ::
  "json_lib \<Rightarrow> provider \<Rightarrow> validator \<Rightarrow> request \<Rightarrow> route_match \<Rightarrow> server \<Rightarrow> response \<times> server" where
  "handle_user_change_password_req js cr vd req m sv =
     with_body js req [''old_password'', ''new_password'']
       (''body must contain '' @ quoted ''old_password'' @ '' and '' @ quoted ''new_password'') sv (\<lambda>body.
     with_value sv (cstring_at js body ''old_password'') (\<lambda>p.
     with_value sv (cstring_at js body ''new_password'') (\<lambda>q.
       let (st, v) = ssm_user_change_password cr vd (Some (rm_username m)) (Some p) (Some q) (sv_vault sv)
       in (if st \<noteq> SSM_OK then reply_status req HTTP_BADREQUEST ''user_change_password'' st
           else reply_ok req status_ok, sv\<lparr>sv_vault := v\<rparr>))))"

definition list_item :: "string \<times> string \<times> string \<times> nat \<Rightarrow> json" where
  "list_item x =
     (case x of (name, desc, updated, pub_len) \<Rightarrow>
        JObj ((''name'', JStr name) # (if desc \<noteq> [] then [(''description'', JStr desc)] else [])
          @ [(''updatedAt'', JStr updated), (''pubKeyLen'', JInt (int pub_len))]))"

definition handle_secret_list_req :: "request \<Rightarrow> route_match \<Rightarrow> server \<Rightarrow> response \<times> server" where
  "handle_secret_list_req req m sv =
     (let (st, items, v) = ssm_secret_list (Some (rm_username m)) True (sv_vault sv)
      in (if st \<noteq> SSM_OK then reply_status req HTTP_BADREQUEST ''secret_list'' st
          else reply_ok req (JArr (map list_item items)), sv\<lparr>sv_vault := v\<rparr>))"

definition handle_secret_store_req ::
  "json_lib \<Rightarrow> provider \<Rightarrow> request \<Rightarrow> route_match \<Rightarrow> server \<Rightarrow> response \<times> server" where
  "handle_secret_store_req js cr req m sv =
     with_body js req [''name'', ''private_key''] (''body must contain '' @ quoted ''name'' @ '' and '' @ quoted ''private_key'') sv (\<lambda>body.
     with_value sv (string_at js body ''name'') (\<lambda>name.
     with_value sv (string_at js body ''private_key'') (\<lambda>priv_hex.
     with_value sv (string_or_empty js body ''public_key'') (\<lambda>pub_hex.
     with_value sv (string_or_empty js body ''description'') (\<lambda>desc.
       let (priv_ok, priv_bytes) = hex_decode_vec priv_hex []
       in if \<not> priv_ok then (reply_error req HTTP_BADREQUEST ''private_key: invalid hex'', sv)
          else (let (pub_ok, pub_bytes) = (if pub_hex = [] then (True, []) else hex_decode_vec pub_hex [])
                in if \<not> pub_ok then (reply_error req HTTP_BADREQUEST ''public_key: invalid hex'', sv)
                   else (let (st, v) = ssm_secret_store cr (Some (rm_username m)) (Some priv_bytes)
                               (vec_data pub_bytes) (length pub_bytes) (Some (c_str name))
                               (if desc = [] then None else Some (c_str desc)) (sv_vault sv)
                         in (if st \<noteq> SSM_OK then reply_status req HTTP_BADREQUEST ''secret_store'' st
                             else reply_created req (JObj [(''status'', JStr ''OK''), (''name'', JStr name)]),
                             sv\<lparr>sv_vault := v\<rparr>))))))))"

text \<open>The secret's name: the resource behind \<open>secrets/\<close>.\<close>

definition secret_name :: "route_match \<Rightarrow> string" where
  "secret_name m = (if take 8 (rm_resource m) = ''secrets/'' then drop 8 (rm_resource m) else [])"

text \<open>\<open>std::vector::resize\<close>.\<close>

definition resize_to :: "nat \<Rightarrow> bytes \<Rightarrow> bytes" where
  "resize_to n b = take n b @ replicate (n - length b) 0"

definition key_buffers :: key_out where
  "key_buffers = \<lparr>go_private = Some (replicate 65536 0), go_private_len = Some 65536,
     go_public = Some (replicate 65536 0), go_public_len = Some 65536\<rparr>"

text \<open>\<open>ssm_secret_get\<close> into 64 KiB, and again into larger buffers when the private key did not fit.\<close>

definition get_with_retry ::
  "provider \<Rightarrow> string \<Rightarrow> string \<Rightarrow> vault \<Rightarrow> ssm_status \<times> key_out \<times> vault" where
  "get_with_retry cr username name v =
     (let (st, g, v1) = ssm_secret_get cr (Some username) (Some name) key_buffers v;
          priv = the (go_private g); priv_len = the (go_private_len g);
          pub = the (go_public g); pub_len = the (go_public_len g)
      in if st = SSM_ERR_INTERNAL \<and> priv_len > length priv
         then ssm_secret_get cr (Some username) (Some name)
                \<lparr>go_private = Some (resize_to priv_len priv), go_private_len = Some priv_len,
                 go_public = Some (resize_to pub_len pub), go_public_len = Some pub_len\<rparr> v1
         else (st, g, v1))"

definition handle_secret_get_req ::
  "provider \<Rightarrow> request \<Rightarrow> route_match \<Rightarrow> server \<Rightarrow> response \<times> server" where
  "handle_secret_get_req cr req m sv =
     (if secret_name m = [] then (reply_error req HTTP_NOTFOUND ''secret name required'', sv)
      else (let (st, g, v) = get_with_retry cr (rm_username m) (secret_name m) (sv_vault sv);
                priv_len = the (go_private_len g); pub_len = the (go_public_len g)
            in (if st \<noteq> SSM_OK
                then reply_status req (if st = SSM_ERR_NOT_FOUND \<or> st = SSM_ERR_AUTH then HTTP_NOTFOUND
                                       else HTTP_BADREQUEST) ''secret_get'' st
                else reply_ok req (JObj ((''private_key'', JStr (hex_encode (take priv_len (the (go_private g)))))
                       # (if pub_len > 0
                          then [(''public_key'', JStr (hex_encode (take pub_len (the (go_public g)))))]
                          else []))), sv\<lparr>sv_vault := v\<rparr>)))"

definition handle_secret_delete_req :: "request \<Rightarrow> route_match \<Rightarrow> server \<Rightarrow> response \<times> server" where
  "handle_secret_delete_req req m sv =
     (if secret_name m = [] then (reply_error req HTTP_NOTFOUND ''secret name required'', sv)
      else (let (st, v) = ssm_secret_delete (Some (rm_username m)) (Some (secret_name m)) (sv_vault sv)
            in (if st \<noteq> SSM_OK then reply_status req HTTP_BADREQUEST ''secret_delete'' st
                else reply_ok req status_ok, sv\<lparr>sv_vault := v\<rparr>)))"

definition handle_kek_rotate_req :: "provider \<Rightarrow> request \<Rightarrow> route_match \<Rightarrow> server \<Rightarrow> response \<times> server" where
  "handle_kek_rotate_req cr req m sv =
     (let (st, v) = ssm_kek_rotate cr (Some (rm_username m)) (sv_vault sv)
      in (if st \<noteq> SSM_OK then reply_status req HTTP_BADREQUEST ''kek_rotate'' st
          else reply_ok req status_ok, sv\<lparr>sv_vault := v\<rparr>))"

text \<open>
  The two backup handlers read the key into an array of 32 bytes that is not initialised; the body's
  path may be any value that converts to a string.
\<close>

definition backup_request ::
  "json_lib \<Rightarrow> request \<Rightarrow> server \<Rightarrow> (string \<Rightarrow> bytes \<Rightarrow> response \<times> server) \<Rightarrow> response \<times> server" where
  "backup_request js req sv rest =
     with_body js req [''path'', ''key_hex'']
       (''body must contain '' @ quoted ''path'' @ '' and '' @ quoted ''key_hex'') sv (\<lambda>body.
     with_value sv (string_at js body ''path'') (\<lambda>path.
     with_value sv (cstring_at js body ''key_hex'') (\<lambda>key_hex.
       let (ok, key, key_len) = hex_decode key_hex (new_block 32 (ho_disk (sv_host sv))) 0 32
       in if \<not> ok \<or> key_len \<noteq> 32
          then (reply_error req HTTP_BADREQUEST ''key_hex must be 64 hex chars (32 bytes)'', sv)
          else rest (c_str path) key)))"

definition handle_backup_create_req ::
  "json_lib \<Rightarrow> provider \<Rightarrow> request \<Rightarrow> server \<Rightarrow> response \<times> server" where
  "handle_backup_create_req js cr req sv =
     backup_request js req sv (\<lambda>path key.
       let (st, v, h) = ssm_backup_create cr (Some path) (Some key) (sv_vault sv) (sv_host sv)
       in (if st \<noteq> SSM_OK then reply_status req HTTP_INTERNAL ''backup_create'' st
           else reply_created req status_ok, sv\<lparr>sv_vault := v, sv_host := h\<rparr>))"

definition handle_backup_restore_req ::
  "json_lib \<Rightarrow> provider \<Rightarrow> request \<Rightarrow> server \<Rightarrow> response \<times> server" where
  "handle_backup_restore_req js cr req sv =
     backup_request js req sv (\<lambda>path key.
     with_value sv (ssm_backup_restore cr (Some path) (Some key) (sv_vault sv) (sv_host sv)) (\<lambda>(st, v, h).
       (if st \<noteq> SSM_OK then reply_status req HTTP_INTERNAL ''backup_restore'' st
        else reply_ok req status_ok, sv\<lparr>sv_vault := v, sv_host := h\<rparr>)))"

definition handle_db_version_req :: "request \<Rightarrow> server \<Rightarrow> response \<times> server" where
  "handle_db_version_req req sv =
     (let (st, version, v) = ssm_db_version (Some 0) (sv_vault sv)
      in (if st \<noteq> SSM_OK then reply_status req HTTP_INTERNAL ''db_version'' st
          else reply_ok req (JObj [(''version'', JInt (the version))]), sv\<lparr>sv_vault := v\<rparr>))"

definition handle_db_migrate_req :: "request \<Rightarrow> server \<Rightarrow> response \<times> server" where
  "handle_db_migrate_req req sv =
     (let (st, v) = ssm_db_migrate (sv_vault sv)
      in (if st \<noteq> SSM_OK then reply_status req HTTP_INTERNAL ''db_migrate'' st
          else reply_ok req status_ok, sv\<lparr>sv_vault := v\<rparr>))"

definition handle_cache_stats_req :: "request \<Rightarrow> server \<Rightarrow> response \<times> server" where
  "handle_cache_stats_req req sv =
     (let (st, out, v) = ssm_cache_get_stats (Some (cache_stats new_cache)) (sv_vault sv); stats = the out
      in (if st \<noteq> SSM_OK then reply_status req HTTP_INTERNAL ''cache_stats'' st
          else reply_ok req (JObj
            [(''totalEntries'', JInt (int (total_entries stats))),
             (''validEntries'', JInt (int (valid_entries stats))),
             (''hitCount'', JInt (int (hit_count stats))),
             (''missCount'', JInt (int (miss_count stats)))]), sv\<lparr>sv_vault := v\<rparr>))"

definition header_number :: "string option \<Rightarrow> int \<Rightarrow> int" where
  "header_number h dflt =
     (case h of None \<Rightarrow> dflt
      | Some s \<Rightarrow> (let (v, moved) = strtol s in if moved \<and> v \<ge> 0 then v else dflt))"

definition audit_item :: "audit_entry \<Rightarrow> json" where
  "audit_item e = JObj
     [(''id'', JInt (ae_id e)), (''userId'', JInt (ae_user_id e)), (''username'', JStr (ae_username e)),
      (''operation'', JStr (ae_operation e)), (''operationTarget'', JStr (ae_target e)),
      (''details'', JStr (ae_details e)), (''result'', JStr (ae_result e)),
      (''timestamp'', JStr (ae_timestamp e))]"

definition handle_audit_log_req :: "request \<Rightarrow> server \<Rightarrow> response \<times> server" where
  "handle_audit_log_req req sv =
     (let limit = header_number (rq_header req ''X-Audit-Limit'') 100;
          offset = header_number (rq_header req ''X-Audit-Offset'') 0;
          (st, entries, v) = ssm_audit_log_query (rq_header req ''X-Audit-Username'')
            (rq_header req ''X-Audit-Operation'') (rq_header req ''X-Audit-Result'') limit offset True
            (sv_vault sv)
      in (if st \<noteq> SSM_OK then reply_status req HTTP_INTERNAL ''audit_log_query'' st
          else reply_ok req (JArr (map audit_item entries)), sv\<lparr>sv_vault := v\<rparr>))"

text \<open>The export is sent as it is; here the result of \<open>evbuffer_new\<close> is used without a test.\<close>

definition handle_export_req :: "request \<Rightarrow> server \<Rightarrow> response \<times> server" where
  "handle_export_req req sv =
     (let csv = (rq_header req ''X-Export-Format'' = Some ''csv'');
          redact = (rq_header req ''X-Export-Redact'' = Some ''true'');
          (st, text, v) = ssm_export (if csv then SSM_EXPORT_CSV else SSM_EXPORT_JSON) redact True (sv_vault sv)
      in (if st \<noteq> SSM_OK then reply_status req HTTP_INTERNAL ''export'' st
          else if rq_buffer req
          then Reply_Text HTTP_OK (if csv then ''text/csv'' else ''application/json'')
                 (case text of None \<Rightarrow> [] | Some t \<Rightarrow> t)
          else Terminated, sv\<lparr>sv_vault := v\<rparr>))"

subsection \<open>Dispatch\<close>

definition check_api_key :: "request \<Rightarrow> server \<Rightarrow> bool" where
  "check_api_key req sv =
     (if sv_api_key sv = [] then True
      else (case rq_header req ''X-API-Key'' of None \<Rightarrow> False | Some key \<Rightarrow> sv_api_key sv = key))"

text \<open>A handler for one method only.\<close>

definition only ::
  "http_method \<Rightarrow> string \<Rightarrow> request \<Rightarrow> server \<Rightarrow> response \<times> server \<Rightarrow> response \<times> server" where
  "only meth hint req sv answer =
     (if rq_method req \<noteq> meth then (reply_error req HTTP_BADMETHOD hint, sv) else answer)"

text \<open>
  The routes below \<open>/v1/users\<close>. A \<open>POST\<close> to the user itself parses the body, ignores the outcome (unless
  it is an exception) and refuses.
\<close>

definition user_routes ::
  "json_lib \<Rightarrow> provider \<Rightarrow> validator \<Rightarrow> request \<Rightarrow> route_match \<Rightarrow> server \<Rightarrow> response \<times> server" where
  "user_routes js cr vd req m sv =
     (if rm_resource m = [] then
        (if rq_method req = Http_Post
         then (case parse_body js req of
                 None \<Rightarrow> (Terminated, sv)
               | Some _ \<Rightarrow> (reply_error req HTTP_NOTFOUND ''use /v1/users/<username>/register or /auth'', sv))
         else if rq_method req = Http_Delete then handle_user_delete_req js cr req m sv
         else (reply_error req HTTP_BADMETHOD ''method not allowed'', sv))
      else if rm_resource m = ''register'' then
        only Http_Post ''use POST'' req sv (handle_user_register_req js cr vd req m sv)
      else if rm_resource m = ''auth'' then
        only Http_Post ''use POST'' req sv (handle_user_auth_req js cr req m sv)
      else if rm_resource m = ''password'' then
        only Http_Put ''use PUT'' req sv (handle_user_change_password_req js cr vd req m sv)
      else if take 10 (rm_resource m) = ''kek/rotate'' then
        only Http_Post ''use POST'' req sv (handle_kek_rotate_req cr req m sv)
      else if rm_resource m = ''secrets'' then
        (if rq_method req = Http_Get then handle_secret_list_req req m sv
         else if rq_method req = Http_Post then handle_secret_store_req js cr req m sv
         else (reply_error req HTTP_BADMETHOD ''use GET or POST'', sv))
      else if take 8 (rm_resource m) = ''secrets/'' then
        (if rq_method req = Http_Get then handle_secret_get_req cr req m sv
         else if rq_method req = Http_Delete then handle_secret_delete_req req m sv
         else (reply_error req HTTP_BADMETHOD ''use GET or DELETE'', sv))
      else (reply_error req HTTP_NOTFOUND ''not found'', sv))"

definition path_only :: "request \<Rightarrow> string" where
  "path_only req = takeWhile (\<lambda>c. c \<noteq> CHR ''?'') (rq_uri req)"

definition request_handler ::
  "json_lib \<Rightarrow> provider \<Rightarrow> validator \<Rightarrow> request \<Rightarrow> server \<Rightarrow> response \<times> server" where
  "request_handler js cr vd req sv =
     (let path = path_only req; meth = rq_method req
      in if path = ''/v1/health'' \<and> meth = Http_Get then (handle_health req, sv)
         else if path = ''/v1/version'' \<and> meth = Http_Get then (handle_version req, sv)
         else if \<not> check_api_key req sv
         then (reply_error req HTTP_UNAUTHORIZED ''missing or invalid API key'', sv)
         else if path = ''/v1/export'' \<and> meth = Http_Get then handle_export_req req sv
         else if path = ''/v1/db/version'' \<and> meth = Http_Get then handle_db_version_req req sv
         else if path = ''/v1/db/migrate'' \<and> meth = Http_Post then handle_db_migrate_req req sv
         else if path = ''/v1/cache/stats'' \<and> meth = Http_Get then handle_cache_stats_req req sv
         else if path = ''/v1/audit'' \<and> meth = Http_Get then handle_audit_log_req req sv
         else if path = ''/v1/backup/create'' \<and> meth = Http_Post then handle_backup_create_req js cr req sv
         else if path = ''/v1/backup/restore'' \<and> meth = Http_Post then handle_backup_restore_req js cr req sv
         else (let m = match_user_route path False
               in if \<not> rm_matched m then (reply_error req HTTP_NOTFOUND ''not found'', sv)
                  else user_routes js cr vd req m sv))"

text \<open>The options of \<open>ssm-cli server start\<close>; \<open>Inl\<close> is the option that is not known.\<close>

record server_options =
  so_port :: int
  so_host :: string
  so_api_key :: string
  so_daemonize :: bool
  so_pidfile :: string

fun server_args :: "string list \<Rightarrow> server_options \<Rightarrow> string + server_options" where
  "server_args [] opts = Inr opts"
| "server_args (a # args) opts =
     (if a = ''--daemonize'' then server_args args (opts\<lparr>so_daemonize := True\<rparr>)
      else (case args of
              [] \<Rightarrow> Inl a
            | x # rest \<Rightarrow>
                (if a = ''--port'' then server_args rest (opts\<lparr>so_port := atoi x\<rparr>)
                 else if a = ''--host'' then server_args rest (opts\<lparr>so_host := x\<rparr>)
                 else if a = ''--api-key'' then server_args rest (opts\<lparr>so_api_key := x\<rparr>)
                 else if a = ''--pidfile'' then server_args rest (opts\<lparr>so_pidfile := x\<rparr>)
                 else Inl a)))"

definition server_options_of :: "string option \<Rightarrow> string list \<Rightarrow> string + server_options" where
  "server_options_of env_key argv = server_args argv
     \<lparr>so_port = 8080, so_host = ''127.0.0.1'', so_api_key = (case env_key of None \<Rightarrow> [] | Some k \<Rightarrow> k),
      so_daemonize = False, so_pidfile = ''./ssm-cli.pid''\<rparr>"

end
