(* ===== verification/Rest_Behaviour.thy ===== *)
theory Rest_Behaviour
  imports Rest_Server
begin

section \<open>What the REST server guarantees\<close>

text \<open>
  The theorems of the library carried through the handlers: who is let in, what a request can do to the
  vault, that a secret posted comes back, and what takes the server down.
\<close>

subsection \<open>Helper lemmas\<close>

text \<open>What JsonCpp documents of the accessors the handlers use.\<close>

definition json_law :: "json_lib \<Rightarrow> bool" where
  "json_law js \<longleftrightarrow>
     (\<forall>kvs k. js_is_member js (JObj kvs) k = Some (k \<in> fst ` set kvs))
     \<and> (\<forall>k. js_is_member js JNull k = Some False)
     \<and> (\<forall>xs k. js_is_member js (JArr xs) k = None) \<and> (\<forall>s k. js_is_member js (JStr s) k = None)
     \<and> (\<forall>i k. js_is_member js (JInt i) k = None) \<and> (\<forall>x k. js_is_member js (JReal x) k = None)
     \<and> (\<forall>b k. js_is_member js (JBool b) k = None)
     \<and> (\<forall>kvs k v. map_of kvs k = Some v \<longrightarrow> js_at js (JObj kvs) k = Some v)
     \<and> (\<forall>kvs k d. js_get js (JObj kvs) k d = Some (case map_of kvs k of None \<Rightarrow> d | Some v \<Rightarrow> v))
     \<and> (\<forall>s. js_as_string js (JStr s) = Some s) \<and> (\<forall>s. js_as_cstring js (JStr s) = Some (c_str s))
     \<and> (\<forall>v. (\<forall>s. v \<noteq> JStr s) \<longrightarrow> js_as_cstring js v = None)"

lemma with_body_cases:
  "with_body js req ks msg sv rest = (reply_error req HTTP_BADREQUEST msg, sv)
   \<or> with_body js req ks msg sv rest = (Terminated, sv) \<or> (\<exists>body. with_body js req ks msg sv rest = rest body)"
  by (auto simp: with_body_def split: prod.split option.split bool.split)

lemma with_value_cases: "with_value sv x rest = (Terminated, sv) \<or> (\<exists>a. with_value sv x rest = rest a)"
  by (auto simp: with_value_def split: option.split)

text \<open>A property of the server that holds before and in whatever the continuation answers holds after.\<close>

lemma with_body_rule:
  assumes "P (snd (r0, sv))" and "\<And>body. P (snd (rest body))"
  shows "P (snd (with_body js req ks msg sv rest))"
  using with_body_cases [of js req ks msg sv rest] assms by (metis snd_conv)

lemma with_value_rule:
  assumes "P (snd (r0, sv))" and "\<And>a. P (snd (rest a))"
  shows "P (snd (with_value sv x rest))"
  using with_value_cases [of sv x rest] assms by (metis snd_conv)

subsection \<open>Access\<close>

text \<open>
  C12. Without the API key nothing happens: when one is set and the request does not carry it, the vault
  and the files are untouched, and the answer is the health or version page or a refusal (or, with no
  memory for it, an error).
\<close>

theorem no_key_no_access:
  assumes "sv_api_key sv \<noteq> []" and "rq_header req ''X-API-Key'' \<noteq> Some (sv_api_key sv)"
  shows "snd (request_handler js cr vd req sv) = sv
    \<and> (fst (request_handler js cr vd req sv) = reply_error req HTTP_UNAUTHORIZED ''missing or invalid API key''
       \<or> path_only req = ''/v1/health'' \<and> fst (request_handler js cr vd req sv) = handle_health req
       \<or> path_only req = ''/v1/version'' \<and> fst (request_handler js cr vd req sv) = handle_version req)"
proof -
  have "\<not> check_api_key req sv" using assms by (auto simp: check_api_key_def split: option.split)
  then show ?thesis by (simp add: request_handler_def Let_def)
qed

subsection \<open>The invariant\<close>

abbreviation served_ok :: "provider \<Rightarrow> server \<Rightarrow> bool" where
  "served_ok cr sv \<equiv> vault_ok cr (sv_vault sv)"

lemma export_keeps:
  assumes ok: "vault_ok cr v"
  shows "vault_ok cr (snd (snd (ssm_export fm redact cb v)))"
proof -
  obtain st x db' where e: "export_metadata (v_db v) fm redact cb = (st, x, db')" by (metis prod_cases3)
  show ?thesis using ok vault_ok_read [OF ok] export_frame [OF e] e by (cases cb) (simp_all add: ssm_export_def)
qed

lemma backup_keeps: "vault_ok cr v \<Longrightarrow> vault_ok cr (fst (snd (ssm_backup_create c p k v h)))"
  by (simp add: ssm_backup_create_def Let_def split: prod.split)

lemma restore_free: "vault_ok cr v \<Longrightarrow> vault_ok cr (snd (snd (ssm_cache_get_stats out v)))"
  by (simp add: ssm_cache_get_stats_def split: option.split)

lemma get_retry_keeps:
  assumes "vault_ok cr v" and law: "lawful cr"
  shows "vault_ok cr (snd (snd (get_with_retry cr u n v)))"
proof -
  note get_secret_ok [OF assms, of "Some u" "Some n" key_buffers]
  from get_secret_ok [OF this law] show ?thesis
    using get_secret_ok [OF assms] by (simp add: get_with_retry_def Let_def split_beta)
qed

text \<open>Every handler but the one of a restore keeps the invariant, because every call does.\<close>

lemma handler_keeps:
  assumes ok: "served_ok cr sv" and law: "lawful cr"
  shows "served_ok cr (snd (handle_user_register_req js cr vd req m sv))"
    and "served_ok cr (snd (handle_user_auth_req js cr req m sv))"
    and "served_ok cr (snd (handle_user_delete_req js cr req m sv))"
    and "served_ok cr (snd (handle_user_change_password_req js cr vd req m sv))"
    and "served_ok cr (snd (handle_secret_store_req js cr req m sv))"
    and "served_ok cr (snd (handle_backup_create_req js cr req sv))"
  unfolding handle_user_register_req_def handle_user_auth_req_def handle_user_delete_req_def
    handle_user_change_password_req_def handle_secret_store_req_def handle_backup_create_req_def
    backup_request_def
  by (intro with_body_rule [where P = "served_ok cr"] with_value_rule [where P = "served_ok cr"];
      simp add: split_beta Let_def ok register_ok [OF ok law] authenticate_ok [OF ok] delete_user_ok [OF ok]
        change_password_ok [OF ok] store_secret_ok [OF ok law] backup_keeps [OF ok])+

lemma plain_handler_keeps:
  assumes ok: "served_ok cr sv" and law: "lawful cr"
  shows "served_ok cr (snd (handle_secret_list_req req m sv))"
    and "served_ok cr (snd (handle_secret_get_req cr req m sv))"
    and "served_ok cr (snd (handle_secret_delete_req req m sv))"
    and "served_ok cr (snd (handle_kek_rotate_req cr req m sv))"
    and "served_ok cr (snd (handle_db_version_req req sv))"
    and "served_ok cr (snd (handle_db_migrate_req req sv))"
    and "served_ok cr (snd (handle_cache_stats_req req sv))"
    and "served_ok cr (snd (handle_audit_log_req req sv))"
    and "served_ok cr (snd (handle_export_req req sv))"
  unfolding handle_secret_list_req_def handle_secret_get_req_def handle_secret_delete_req_def
    handle_kek_rotate_req_def handle_db_version_req_def handle_db_migrate_req_def handle_cache_stats_req_def
    handle_audit_log_req_def handle_export_req_def
  by (simp_all add: split_beta Let_def ok list_secrets_ok [OF ok] get_retry_keeps [OF ok law]
      delete_secret_ok [OF ok] rotate_ok [OF ok] version_ok [OF ok] migrate_ok [OF ok] restore_free [OF ok]
      query_audit_ok [OF ok] export_keeps [OF ok])

definition restores :: "request \<Rightarrow> bool" where
  "restores req \<longleftrightarrow> path_only req = ''/v1/backup/restore'' \<and> rq_method req = Http_Post"

lemma request_keeps:
  assumes ok: "served_ok cr sv" and law: "lawful cr" and "\<not> restores req"
  shows "served_ok cr (snd (request_handler js cr vd req sv))"
  using assms(3) handler_keeps [OF ok law] plain_handler_keeps [OF ok law] ok
  by (auto simp: request_handler_def user_routes_def only_def restores_def Let_def split: option.split)

text \<open>A server answers one request after the other.\<close>

fun serve :: "json_lib \<Rightarrow> provider \<Rightarrow> validator \<Rightarrow> request list \<Rightarrow> server \<Rightarrow> response list \<times> server" where
  "serve js cr vd [] sv = ([], sv)"
| "serve js cr vd (req # reqs) sv =
     (let (r, sv1) = request_handler js cr vd req sv; (rs, sv2) = serve js cr vd reqs sv1 in (r # rs, sv2))"

text \<open>
  C13. Whatever requests arrive, well-formed or not, the handle of the server keeps the invariant of the
  library: no open transaction, well-formed tables and a cache of current keys. The restore of a backup is
  the exception, because it keeps the cache of the database it replaces.
\<close>

theorem server_keeps_invariant:
  assumes "vault_ok cr (sv_vault sv)" and "lawful cr" and "\<forall>req \<in> set reqs. \<not> restores req"
  shows "vault_ok cr (sv_vault (snd (serve js cr vd reqs sv)))"
  using assms
proof (induction reqs arbitrary: sv)
  case (Cons req reqs)
  then show ?case using request_keeps [of cr sv req] by (simp add: split_beta Let_def)
qed simp

subsection \<open>Routes\<close>

definition plain_part :: "string \<Rightarrow> bool" where
  "plain_part w \<longleftrightarrow> w \<noteq> [] \<and> CHR ''/'' \<notin> set w \<and> CHR ''?'' \<notin> set w"

lemma route_parts_simps [simp]:
  "route_parts [] = []"
  "CHR ''/'' \<notin> set w \<Longrightarrow> route_parts (w @ CHR ''/'' # r) = w # route_parts r"
  "CHR ''/'' \<notin> set w \<Longrightarrow> w \<noteq> [] \<Longrightarrow> route_parts w = [w]"
proof -
  show "route_parts [] = []" by (subst route_parts.simps) simp
  show "route_parts w = [w]" if "CHR ''/'' \<notin> set w" "w \<noteq> []"
    using that by (subst route_parts.simps) (auto simp: Let_def)
  show "route_parts (w @ CHR ''/'' # r) = w # route_parts r" if w: "CHR ''/'' \<notin> set w"
  proof -
    have "takeWhile (\<lambda>c. c \<noteq> CHR ''/'') (w @ CHR ''/'' # r) = w"
      using w by (subst takeWhile_append2) auto
    moreover have "dropWhile (\<lambda>c. c \<noteq> CHR ''/'') (w @ CHR ''/'' # r) = CHR ''/'' # r"
      using w by (subst dropWhile_append2) auto
    ultimately show ?thesis by (subst route_parts.simps) simp
  qed
qed

lemma route_of_user:
  "route_parts (''v1/users/'' @ r) = ''v1'' # ''users'' # route_parts r"
  using route_parts_simps(2) [of "''v1''" "''users/'' @ r"] route_parts_simps(2) [of "''users''" r] by simp

lemma secrets_route:
  assumes "plain_part u" and "plain_part n"
  shows "match_user_route (''/v1/users/'' @ u @ ''/secrets'') False
      = \<lparr>rm_username = u, rm_resource = ''secrets'', rm_matched = True\<rparr>"
    and "match_user_route (''/v1/users/'' @ u @ ''/secrets/'' @ n) False
      = \<lparr>rm_username = u, rm_resource = ''secrets/'' @ n, rm_matched = True\<rparr>"
    and "match_user_route (''/v1/users/'' @ u @ ''/secrets/'' @ n @ ''/'' @ r) False
      = \<lparr>rm_username = u, rm_resource = ''secrets/'' @ n, rm_matched = True\<rparr>"
  using assms route_of_user [of "u @ ''/secrets''"] route_of_user [of "u @ ''/secrets/'' @ n"]
    route_of_user [of "u @ ''/secrets/'' @ n @ ''/'' @ r"] route_parts_simps(2) [of "''secrets''" n]
    route_parts_simps(2) [of "''secrets''" "n @ ''/'' @ r"]
  by (simp_all add: match_user_route_def plain_part_def Let_def)

lemma path_of_plain:
  "CHR ''?'' \<notin> set (rq_uri req) \<Longrightarrow> path_only req = rq_uri req"
  unfolding path_only_def by (subst takeWhile_eq_all_conv) auto

lemma user_request:
  assumes "path_only req = ''/v1/users/'' @ x" and "check_api_key req sv"
    and "match_user_route (''/v1/users/'' @ x) False = m" and "rm_matched m"
  shows "request_handler js cr vd req sv = user_routes js cr vd req m sv"
  using assms by (simp add: request_handler_def Let_def)

text \<open>
  The route decides which secret is meant, and it cuts names off: a request for \<open>secrets/n\<close> of a user
  acts on that user's secret \<open>n\<close>, and so does, silently, every request for \<open>secrets/n/r\<close> with anything
  behind it: deleting \<open>n/r\<close> deletes \<open>n\<close>.
\<close>

theorem route_cuts_names:
  assumes "plain_part u" and "plain_part n" and "check_api_key req sv"
    and "rq_uri req = ''/v1/users/'' @ u @ ''/secrets/'' @ n \<or> rq_uri req = ''/v1/users/'' @ u @ ''/secrets/'' @ n @ ''/'' @ r"
    and "CHR ''?'' \<notin> set r"
  shows "request_handler js cr vd req sv =
    (let m = \<lparr>rm_username = u, rm_resource = ''secrets/'' @ n, rm_matched = True\<rparr>
     in if rq_method req = Http_Get then handle_secret_get_req cr req m sv
        else if rq_method req = Http_Delete then handle_secret_delete_req req m sv
        else (reply_error req HTTP_BADMETHOD ''use GET or DELETE'', sv))
    \<and> secret_name \<lparr>rm_username = u, rm_resource = ''secrets/'' @ n, rm_matched = True\<rparr> = n"
proof -
  let ?m = "\<lparr>rm_username = u, rm_resource = ''secrets/'' @ n, rm_matched = True\<rparr>"
  have "path_only req = rq_uri req" using assms by (intro path_of_plain) (auto simp: plain_part_def)
  then obtain x where "path_only req = ''/v1/users/'' @ x" "match_user_route (''/v1/users/'' @ x) False = ?m"
    using assms(4) secrets_route(2,3) [OF assms(1,2)] by metis
  from user_request [OF this(1) assms(3) this(2)] show ?thesis
    by (simp add: user_routes_def secret_name_def Let_def)
qed

subsection \<open>A secret posted comes back\<close>

lemma stored_row:
  assumes "secrets_store now db uid (Some n) pk pub 0 nc tg d = (True, db')" and "pub = None"
    and "t_unique_names (db_tabs db) \<or> t_idx_name (db_tabs db)"
  shows "(\<exists>s. find_secret uid n (db_tabs db') = Some s \<and> s_public_key s = None)
    \<and> (current (db_tabs db) \<longrightarrow> current (db_tabs db'))"
proof -
  obtain ok db1 where w: "sql_write db = (ok, db1)" by fastforce
  have t: "db_tabs db1 = db_tabs db" using sql_frameD(3) [OF w] by simp
  obtain p x y where i: "insert_secret (db_fk db1) now uid (Some n) p None x y d (db_tabs db1) = Some (db_tabs db')"
    using assms(1,2)
    by (auto simp: secrets_store_def w bind_blob_def Let_def split: option.splits if_splits)
  then show ?thesis
    using find_secret_insert [OF i] arg_cong [OF insert_secret_eq(1) [OF i], of current] assms(3) t
    by (simp add: current_def)
qed

lemma store_no_public:
  assumes run: "ssm_secret_store cr (Some u) (Some pk) pub 0 (Some n) d v = (SSM_OK, v')"
    and ok: "vault_ok cr v" and law: "lawful cr"
  shows "\<exists>r s. find_user u (db_tabs (v_db v')) = Some r \<and> find_secret (u_id r) n (db_tabs (v_db v')) = Some s
    \<and> s_public_key s = None" and "current (db_tabs (v_db v)) \<Longrightarrow> current (db_tabs (v_db v'))"
proof -
  have ne: "\<not> length pk = 0" using run by (auto simp: ssm_secret_store_def)
  note run1 = run [unfolded ssm_secret_store_def option.case prod.case if_not_P [OF ne]]
  obtain user km v1 where os: "open_session ''secret_store'' u (Some n) v = Inr (user, km, v1)"
    using run1 open_session_cases [OF ok, where op = "''secret_store''" and u = u and tgt = "Some n"]
    by (cases "open_session ''secret_store'' u (Some n) v") auto
  obtain r kr where r: "find_user u (db_tabs (v_db v)) = Some r" "find_kek (u_id r) (db_tabs (v_db v)) = Some kr"
      "user = \<lparr>ur_id = u_id r, ur_password_hash = u_password_hash r\<rparr>" "km = read_kek_row kr"
      "vault_ok cr v1" "db_tabs (v_db v1) = db_tabs (v_db v)"
    using open_session_Inr [OF ok os] by blast
  obtain ko v2 where ld: "load_kek cr user km v1 = (ko, v2)" by fastforce
  have k: "v_db v2 = v_db v1" using load_kek_cases(1) [OF r(5) law, of u r kr ko v2] r ld by simp
  obtain nonce m3 where rnd: "random_bytes AES_GCM_NONCE_LEN (v_mach v2) = (nonce, m3)" by fastforce
  obtain cb m4 where b: "secure_vector_new 1 (length pk) m3 = (cb :: bytes option, m4)" by fastforce
  note run2 = run1 [unfolded os sum.case prod.case ld rnd b Let_def]
  obtain sealed tag db5 where ss: "secrets_store (m_now m4) (v_db (v2\<lparr>v_mach := m4\<rparr>)) (ur_id user) (Some n)
      (vec_data sealed) None 0 (Some nonce) (Some tag) d = (True, db5)"
    and v': "v' = log_audit u (ur_id user) ''secret_store'' SSM_OK (Some n)
      (Some (store_details (length pk) 0)) (v2\<lparr>v_mach := m4, v_db := db5\<rparr>)"
    using run2 by (auto split: option.splits prod.splits if_splits)
  have u: "t_unique_names (db_tabs (v_db v2)) \<or> t_idx_name (db_tabs (v_db v2))"
    using vault_ok_D(2) [OF r(5)] k by (simp add: wf_tables_def secrets_ok_def)
  note row = stored_row [OF ss refl] and audit = same_but_auditD [OF log_audit_frame(4)]
  obtain s where s: "find_secret (ur_id user) n (db_tabs db5) = Some s" "s_public_key s = None"
    using row u by auto
  have "find_secret (ur_id user) n (db_tabs (v_db v')) = Some s"
    using s audit unfolding v' by (simp add: find_secret_def)
  moreover have "find_user u (db_tabs (v_db v')) = Some r"
    using store_keys [OF run ok law] r by (auto simp: same_keys_def find_user_def)
  ultimately show "\<exists>r s. find_user u (db_tabs (v_db v')) = Some r
    \<and> find_secret (u_id r) n (db_tabs (v_db v')) = Some s \<and> s_public_key s = None" using s r by auto
  show "current (db_tabs (v_db v'))" if "current (db_tabs (v_db v))"
    using that row u audit k r(6) unfolding v' by (simp add: current_def)
qed

text \<open>A secret stored without a public key comes back from every handle on the same rows: the audit log
  may have changed in between, as it does when a database is closed and opened again.\<close>

lemma get_stored:
  assumes run: "ssm_secret_store cr (Some u) (Some pk) pub 0 (Some n) d v = (SSM_OK, v1)"
    and ok: "vault_ok cr v" and law: "lawful cr" and len: "length pk \<le> 65536"
    and later: "vault_ok cr w" "same_but_audit (db_tabs (v_db v1)) (db_tabs (v_db w))"
      "m_now (v_mach w) = m_now (v_mach v1)"
    and h: "healthy (v_db w)" "m_alloc (v_mach w) = []"
  shows "\<exists>g w'. get_with_retry cr u n w = (SSM_OK, g, w') \<and> go_private_len g = Some (length pk)
    \<and> go_public_len g = Some 0 \<and> (\<exists>r. go_private g = Some (pk @ r)) \<and> db_null (v_db w') = db_null (v_db w)"
proof -
  let ?t1 = "db_tabs (v_db v1)" and ?t = "db_tabs (v_db w)"
  have l: "length pk < 2 ^ 31" using len by simp
  have same: "t_users ?t = t_users ?t1" "t_keks ?t = t_keks ?t1" "t_secrets ?t = t_secrets ?t1"
    using same_but_auditD [OF later(2)] by simp_all
  have c: "contents cr ?t (u, n) = Some pk" using store_effect [OF run ok law l] later(2) by simp
  obtain r kr kek s where s: "find_user u ?t = Some r" "find_kek (u_id r) ?t = Some kr"
    "kek_open cr (u_password_hash r) kr = Some kek" "find_secret (u_id r) n ?t = Some s"
    "open_secret cr kek s = Some pk" using contents_Some [OF c] by blast
  have e: "\<not> kek_is_expired (m_now (v_mach w)) (Some (k_expires_at kr))"
    using store_keys [OF run ok law] s(1,2) same later(3)
    by (auto simp: same_keys_def find_user_def find_kek_def)
  have p: "s_public_key s = None"
    using store_no_public(1) [OF run ok law] s same by (auto simp: find_user_def find_secret_def)
  have ls: "length (s_private_key s) = length pk"
    using s(5) by (auto simp: open_secret_def dest: lawful_open [OF law] split: if_splits)
  obtain st g w' where get: "ssm_secret_get cr (Some u) (Some n) key_buffers w = (st, g, w')"
    by (metis prod_cases3)
  have kb: "go_private key_buffers = Some (replicate 65536 0)" "go_private_len key_buffers = Some 65536"
    by (simp_all only: key_buffers_def key_out.select_convs)
  have "(st, g) = (SSM_OK, key_buffers\<lparr>go_private := Some (copy_to pk (replicate 65536 0)),
      go_private_len := Some (length pk), go_public_len := Some 0\<rparr>)"
    unfolding get_follows_spec [OF h(1) later(1) law h(2) kb get] using s e p ls len
    by (simp add: spec_get_def Let_def put_public_def read_secret_row_def key_buffers_def)
  moreover have "vault_ok cr w'" using get_secret_ok [OF later(1) law, of "Some u" "Some n" key_buffers] get by simp
  ultimately show ?thesis
    using get vault_ok_D(1) [of cr w'] h(1) by (simp add: get_with_retry_def copy_to_def steady_def healthy_def)
qed

lemma get_after_store:
  assumes run: "ssm_secret_store cr (Some u) (Some pk) pub 0 (Some n) d v = (SSM_OK, v1)"
    and ok: "vault_ok cr v" and law: "lawful cr" and len: "length pk \<le> 65536"
    and h: "healthy (v_db v1)" "m_alloc (v_mach v1) = []"
  shows "\<exists>g v2. get_with_retry cr u n v1 = (SSM_OK, g, v2) \<and> go_private_len g = Some (length pk)
    \<and> go_public_len g = Some 0 \<and> (\<exists>r. go_private g = Some (pk @ r))"
proof -
  have "vault_ok cr v1" using store_secret_ok [OF ok law, of "Some u" "Some pk" pub 0 "Some n" d] run by simp
  from get_stored [OF run ok law len this _ _ h] show ?thesis by auto
qed

lemma posted:
  assumes "json_law js" and "parse_body js req = Some (True, JObj kvs)"
    and "map_of kvs ''name'' = Some (JStr n)" and "map_of kvs ''private_key'' = Some (JStr (hex_encode pk))"
    and "map_of kvs ''public_key'' = None" and "map_of kvs ''description'' = None" and "c_str n = n"
    and run: "handle_secret_store_req js cr req m sv = (Reply HTTP_CREATED w, sv1)"
  shows "\<exists>v1. ssm_secret_store cr (Some (rm_username m)) (Some pk) (vec_data []) 0 (Some n) None (sv_vault sv)
      = (SSM_OK, v1) \<and> sv1 = sv\<lparr>sv_vault := v1\<rparr>"
proof -
  have k: "''name'' \<in> fst ` set kvs" "''private_key'' \<in> fst ` set kvs"
    using assms(3,4) by (metis map_of_eq_None_iff option.distinct(1))+
  have j: "has_members js (JObj kvs) [''name'', ''private_key''] = Some True"
    "string_at js (JObj kvs) ''name'' = Some n" "string_at js (JObj kvs) ''private_key'' = Some (hex_encode pk)"
    "string_or_empty js (JObj kvs) ''public_key'' = Some []" "string_or_empty js (JObj kvs) ''description'' = Some []"
    using assms(1,3-6) k by (simp_all add: json_law_def string_at_def string_or_empty_def)
  have hex: "hex_decode_vec (hex_encode pk) [] = (if pk = [] then (False, []) else (True, pk))"
    by (simp add: hex_decode_vec_def)
  show ?thesis
    using run assms(2,7) j
    by (auto simp: handle_secret_store_req_def with_body_def with_value_def hex reply_error_def reply_status_def
        reply_created_def reply_json_def HTTP_CREATED_def HTTP_BADREQUEST_def split: prod.splits if_splits)
qed

text \<open>The answer to a \<open>GET\<close> of a secret that \<open>get_with_retry\<close> delivers.\<close>

lemma get_request_answers:
  assumes names: "plain_part u" "plain_part n"
    and get: "rq_method get = Http_Get" "rq_uri get = ''/v1/users/'' @ u @ ''/secrets/'' @ n" "check_api_key get sv" "rq_buffer get"
    and g: "get_with_retry cr u n (sv_vault sv) = (SSM_OK, g, v2)" "go_private_len g = Some (length pk)"
      "go_public_len g = Some 0" "go_private g = Some (pk @ r)"
  shows "fst (request_handler js cr vd get sv) = Reply HTTP_OK (JObj [(''private_key'', JStr (hex_encode pk))])"
proof -
  have "path_only get = ''/v1/users/'' @ u @ ''/secrets/'' @ n"
    using names get(2) path_of_plain [of get] by (auto simp: plain_part_def)
  from user_request [OF this get(3) secrets_route(2) [OF names]]
  have "request_handler js cr vd get sv
      = handle_secret_get_req cr get \<lparr>rm_username = u, rm_resource = ''secrets/'' @ n, rm_matched = True\<rparr> sv"
    using get(1) by (simp add: user_routes_def)
  moreover have "n \<noteq> []" using names(2) by (simp add: plain_part_def)
  ultimately show ?thesis
    using g get(4) by (simp add: handle_secret_get_req_def secret_name_def reply_ok_def reply_json_def)
qed

text \<open>
  What is posted comes back: after a successful \<open>POST\<close> of a secret, a \<open>GET\<close> of its name answers with
  exactly the hexadecimal text of the private key that was sent, through routing, JSON, hexadecimal
  decoding, encryption, the database and all the way back.
\<close>

theorem posted_secret_comes_back:
  assumes law: "lawful cr" "json_law js" and ok: "vault_ok cr (sv_vault sv)"
    and names: "plain_part u" "plain_part n" "c_str n = n" and len: "length pk \<le> 65536"
    and post: "rq_method post = Http_Post" "rq_uri post = ''/v1/users/'' @ u @ ''/secrets''"
      "check_api_key post sv" "parse_body js post = Some (True, JObj kvs)"
      "map_of kvs ''name'' = Some (JStr n)" "map_of kvs ''private_key'' = Some (JStr (hex_encode pk))"
      "map_of kvs ''public_key'' = None" "map_of kvs ''description'' = None"
    and run: "request_handler js cr vd post sv = (Reply HTTP_CREATED w, sv1)"
    and working: "healthy (v_db (sv_vault sv1))" "m_alloc (v_mach (sv_vault sv1)) = []"
    and get: "rq_method get = Http_Get" "rq_uri get = ''/v1/users/'' @ u @ ''/secrets/'' @ n"
      "check_api_key get sv1" "rq_buffer get"
  shows "fst (request_handler js cr vd get sv1) = Reply HTTP_OK (JObj [(''private_key'', JStr (hex_encode pk))])"
proof -
  let ?m = "\<lparr>rm_username = u, rm_resource = ''secrets'', rm_matched = True\<rparr>"
  have "path_only post = ''/v1/users/'' @ u @ ''/secrets''"
    using names(1) post(2) path_of_plain [of post] by (auto simp: plain_part_def)
  from user_request [OF this post(3) secrets_route(1) [OF names(1,2)]]
  have "handle_secret_store_req js cr post ?m sv = (Reply HTTP_CREATED w, sv1)"
    using run post(1) by (simp add: user_routes_def)
  from posted [OF law(2) post(4-8) names(3) this] obtain v1 where
    st: "ssm_secret_store cr (Some u) (Some pk) (vec_data []) 0 (Some n) None (sv_vault sv) = (SSM_OK, v1)"
    and sv1: "sv1 = sv\<lparr>sv_vault := v1\<rparr>" by auto
  obtain g v2 r where g: "get_with_retry cr u n (sv_vault sv1) = (SSM_OK, g, v2)" "go_private_len g = Some (length pk)"
    "go_public_len g = Some 0" "go_private g = Some (pk @ r)"
    using get_after_store [OF st ok law(1) len] working sv1 by auto
  show ?thesis by (rule get_request_answers [OF names(1,2) get g])
qed

subsection \<open>Bodies that end the server\<close>

lemma auth_route:
  assumes "plain_part u"
  shows "match_user_route (''/v1/users/'' @ u @ ''/auth'') False
      = \<lparr>rm_username = u, rm_resource = ''auth'', rm_matched = True\<rparr>"
  using assms route_of_user [of "u @ ''/auth''"] by (simp add: match_user_route_def plain_part_def Let_def)

text \<open>
  C38. Well-formed JSON of the wrong shape ends the server: when the body of an authentication is an array,
  a string, a number or a truth value, or an object whose password is no string, JsonCpp raises an exception
  that nothing catches; so it does when the body is nested too deep for its reader. The vault is not touched.
\<close>

theorem wrong_shape_ends_server:
  assumes law: "json_law js" and u: "plain_part u" and key: "check_api_key req sv"
    and req: "rq_method req = Http_Post" "rq_uri req = ''/v1/users/'' @ u @ ''/auth''"
    and body: "parse_body js req = None
      \<or> (\<exists>body. parse_body js req = Some (True, body)
          \<and> (body \<in> range JArr \<union> range JStr \<union> range JInt \<union> range JReal \<union> range JBool
             \<or> (\<exists>kvs v. body = JObj kvs \<and> map_of kvs ''password'' = Some v \<and> (\<forall>s. v \<noteq> JStr s))))"
  shows "request_handler js cr vd req sv = (Terminated, sv)"
proof -
  let ?m = "\<lparr>rm_username = u, rm_resource = ''auth'', rm_matched = True\<rparr>"
  have "path_only req = ''/v1/users/'' @ u @ ''/auth''"
    using u req(2) path_of_plain [of req] by (auto simp: plain_part_def)
  from user_request [OF this key auth_route [OF u]]
  have "request_handler js cr vd req sv = handle_user_auth_req js cr req ?m sv"
    using req(1) by (simp add: user_routes_def only_def)
  moreover have "''password'' \<in> fst ` set kvs" if "map_of kvs ''password'' = Some v" for kvs and v :: json
    using that by (metis map_of_eq_None_iff option.distinct(1))
  ultimately show ?thesis using body law
    by (auto simp: handle_user_auth_req_def with_body_def with_value_def cstring_at_def json_law_def)
qed

end
