(* ===== verification/Sample_Server.thy ===== *)
theory Sample_Server
  imports Sample_Claims Rest_Behaviour
begin

section \<open>The theorems about the server, applied to one\<close>

text \<open>A JsonCpp that reads every body but \<open>[]\<close> as one object, and a server without an API key on the
  sample handle.\<close>

definition sample_body :: json where
  "sample_body = JObj [(''name'', JStr ''j''), (''private_key'', JStr (hex_encode [7, 8]))]"

definition sample_json :: json_lib where
  "sample_json = \<lparr>js_parse = (\<lambda>s. Parsed (if s = ''[]'' then JArr [] else sample_body)),
     js_is_member = (\<lambda>v k. case v of JObj kvs \<Rightarrow> Some (k \<in> fst ` set kvs) | JNull \<Rightarrow> Some False | _ \<Rightarrow> None),
     js_at = (\<lambda>v k. case v of JObj kvs \<Rightarrow> Some (case map_of kvs k of None \<Rightarrow> JNull | Some x \<Rightarrow> x) | _ \<Rightarrow> None),
     js_get = (\<lambda>v k d. case v of JObj kvs \<Rightarrow> Some (case map_of kvs k of None \<Rightarrow> d | Some x \<Rightarrow> x) | _ \<Rightarrow> Some d),
     js_as_string = (\<lambda>v. case v of JStr s \<Rightarrow> Some s | JNull \<Rightarrow> Some [] | _ \<Rightarrow> None),
     js_as_cstring = (\<lambda>v. case v of JStr s \<Rightarrow> Some (c_str s) | _ \<Rightarrow> None)\<rparr>"

lemma sample_json_law: "json_law sample_json"
  by (auto simp: json_law_def sample_json_def split: json.split)

definition sample_server :: server where
  "sample_server = \<lparr>sv_vault = sample_vault, sv_host = sample_host, sv_api_key = []\<rparr>"

definition sample_post :: request where
  "sample_post = \<lparr>rq_method = Http_Post, rq_uri = ''/v1/users/ann/secrets'', rq_header = (\<lambda>_. None),
     rq_body = ''{}'', rq_buffer = True\<rparr>"

definition sample_get :: request where
  "sample_get = \<lparr>rq_method = Http_Get, rq_uri = ''/v1/users/ann/secrets/j'', rq_header = (\<lambda>_. None),
     rq_body = [], rq_buffer = True\<rparr>"

definition sample_auth :: request where
  "sample_auth = \<lparr>rq_method = Http_Post, rq_uri = ''/v1/users/ann/auth'', rq_header = (\<lambda>_. None),
     rq_body = ''[]'', rq_buffer = True\<rparr>"

lemma sample_server_simps [simp]:
  "sv_vault sample_server = sample_vault" "check_api_key req sample_server"
  "sv_api_key sample_server = []"
  by (simp_all add: sample_server_def check_api_key_def)

lemma sample_parts: "plain_part ''ann''" "plain_part ''j''" "plain_part ''k''" "c_str ''j'' = ''j''"
  by code_simp+

theorem no_key_no_access_witness:
  "snd (request_handler sample_json sample sample_vd sample_post (sample_server\<lparr>sv_api_key := ''s''\<rparr>))
    = sample_server\<lparr>sv_api_key := ''s''\<rparr>"
  using no_key_no_access [of "sample_server\<lparr>sv_api_key := ''s''\<rparr>" sample_post sample_json sample sample_vd]
  by (simp add: sample_post_def)

theorem server_keeps_invariant_witness:
  "vault_ok sample (sv_vault (snd (serve sample_json sample sample_vd [sample_post, sample_get, sample_auth]
     sample_server)))"
proof -
  have "\<forall>req \<in> set [sample_post, sample_get, sample_auth]. \<not> restores req"
    by (simp add: restores_def path_only_def sample_post_def sample_get_def sample_auth_def)
  from server_keeps_invariant [OF _ sample_lawful this, of sample_server] show ?thesis
    using sample_ok by simp
qed

theorem route_cuts_names_witness:
  "request_handler sample_json sample sample_vd (sample_get\<lparr>rq_uri := ''/v1/users/ann/secrets/k/old'', rq_method := Http_Delete\<rparr>)
      sample_server
    = handle_secret_delete_req (sample_get\<lparr>rq_uri := ''/v1/users/ann/secrets/k/old'', rq_method := Http_Delete\<rparr>)
        \<lparr>rm_username = ''ann'', rm_resource = ''secrets/k'', rm_matched = True\<rparr> sample_server"
  using route_cuts_names [OF sample_parts(1,3), of "sample_get\<lparr>rq_uri := ''/v1/users/ann/secrets/k/old'', rq_method := Http_Delete\<rparr>"
      sample_server "''old''"] by simp

theorem wrong_shape_ends_server_witness:
  "request_handler sample_json sample sample_vd sample_auth sample_server = (Terminated, sample_server)"
proof -
  have "parse_body sample_json sample_auth = Some (True, JArr [])"
    by (simp add: parse_body_def sample_auth_def sample_json_def)
  then have "parse_body sample_json sample_auth = None \<or> (\<exists>body. parse_body sample_json sample_auth = Some (True, body)
      \<and> (body \<in> range JArr \<union> range JStr \<union> range JInt \<union> range JReal \<union> range JBool
         \<or> (\<exists>kvs v. body = JObj kvs \<and> map_of kvs ''password'' = Some v \<and> (\<forall>s. v \<noteq> JStr s))))" by auto
  from wrong_shape_ends_server [OF sample_json_law sample_parts(1) _ _ _ this] show ?thesis
    by (simp add: sample_auth_def)
qed

lemma post_any:
  assumes "sv_vault sv = sample_vault" and "sv_api_key sv = []"
  shows "\<exists>w v1. request_handler sample_json sample sample_vd sample_post sv = (Reply HTTP_CREATED w, sv\<lparr>sv_vault := v1\<rparr>)
    \<and> healthy (v_db v1) \<and> m_alloc (v_mach v1) = []
    \<and> ssm_secret_store sample (Some ''ann'') (Some [7, 8]) None 0 (Some ''j'') None sample_vault = (SSM_OK, v1)"
proof -
  have key: "check_api_key sample_post sv" using assms(2) by (simp add: check_api_key_def)
  obtain v1 where st: "ssm_secret_store sample (Some ''ann'') (Some [7, 8]) None 0 (Some ''j'') None sample_vault
      = (SSM_OK, v1)" and h: "healthy (v_db v1)" "m_alloc (v_mach v1) = []"
    using store_sample by blast
  have p: "path_only sample_post = ''/v1/users/'' @ ''ann'' @ ''/secrets''"
    by (simp add: path_only_def sample_post_def)
  have b: "parse_body sample_json sample_post = Some (True, sample_body)"
    by (simp add: parse_body_def sample_post_def sample_json_def)
  have hex: "hex_decode_vec (hex_encode [7, 8]) [] = (True, [7, 8])"
    by (simp add: hex_decode_vec_def del: hex_encode_simps)
  have q: "rq_method sample_post = Http_Post" "rq_buffer sample_post" by (simp_all add: sample_post_def)
  have j: "has_members sample_json sample_body [''name'', ''private_key''] = Some True"
    "string_at sample_json sample_body ''name'' = Some ''j''"
    "string_at sample_json sample_body ''private_key'' = Some (hex_encode [7, 8])"
    "string_or_empty sample_json sample_body ''public_key'' = Some []"
    "string_or_empty sample_json sample_body ''description'' = Some []"
    by (simp_all add: sample_json_def sample_body_def string_at_def string_or_empty_def)
  from user_request [OF p key secrets_route(1) [OF sample_parts(1,3)]] show ?thesis
    using st h sample_parts(4) assms
    by (simp add: user_routes_def handle_secret_store_req_def with_body_def with_value_def b j q hex
        reply_created_def reply_json_def del: has_members.simps hex_encode_simps)
      (simp add: vec_data_def reply_created_def reply_json_def q)
qed

lemma post_sample:
  "\<exists>w sv1. request_handler sample_json sample sample_vd sample_post sample_server = (Reply HTTP_CREATED w, sv1)
    \<and> healthy (v_db (sv_vault sv1)) \<and> m_alloc (v_mach (sv_vault sv1)) = [] \<and> sv_api_key sv1 = []"
  using post_any [of sample_server] by force

theorem posted_secret_comes_back_witness:
  "\<exists>w sv1. request_handler sample_json sample sample_vd sample_post sample_server = (Reply HTTP_CREATED w, sv1)
    \<and> fst (request_handler sample_json sample sample_vd sample_get sv1)
       = Reply HTTP_OK (JObj [(''private_key'', JStr (hex_encode [7, 8]))])"
proof -
  obtain w sv1 where run:
    "request_handler sample_json sample sample_vd sample_post sample_server = (Reply HTTP_CREATED w, sv1)"
    and h: "healthy (v_db (sv_vault sv1))" "m_alloc (v_mach (sv_vault sv1)) = []" and k: "sv_api_key sv1 = []"
    using post_sample by blast
  have b: "parse_body sample_json sample_post = Some (True, JObj [(''name'', JStr ''j''), (''private_key'', JStr (hex_encode [7, 8]))])"
    by (simp add: parse_body_def sample_post_def sample_json_def sample_body_def)
  have g: "check_api_key sample_get sv1" using k by (simp add: check_api_key_def)
  from posted_secret_comes_back [OF sample_lawful sample_json_law _ sample_parts(1,2,4) _ _ _ _ b _ _ _ _ run h _ _ g]
  show ?thesis using run sample_ok by (simp add: sample_post_def sample_get_def del: hex_encode_simps)
qed

end
