(* ===== verification/Cli.thy ===== *)
theory Cli
  imports Rest_Server Lifecycle "HOL-Library.Sublist"
begin

section \<open>The command-line tool (\<open>cli/ssm_cli.cc\<close>)\<close>

text \<open>
  A command is one process: it opens the database, makes its calls, closes it and exits. The globals of
  the program are a record, and so is the machine around it: the host of \<open>Backup\<close> with the disk, the
  bytes of a database file that holds given tables under a key (\<open>wo_image\<close>) and the tables read from such
  bytes (\<open>wo_load\<close>), what \<open>ssm_init\<close> needs, standard input, whether it is a terminal and what \<open>getpass\<close>
  reads there, the environment, the parsed configuration files and whether \<open>execvp\<close> works.

  A command ends with an exit code, as another program with variables set, or by an exception nothing
  catches. Standard output is a list of texts, where the constant help texts are named by their topic;
  standard error is not modelled.
\<close>

record globals =
  gl_db_path :: string
  gl_db_key :: bytes
  gl_db_key_len :: nat
  gl_backup_key :: bytes
  gl_backup_key_len :: nat
  gl_json :: bool
  gl_password :: string

record world =
  wo_host :: host
  wo_image :: "bytes option \<Rightarrow> tables \<Rightarrow> bytes"
  wo_load :: "bytes option \<Rightarrow> bytes \<Rightarrow> tables option"
  wo_sodium :: bool
  wo_malloc :: bool
  wo_mach :: machine
  wo_input :: string
  wo_tty :: bool
  wo_getpass :: "string option list"
  wo_getenv :: "string \<Rightarrow> string option"
  wo_config :: "string \<Rightarrow> json option"
  wo_exec :: bool

datatype finish = Exit nat | Exec "(string \<times> string) list" "string list" | Uncaught

datatype out = Print string | Help string

abbreviation println :: "string \<Rightarrow> out" where
  "println s \<equiv> Print (s @ [end_of_line])"

subsection \<open>Passwords\<close>

definition read_password :: "world \<Rightarrow> string option \<times> world" where
  "read_password w =
     (if wo_tty w
      then (case wo_getpass w of [] \<Rightarrow> (None, w) | x # xs \<Rightarrow> (x, w\<lparr>wo_getpass := xs\<rparr>))
      else (case fgets 4096 (wo_input w) of
              (None, rest) \<Rightarrow> (None, w\<lparr>wo_input := rest\<rparr>)
            | (Some l, rest) \<Rightarrow>
                (let s = c_str l
                 in (Some (if s \<noteq> [] \<and> last s = end_of_line then butlast s else s), w\<lparr>wo_input := rest\<rparr>))))"

definition prompt_password :: "globals \<Rightarrow> world \<Rightarrow> string option \<times> world" where
  "prompt_password g w = (if gl_password g \<noteq> [] then (Some (gl_password g), w) else read_password w)"

text \<open>\<open>die\<close> ends the program with exit code 1.\<close>

definition with_password ::
  "globals \<Rightarrow> world \<Rightarrow> (string \<Rightarrow> world \<Rightarrow> finish \<times> out list \<times> world) \<Rightarrow> finish \<times> out list \<times> world" where
  "with_password g w rest =
     (case prompt_password g w of (None, w1) \<Rightarrow> (Exit 1, [], w1) | (Some pw, w1) \<Rightarrow> rest pw w1)"

subsection \<open>Opening and closing the database\<close>

definition db_key_of :: "globals \<Rightarrow> bytes option" where
  "db_key_of g = (if gl_db_key_len g \<noteq> 0 then Some (take (gl_db_key_len g) (gl_db_key g)) else None)"

definition read_tables :: "bytes option \<Rightarrow> world \<Rightarrow> string \<Rightarrow> tables option" where
  "read_tables key w p =
     (case dk_files (ho_disk (wo_host w)) p of
        None \<Rightarrow> Some empty_tables
      | Some b \<Rightarrow> if b = [] then Some empty_tables else wo_load w key b)"

definition os_of :: "bytes option \<Rightarrow> world \<Rightarrow> os_env" where
  "os_of key w = \<lparr>os_sodium = wo_sodium w, os_cipher = ho_cipher (wo_host w), os_files = read_tables key w,
     os_conn = ho_conn (wo_host w), os_mach = wo_mach w, os_malloc = wo_malloc w\<rparr>"

definition on_disk :: "(disk \<Rightarrow> disk) \<Rightarrow> world \<Rightarrow> world" where
  "on_disk f w = w\<lparr>wo_host := (wo_host w)\<lparr>ho_disk := f (ho_disk (wo_host w))\<rparr>\<rparr>"

definition save_tables :: "globals \<Rightarrow> tables \<Rightarrow> world \<Rightarrow> world" where
  "save_tables g t w =
     (if in_memory (gl_db_path g) then w
      else on_disk (set_file (gl_db_path g) (Some (wo_image w (db_key_of g) t))) w)"

text \<open>\<open>ssm_destroy\<close>, which brings the tables to the file.\<close>

definition close_handle :: "globals \<Rightarrow> vault \<Rightarrow> world \<Rightarrow> world" where
  "close_handle g v w =
     (case ssm_destroy (Some v) of
        (st, None) \<Rightarrow> w
      | (st, Some (t, _)) \<Rightarrow> (if db_null (v_db v) then id else save_tables g t) (w\<lparr>wo_mach := v_mach v\<rparr>))"

text \<open>\<open>ssm_init\<close>, the calls, \<open>ssm_destroy\<close>; the answer is \<open>None\<close> when the first fails.\<close>

definition with_vault ::
  "globals \<Rightarrow> world \<Rightarrow> (vault \<Rightarrow> world \<Rightarrow> 'a \<times> vault \<times> world) \<Rightarrow> 'a option \<times> world" where
  "with_vault g w calls =
     (case ssm_init (os_of (db_key_of g) w) True (Some (gl_db_path g)) (db_key_of g) of
        (st, None, left) \<Rightarrow> (None, case left of None \<Rightarrow> w | Some t \<Rightarrow> save_tables g t w)
      | (st, Some v, left) \<Rightarrow> (let (a, v1, w1) = calls v w in (Some a, close_handle g v1 w1)))"

text \<open>The common shape of a handler: one call, \<open>die_status\<close> unless it succeeds, then its output.\<close>

definition session ::
  "globals \<Rightarrow> world \<Rightarrow> (vault \<Rightarrow> ssm_status \<times> 'a \<times> vault) \<Rightarrow> ('a \<Rightarrow> world \<Rightarrow> finish \<times> out list \<times> world)
   \<Rightarrow> finish \<times> out list \<times> world" where
  "session g w the_call display =
     (case with_vault g w (\<lambda>v w. let (st, a, v1) = the_call v in ((st, a), v1, w)) of
        (None, w1) \<Rightarrow> (Exit 1, [], w1)
      | (Some (st, a), w1) \<Rightarrow> if st \<noteq> SSM_OK then (Exit 1, [], w1) else display a w1)"

abbreviation plain :: "ssm_status \<times> vault \<Rightarrow> ssm_status \<times> unit \<times> vault" where
  "plain r \<equiv> (fst r, (), snd r)"

subsection \<open>Users\<close>

definition handle_user_register ::
  "provider \<Rightarrow> validator \<Rightarrow> globals \<Rightarrow> world \<Rightarrow> string list \<Rightarrow> finish \<times> out list \<times> world" where
  "handle_user_register cr vd g w args =
     (case args of
        [] \<Rightarrow> (Exit 1, [Help ''user''], w)
      | u # _ \<Rightarrow> with_password g w (\<lambda>pw w1.
          session g w1 (\<lambda>v. plain (ssm_user_register cr vd (Some u) (Some (c_str pw)) v)) (\<lambda>_ w2.
            (Exit 0, [println (''OK: user '' @ quoted u @ '' registered'')], w2))))"

definition handle_user_auth ::
  "provider \<Rightarrow> globals \<Rightarrow> world \<Rightarrow> string list \<Rightarrow> finish \<times> out list \<times> world" where
  "handle_user_auth cr g w args =
     (case args of
        [] \<Rightarrow> (Exit 1, [Help ''user''], w)
      | u # _ \<Rightarrow> with_password g w (\<lambda>pw w1.
          session g w1 (\<lambda>v. ssm_user_authenticate cr (Some u) (Some (c_str pw)) (Some 0) v) (\<lambda>is_valid w2.
            let ok = (the is_valid \<noteq> 0)
            in (Exit (if ok then 0 else 1),
                [println (if gl_json g then ''{\"authenticated\":'' @ (if ok then ''true'' else ''false'') @ ''}''
                          else if ok then ''OK: authenticated'' else ''FAIL: invalid credentials'')], w2))))"

definition handle_user_delete ::
  "provider \<Rightarrow> globals \<Rightarrow> world \<Rightarrow> string list \<Rightarrow> finish \<times> out list \<times> world" where
  "handle_user_delete cr g w args =
     (case args of
        [] \<Rightarrow> (Exit 1, [Help ''user''], w)
      | u # _ \<Rightarrow>
          (case fgets 64 (wo_input w) of
             (None, rest) \<Rightarrow> (Exit 1, [], w\<lparr>wo_input := rest\<rparr>)
           | (Some confirm, rest) \<Rightarrow>
               (if c_str confirm \<noteq> ''yes'' @ [end_of_line]
                then (Exit 1, [println ''aborted''], w\<lparr>wo_input := rest\<rparr>)
                else with_password g (w\<lparr>wo_input := rest\<rparr>) (\<lambda>pw w1.
                  session g w1 (\<lambda>v. plain (ssm_user_delete cr (Some u) (Some (c_str pw)) v)) (\<lambda>_ w2.
                    (Exit 0, [println (''OK: user '' @ quoted u @ '' and all data deleted'')], w2))))))"

definition handle_user_change_password ::
  "provider \<Rightarrow> validator \<Rightarrow> globals \<Rightarrow> world \<Rightarrow> string list \<Rightarrow> finish \<times> out list \<times> world" where
  "handle_user_change_password cr vd g w args =
     (case args of
        [] \<Rightarrow> (Exit 1, [Help ''user''], w)
      | u # _ \<Rightarrow> with_password g w (\<lambda>old_pw w1.
          (case read_password w1 of
             (None, w2) \<Rightarrow> (Exit 1, [], w2)
           | (Some new_pw, w2) \<Rightarrow>
               session g w2 (\<lambda>v. plain (ssm_user_change_password cr vd (Some u) (Some (c_str old_pw))
                   (Some (c_str new_pw)) v)) (\<lambda>_ w3.
                 (Exit 0, [println (''OK: password changed for '' @ quoted u)], w3)))))"

subsection \<open>Export\<close>

fun export_args :: "string list \<Rightarrow> ssm_export_format \<Rightarrow> bool \<Rightarrow> (ssm_export_format \<times> bool) option" where
  "export_args [] fm redact = Some (fm, redact)"
| "export_args (a # args) fm redact =
     (case args of
        [] \<Rightarrow> if a = ''--redact-pii'' then Some (fm, True) else None
      | x # rest \<Rightarrow>
          (if a = ''--format'' then export_args rest (if x = ''csv'' then SSM_EXPORT_CSV else fm) redact
           else if a = ''--redact-pii'' then export_args args fm True
           else None))"

definition handle_export :: "globals \<Rightarrow> world \<Rightarrow> string list \<Rightarrow> finish \<times> out list \<times> world" where
  "handle_export g w args =
     (case export_args args SSM_EXPORT_JSON False of
        None \<Rightarrow> (Exit 1, [], w)
      | Some (fm, redact) \<Rightarrow>
          session g w (ssm_export fm redact True) (\<lambda>text w1.
            (Exit 0, (case text of None \<Rightarrow> [] | Some t \<Rightarrow> [Print t]), w1)))"

subsection \<open>Secrets\<close>

text \<open>Options with a value after the positional arguments; what is not known is passed over.\<close>

fun option_value :: "string \<Rightarrow> string list \<Rightarrow> string list \<Rightarrow> string option \<Rightarrow> string option" where
  "option_value name known [] found = found"
| "option_value name known (a # args) found =
     (case args of
        [] \<Rightarrow> found
      | x # rest \<Rightarrow>
          (if a \<in> set known then option_value name known rest (if a = name then Some x else found)
           else option_value name known args found))"

definition read_public :: "string \<Rightarrow> disk \<Rightarrow> bytes option \<times> disk" where
  "read_public path d =
     (let (x, d1) = next_io d in (if x \<noteq> Io_Works then None else dk_files d1 path, d1))"

definition handle_secret_store ::
  "provider \<Rightarrow> globals \<Rightarrow> world \<Rightarrow> string list \<Rightarrow> finish \<times> out list \<times> world" where
  "handle_secret_store cr g w args =
     (case args of
        u # n # key_path # opts \<Rightarrow>
          (let pub_path = option_value ''--pub'' [''--pub'', ''--desc''] opts None;
               desc = option_value ''--desc'' [''--pub'', ''--desc''] opts None;
               (key_buf, d1) = read_file key_path (ho_disk (wo_host w));
               w1 = on_disk (\<lambda>_. d1) w
           in case key_buf of
                None \<Rightarrow> (Exit 1, [], w1)
              | Some key \<Rightarrow>
                  (let (pub_buf, d2) = (case pub_path of None \<Rightarrow> (Some [], d1) | Some p \<Rightarrow> read_public p d1);
                       w2 = on_disk (\<lambda>_. d2) w1
                   in case pub_buf of
                        None \<Rightarrow> (Exit 1, [], w2)
                      | Some pub \<Rightarrow> with_password g w2 (\<lambda>pw w3.
                          session g w3 (\<lambda>v. plain (ssm_secret_store cr (Some u) (Some key) (vec_data pub)
                              (length pub) (Some n) desc v)) (\<lambda>_ w4.
                            (Exit 0, [println (''OK: secret '' @ quoted n @ '' stored for '' @ quoted u)], w4)))))
      | _ \<Rightarrow> (Exit 1, [Help ''secret''], w))"

text \<open>Writing a key to a file; neither \<open>fwrite\<close> nor \<open>fclose\<close> is looked at.\<close>

definition put_file :: "string \<Rightarrow> bytes \<Rightarrow> disk \<Rightarrow> bool \<times> disk" where
  "put_file path data d =
     (let (x, d1) = next_io d
      in case x of
           Io_Works \<Rightarrow> (True, set_file path (Some data) d1)
         | Io_Open \<Rightarrow> (False, d1)
         | Io_Short n \<Rightarrow> (True, set_file path (Some (take n data)) d1)
         | Io_Flush n \<Rightarrow> (True, set_file path (Some (take n data)) d1))"

definition string_of_bytes :: "bytes \<Rightarrow> string" where
  "string_of_bytes b = map (\<lambda>x. char_of (unat x)) b"

definition written_key :: "string \<Rightarrow> bytes \<Rightarrow> string \<Rightarrow> out" where
  "written_key kind data path =
     println (''OK: '' @ kind @ '' key ('' @ decimal (length data) @ '' bytes) written to '' @ path)"

definition show_keys ::
  "string option \<Rightarrow> string option \<Rightarrow> bytes \<Rightarrow> bytes \<Rightarrow> world \<Rightarrow> finish \<times> out list \<times> world" where
  "show_keys out_path pub_out_path priv pub w =
     (let (ok1, out1, d1) =
            (case out_path of
               None \<Rightarrow> (True, [Print (string_of_bytes priv), Print [end_of_line]], ho_disk (wo_host w))
             | Some p \<Rightarrow> (let (ok, d) = put_file p priv (ho_disk (wo_host w))
                          in (ok, if ok then [written_key ''private'' priv p] else [], d)));
          w1 = on_disk (\<lambda>_. d1) w
      in if \<not> ok1 then (Exit 1, out1, w1)
         else (case pub_out_path of
                 None \<Rightarrow> (Exit 0, out1, w1)
               | Some p \<Rightarrow>
                   (if pub = [] then (Exit 0, out1, w1)
                    else (let (ok, d2) = put_file p pub d1; w2 = on_disk (\<lambda>_. d2) w1
                          in if ok then (Exit 0, out1 @ [written_key ''public'' pub p], w2)
                             else (Exit 1, out1, w2)))))"

definition handle_secret_get ::
  "provider \<Rightarrow> globals \<Rightarrow> world \<Rightarrow> string list \<Rightarrow> finish \<times> out list \<times> world" where
  "handle_secret_get cr g w args =
     (case args of
        u # n # opts \<Rightarrow> with_password g w (\<lambda>pw w1.
          session g w1 (get_with_retry cr u n) (\<lambda>k.
            show_keys (option_value ''--out'' [''--out'', ''--pub-out''] opts None)
              (option_value ''--pub-out'' [''--out'', ''--pub-out''] opts None)
              (resize_to (the (go_private_len k)) (the (go_private k)))
              (resize_to (the (go_public_len k)) (the (go_public k)))))
      | _ \<Rightarrow> (Exit 1, [Help ''secret''], w))"

definition handle_secret_delete :: "globals \<Rightarrow> world \<Rightarrow> string list \<Rightarrow> finish \<times> out list \<times> world" where
  "handle_secret_delete g w args =
     (case args of
        u # n # _ \<Rightarrow> with_password g w (\<lambda>pw w1.
          session g w1 (\<lambda>v. plain (ssm_secret_delete (Some u) (Some n) v)) (\<lambda>_ w2.
            (Exit 0, [println (''OK: secret '' @ quoted n @ '' deleted'')], w2)))
      | _ \<Rightarrow> (Exit 1, [Help ''secret''], w))"

text \<open>The JSON of the list is printed with \<open>%s\<close>: nothing is escaped.\<close>

definition dq :: "string \<Rightarrow> string" where
  "dq s = ''\"'' @ s @ ''\"''"

definition list_json :: "string \<times> string \<times> string \<times> nat \<Rightarrow> string" where
  "list_json x =
     (case x of (name, desc, updated, pub_len) \<Rightarrow>
        ''{'' @ dq ''name'' @ '':'' @ dq name @ '','' @ dq ''description'' @ '':'' @ dq desc @ '',''
        @ dq ''updated_at'' @ '':'' @ dq updated @ '','' @ dq ''public_key_len'' @ '':'' @ decimal pub_len @ ''}'')"

definition list_line :: "string \<times> string \<times> string \<times> nat \<Rightarrow> string" where
  "list_line x =
     (case x of (name, desc, updated, pub_len) \<Rightarrow>
        pad_right 30 name @ ''  '' @ desc @ ''  pub:'' @ decimal pub_len @ ''B  '' @ updated)"

fun comma_separated :: "string list \<Rightarrow> string" where
  "comma_separated [] = []"
| "comma_separated [x] = x"
| "comma_separated (x # xs) = x @ '','' @ comma_separated xs"

definition handle_secret_list :: "globals \<Rightarrow> world \<Rightarrow> string list \<Rightarrow> finish \<times> out list \<times> world" where
  "handle_secret_list g w args =
     (case args of
        [] \<Rightarrow> (Exit 1, [Help ''secret''], w)
      | u # _ \<Rightarrow> with_password g w (\<lambda>pw w1.
          session g w1 (ssm_secret_list (Some u) True) (\<lambda>items w2.
            (Exit 0,
             if gl_json g then [println (''['' @ comma_separated (map list_json items) @ '']'')]
             else if items = [] then [println (''no secrets for '' @ quoted u)]
             else map (\<lambda>i. println (list_line i)) items, w2))))"

subsection \<open>KEKs, the audit log, statistics\<close>

definition handle_kek_rotate ::
  "provider \<Rightarrow> globals \<Rightarrow> world \<Rightarrow> string list \<Rightarrow> finish \<times> out list \<times> world" where
  "handle_kek_rotate cr g w args =
     (case args of
        [] \<Rightarrow> (Exit 1, [Help ''kek''], w)
      | u # _ \<Rightarrow> with_password g w (\<lambda>pw w1.
          session g w1 (\<lambda>v. plain (ssm_kek_rotate cr (Some u) v)) (\<lambda>_ w2.
            (Exit 0, [println (''OK: KEK rotated for '' @ quoted u)], w2))))"

definition audit_json :: "audit_entry \<Rightarrow> string" where
  "audit_json e =
     ''{'' @ dq ''username'' @ '':'' @ dq (ae_username e) @ '','' @ dq ''operation'' @ '':'' @ dq (ae_operation e)
     @ '','' @ dq ''target'' @ '':'' @ dq (ae_target e) @ '','' @ dq ''details'' @ '':'' @ ae_details e
     @ '','' @ dq ''result'' @ '':'' @ dq (ae_result e) @ '','' @ dq ''timestamp'' @ '':'' @ dq (ae_timestamp e) @ ''}''"

definition audit_columns :: "string \<Rightarrow> string \<Rightarrow> string \<Rightarrow> string \<Rightarrow> string" where
  "audit_columns a b c d = pad_right 20 a @ '' '' @ pad_right 18 b @ '' '' @ pad_right 12 c @ '' '' @ d"

text \<open>The options \<open>--limit\<close> and \<open>--offset\<close> count only when they are numbers that are not negative.\<close>

fun audit_number :: "string \<Rightarrow> string list \<Rightarrow> int \<Rightarrow> int" where
  "audit_number name [] found = found"
| "audit_number name (a # args) found =
     (case args of
        [] \<Rightarrow> found
      | x # rest \<Rightarrow>
          (if a \<in> {''--operation'', ''--result'', ''--limit'', ''--offset''}
           then audit_number name rest (if a = name then header_number (Some x) found else found)
           else audit_number name args found))"

definition handle_audit_log :: "globals \<Rightarrow> world \<Rightarrow> string list \<Rightarrow> finish \<times> out list \<times> world" where
  "handle_audit_log g w args =
     (case args of
        [] \<Rightarrow> (Exit 1, [], w)
      | u # opts \<Rightarrow>
          (let known = [''--operation'', ''--result'', ''--limit'', ''--offset'']
           in session g w (ssm_audit_log_query (Some u) (option_value ''--operation'' known opts None)
                (option_value ''--result'' known opts None) (audit_number ''--limit'' opts 100)
                (audit_number ''--offset'' opts 0) True) (\<lambda>items w1.
                  (Exit 0,
                   if gl_json g then [println (''['' @ comma_separated (map audit_json items) @ '']'')]
                   else if items = [] then [println (''no audit log entries for '' @ quoted u)]
                   else println (audit_columns ''operation'' ''target'' ''result'' ''timestamp'')
                        # println (audit_columns ''---------'' ''------'' ''------'' ''---------'')
                        # map (\<lambda>e. println (audit_columns (ae_operation e) (ae_target e) (ae_result e)
                              (ae_timestamp e))) items
                        @ [println (''('' @ decimal (length items) @ '' entries)'')], w1))))"

text \<open>\<open>rate\<close> prints a hit rate with one decimal in floating point; without any lookups it is 0.0.\<close>

definition handle_cache_stats ::
  "(nat \<Rightarrow> nat \<Rightarrow> string) \<Rightarrow> globals \<Rightarrow> world \<Rightarrow> finish \<times> out list \<times> world" where
  "handle_cache_stats rate g w =
     session g w (ssm_cache_get_stats (Some \<lparr>total_entries = 0, valid_entries = 0, hit_count = 0, miss_count = 0\<rparr>)) (\<lambda>out w1.
       let s = the out
       in (Exit 0,
           if gl_json g
           then [println (''{'' @ dq ''total_entries'' @ '':'' @ decimal (total_entries s) @ '','' @ dq ''valid_entries''
                   @ '':'' @ decimal (valid_entries s) @ '','' @ dq ''hit_count'' @ '':'' @ decimal (hit_count s) @ '',''
                   @ dq ''miss_count'' @ '':'' @ decimal (miss_count s) @ ''}'')]
           else [println ''Cache Statistics:'',
                 println (''  Total slots:     '' @ decimal (total_entries s)),
                 println (''  Valid entries:   '' @ decimal (valid_entries s)),
                 println (''  Hits:            '' @ decimal (hit_count s)),
                 println (''  Misses:          '' @ decimal (miss_count s)),
                 println (''  Hit rate:        ''
                   @ (if hit_count s + miss_count s > 0 then rate (hit_count s) (miss_count s) else ''0.0'')
                   @ ''%'')], w1))"

subsection \<open>Backups and the schema\<close>

text \<open>The backup calls work on the files of the machine; \<open>None\<close> is the overrun of a restore.\<close>

definition host_of :: "globals \<Rightarrow> world \<Rightarrow> host" where
  "host_of g w = (wo_host w)\<lparr>ho_image := wo_image w (db_key_of g), ho_load := wo_load w None\<rparr>"

definition handle_backup_create ::
  "provider \<Rightarrow> globals \<Rightarrow> world \<Rightarrow> string list \<Rightarrow> finish \<times> out list \<times> world" where
  "handle_backup_create cr g w args =
     (case args of
        [] \<Rightarrow> (Exit 1, [Help ''backup''], w)
      | path # _ \<Rightarrow>
          (if gl_backup_key_len g \<noteq> 32 then (Exit 1, [], w)
           else (case with_vault g w (\<lambda>v w1.
                     let (st, v1, h) = ssm_backup_create cr (Some path) (Some (gl_backup_key g)) v (host_of g w1)
                     in (st, v1, w1\<lparr>wo_host := h\<rparr>)) of
                   (None, w2) \<Rightarrow> (Exit 1, [], w2)
                 | (Some st, w2) \<Rightarrow>
                     if st \<noteq> SSM_OK then (Exit 1, [], w2)
                     else (Exit 0, [println (''OK: backup written to '' @ path)], w2))))"

definition handle_backup_restore ::
  "provider \<Rightarrow> globals \<Rightarrow> world \<Rightarrow> string list \<Rightarrow> finish \<times> out list \<times> world" where
  "handle_backup_restore cr g w args =
     (case args of
        [] \<Rightarrow> (Exit 1, [Help ''backup''], w)
      | path # _ \<Rightarrow>
          (if gl_backup_key_len g \<noteq> 32 then (Exit 1, [], w)
           else (case with_vault g w (\<lambda>v w1.
                     case ssm_backup_restore cr (Some path) (Some (gl_backup_key g)) v (host_of g w1) of
                       None \<Rightarrow> (None, v, w1)
                     | Some (st, v1, h) \<Rightarrow> (Some st, v1, w1\<lparr>wo_host := h\<rparr>)) of
                   (None, w2) \<Rightarrow> (Exit 1, [], w2)
                 | (Some None, w2) \<Rightarrow> (Uncaught, [], w2)
                 | (Some (Some st), w2) \<Rightarrow>
                     if st \<noteq> SSM_OK then (Exit 1, [], w2)
                     else (Exit 0, [println (''OK: database restored from '' @ path)], w2))))"

definition handle_db_version :: "globals \<Rightarrow> world \<Rightarrow> finish \<times> out list \<times> world" where
  "handle_db_version g w =
     session g w (ssm_db_version (Some 0)) (\<lambda>version w1.
       (Exit 0, [println (''schema version: '' @ to_string (the version))], w1))"

definition handle_db_migrate :: "globals \<Rightarrow> world \<Rightarrow> finish \<times> out list \<times> world" where
  "handle_db_migrate g w =
     session g w (\<lambda>v. plain (ssm_db_migrate v)) (\<lambda>_ w1. (Exit 0, [println ''OK: schema migration complete''], w1))"

subsection \<open>Secrets as environment variables\<close>

unbundle bit_operations_syntax

definition BASE64_TABLE :: string where
  "BASE64_TABLE = ''ABCDEFGHIJKLMNOPQRSTUVWXYZabcdefghijklmnopqrstuvwxyz0123456789+/''"

definition base64_char :: "32 word \<Rightarrow> char" where
  "base64_char x = BASE64_TABLE ! unat (x AND 0x3F)"

fun base64_encode :: "bytes \<Rightarrow> string" where
  "base64_encode [] = []"
| "base64_encode (x # data) =
     (let b0 = (ucast x :: 32 word);
          b1 = (case data of [] \<Rightarrow> 0 | y # _ \<Rightarrow> ucast y);
          b2 = (case data of y # z # _ \<Rightarrow> ucast z | _ \<Rightarrow> 0);
          triple = push_bit 16 b0 OR push_bit 8 b1 OR b2
      in [base64_char (drop_bit 18 triple), base64_char (drop_bit 12 triple),
          if 1 < length (x # data) then base64_char (drop_bit 6 triple) else CHR ''='',
          if 2 < length (x # data) then base64_char triple else CHR ''='']
         @ base64_encode (drop 2 data))"

definition is_printable :: "bytes \<Rightarrow> bool" where
  "is_printable data =
     list_all (\<lambda>c. c \<noteq> 0 \<and> \<not> (c < 0x20 \<and> c \<noteq> 9 \<and> c \<noteq> 10 \<and> c \<noteq> 13) \<and> \<not> c \<ge> 0x7F) data"

definition env_char :: "char \<Rightarrow> char" where
  "env_char c =
     (let n = char_code c in
      if 97 \<le> n \<and> n \<le> 122 then char_of (n - 32)
      else if 65 \<le> n \<and> n \<le> 90 \<or> 48 \<le> n \<and> n \<le> 57 then c
      else CHR ''_'')"

definition sanitize_env_name :: "string \<Rightarrow> string" where
  "sanitize_env_name name = ''SSM_'' @ map env_char name"

definition private_buffer :: key_out where
  "private_buffer = \<lparr>go_private = Some (replicate 65536 0), go_private_len = Some 65536, go_public = None,
     go_public_len = Some 0\<rparr>"

definition get_private ::
  "provider \<Rightarrow> string \<Rightarrow> string \<Rightarrow> vault \<Rightarrow> ssm_status \<times> bytes \<times> vault" where
  "get_private cr username name v =
     (let (st, g, v1) = ssm_secret_get cr (Some username) (Some name) private_buffer v;
          priv = the (go_private g); priv_len = the (go_private_len g);
          (st', g', v2) =
            (if st = SSM_ERR_INTERNAL \<and> priv_len > 65536
             then ssm_secret_get cr (Some username) (Some name)
                    (g\<lparr>go_private := Some (resize_to priv_len priv)\<rparr>) v1
             else (st, g, v1))
      in (st', resize_to (the (go_private_len g')) (the (go_private g')), v2))"

text \<open>The variables set for one secret.\<close>

definition secret_variables :: "string \<Rightarrow> bytes \<Rightarrow> (string \<times> string) list" where
  "secret_variables env_name priv =
     (if is_printable priv then [(env_name, string_of_bytes priv)]
      else [(env_name, base64_encode priv), (env_name @ ''_ENC'', ''base64'')])"

fun set_secrets ::
  "provider \<Rightarrow> string \<Rightarrow> string list \<Rightarrow> vault \<Rightarrow> (string \<times> string) list \<times> vault" where
  "set_secrets cr u [] v = ([], v)"
| "set_secrets cr u (name # names) v =
     (let (st, priv, v1) = get_private cr u name v;
          (rest, v2) = set_secrets cr u names v1
      in ((if st \<noteq> SSM_OK then [] else secret_variables (sanitize_env_name name) priv) @ rest, v2))"

text \<open>The calls of \<open>env exec\<close>; \<open>None\<close> is a \<open>die\<close>, which leaves the database to the end of the process.\<close>

definition env_calls ::
  "provider \<Rightarrow> string \<Rightarrow> string \<Rightarrow> vault \<Rightarrow> (string \<times> string) list option \<times> vault" where
  "env_calls cr u pw v =
     (let (st, is_valid, v1) = ssm_user_authenticate cr (Some u) (Some (c_str pw)) (Some 0) v
      in if st \<noteq> SSM_OK \<or> the is_valid = 0 then (None, v1)
         else (let (st2, items, v2) = ssm_secret_list (Some u) True v1
               in if st2 \<noteq> SSM_OK then (None, v2)
                  else (let names = map fst items; (vars, v3) = set_secrets cr u names v2
                        in (Some (vars @ [(''SSM_COUNT'', take 15 (decimal (length names)))]), v3))))"

definition handle_env_exec ::
  "provider \<Rightarrow> globals \<Rightarrow> world \<Rightarrow> string list \<Rightarrow> finish \<times> out list \<times> world" where
  "handle_env_exec cr g w args =
     (case args of
        u # a # rest \<Rightarrow>
          (let command = (if a = ''--'' then rest else a # rest)
           in if command = [] then (Exit 1, [Help ''env''], w)
              else with_password g w (\<lambda>pw w1.
                (case with_vault g w1 (\<lambda>v w. let (vars, v1) = env_calls cr u pw v in (vars, v1, w)) of
                   (Some (Some vars), w2) \<Rightarrow> (if wo_exec w2 then Exec vars command else Exit 1, [], w2)
                 | (_, w2) \<Rightarrow> (Exit 1, [], w2))))
      | _ \<Rightarrow> (Exit 1, [Help ''env''], w))"

subsection \<open>Dispatch\<close>

text \<open>The two commands of other files, \<open>server start\<close> and \<open>tui\<close>, are parameters.\<close>

type_synonym handler = "globals \<Rightarrow> world \<Rightarrow> string list \<Rightarrow> finish \<times> out list \<times> world"

fun dispatch :: "(string \<times> handler) list \<Rightarrow> globals \<Rightarrow> world \<Rightarrow> string list \<Rightarrow> finish \<times> out list \<times> world" where
  "dispatch cmds g w [] = (Exit 1, [], w)"
| "dispatch cmds g w (a # args) =
     (case map_of cmds a of None \<Rightarrow> (Exit 1, [], w) | Some h \<Rightarrow> h g w args)"

definition user_cmds :: "provider \<Rightarrow> validator \<Rightarrow> (string \<times> handler) list" where
  "user_cmds cr vd = [(''register'', handle_user_register cr vd), (''auth'', handle_user_auth cr),
     (''delete'', handle_user_delete cr), (''change-password'', handle_user_change_password cr vd)]"

definition secret_cmds :: "provider \<Rightarrow> (string \<times> handler) list" where
  "secret_cmds cr = [(''store'', handle_secret_store cr), (''get'', handle_secret_get cr),
     (''delete'', handle_secret_delete), (''list'', handle_secret_list)]"

definition kek_cmds :: "provider \<Rightarrow> (string \<times> handler) list" where
  "kek_cmds cr = [(''rotate'', handle_kek_rotate cr)]"

definition backup_cmds :: "provider \<Rightarrow> (string \<times> handler) list" where
  "backup_cmds cr = [(''create'', handle_backup_create cr), (''restore'', handle_backup_restore cr)]"

definition env_cmds :: "provider \<Rightarrow> (string \<times> handler) list" where
  "env_cmds cr = [(''exec'', handle_env_exec cr)]"

definition db_cmds :: "(string \<times> handler) list" where
  "db_cmds = [(''version'', \<lambda>g w _. handle_db_version g w), (''migrate'', \<lambda>g w _. handle_db_migrate g w)]"

definition server_cmds :: "handler \<Rightarrow> (string \<times> handler) list" where
  "server_cmds start = [(''start'', start)]"

definition help_command :: "string list \<Rightarrow> out" where
  "help_command args =
     Help (case args of [] \<Rightarrow> ''usage''
           | a # _ \<Rightarrow> if a \<in> {''user'', ''secret'', ''kek'', ''backup'', ''env'', ''db'', ''server''} then a
                      else ''usage'')"

definition completion_command :: "world \<Rightarrow> string list \<Rightarrow> finish \<times> out list \<times> world" where
  "completion_command w args =
     (let shell = (case args of [] \<Rightarrow> ''bash'' | a # _ \<Rightarrow> a)
      in if shell = ''bash'' \<or> shell = ''zsh'' then (Exit 0, [Help (''completion '' @ shell)], w)
         else (Exit 1, [], w))"

definition run_command ::
  "provider \<Rightarrow> validator \<Rightarrow> (nat \<Rightarrow> nat \<Rightarrow> string) \<Rightarrow> handler \<Rightarrow> handler \<Rightarrow> globals \<Rightarrow> world \<Rightarrow> string list
   \<Rightarrow> finish \<times> out list \<times> world" where
  "run_command cr vd rate tui start g w argv =
     (case argv of
        [] \<Rightarrow> (Exit 1, [Help ''usage''], w)
      | cmd # args \<Rightarrow>
          (if cmd = ''help'' then (Exit 0, [help_command args], w)
           else if cmd = ''user'' then dispatch (user_cmds cr vd) g w args
           else if cmd = ''secret'' then dispatch (secret_cmds cr) g w args
           else if cmd = ''kek'' then dispatch (kek_cmds cr) g w args
           else if cmd = ''backup'' then dispatch (backup_cmds cr) g w args
           else if cmd = ''env'' then dispatch (env_cmds cr) g w args
           else if cmd = ''completion'' then completion_command w args
           else if cmd = ''tui'' then tui g w args
           else if cmd = ''server'' then dispatch (server_cmds start) g w args
           else if cmd = ''cache-stats'' then handle_cache_stats rate g w
           else if cmd = ''audit-log'' then handle_audit_log g w args
           else if cmd = ''export'' then handle_export g w args
           else if cmd = ''db'' then dispatch db_cmds g w args
           else (Exit 1, [], w)))"

subsection \<open>Settings\<close>

text \<open>
  The configuration file: the first of the two that can be read and parsed. Members of another type than
  expected are passed over; a document that is no object ends the program, as in the server.
\<close>

record config =
  cf_db_path :: string
  cf_db_key_hex :: string
  cf_password :: string
  cf_backup_key_hex :: string
  cf_json :: bool

definition no_config :: config where
  "no_config = \<lparr>cf_db_path = [], cf_db_key_hex = [], cf_password = [], cf_backup_key_hex = [], cf_json = False\<rparr>"

definition member_of :: "json_lib \<Rightarrow> json \<Rightarrow> string \<Rightarrow> json option option" where
  "member_of js root k =
     (case js_is_member js root k of
        None \<Rightarrow> None
      | Some False \<Rightarrow> Some None
      | Some True \<Rightarrow> map_option Some (js_at js root k))"

definition string_member :: "json_lib \<Rightarrow> json \<Rightarrow> string \<Rightarrow> string option" where
  "string_member js root k =
     map_option (\<lambda>m. case m of Some (JStr s) \<Rightarrow> s | _ \<Rightarrow> []) (member_of js root k)"

definition config_of :: "json_lib \<Rightarrow> json \<Rightarrow> config option" where
  "config_of js root = do {
     db \<leftarrow> string_member js root ''db'';
     db_key \<leftarrow> string_member js root ''db_key'';
     password \<leftarrow> string_member js root ''password'';
     backup_key \<leftarrow> string_member js root ''backup_key'';
     json \<leftarrow> member_of js root ''json'';
     Some \<lparr>cf_db_path = db, cf_db_key_hex = db_key, cf_password = password, cf_backup_key_hex = backup_key,
           cf_json = (json = Some (JBool True))\<rparr> }"

definition load_config :: "json_lib \<Rightarrow> world \<Rightarrow> config option" where
  "load_config js w =
     (case wo_config w ''./vaultine.json'' of
        Some root \<Rightarrow> config_of js root
      | None \<Rightarrow>
          (case wo_getenv w ''HOME'' of
             None \<Rightarrow> Some no_config
           | Some home \<Rightarrow>
               (case wo_config w (home @ ''/.vaultinerc'') of
                  None \<Rightarrow> Some no_config
                | Some root \<Rightarrow> config_of js root)))"

text \<open>Keys are decoded into the global arrays; \<open>None\<close> is a \<open>die\<close>.\<close>

definition set_db_key :: "string \<Rightarrow> globals \<Rightarrow> globals option" where
  "set_db_key hex g =
     (let (ok, key, len) = hex_decode (c_str hex) (gl_db_key g) (gl_db_key_len g) 32
      in if ok then Some (g\<lparr>gl_db_key := key, gl_db_key_len := len\<rparr>) else None)"

definition set_backup_key :: "string \<Rightarrow> globals \<Rightarrow> globals option" where
  "set_backup_key hex g =
     (let (ok, key, len) = hex_decode (c_str hex) (gl_backup_key g) (gl_backup_key_len g) 32
      in if ok \<and> len = 32 then Some (g\<lparr>gl_backup_key := key, gl_backup_key_len := len\<rparr>) else None)"

definition initial_globals :: globals where
  "initial_globals = \<lparr>gl_db_path = ''./ssm.db'', gl_db_key = replicate 32 0, gl_db_key_len = 0,
     gl_backup_key = replicate 32 0, gl_backup_key_len = 0, gl_json = False, gl_password = []\<rparr>"

definition apply_config :: "config \<Rightarrow> globals \<Rightarrow> globals option" where
  "apply_config cf g = do {
     let g1 = (if cf_db_path cf \<noteq> [] then g\<lparr>gl_db_path := c_str (cf_db_path cf)\<rparr> else g);
     g2 \<leftarrow> (if cf_db_key_hex cf \<noteq> [] then set_db_key (cf_db_key_hex cf) g1 else Some g1);
     let g3 = (if cf_password cf \<noteq> [] then g2\<lparr>gl_password := cf_password cf\<rparr> else g2);
     g4 \<leftarrow> (if cf_backup_key_hex cf \<noteq> [] then set_backup_key (cf_backup_key_hex cf) g3 else Some g3);
     Some (if cf_json cf then g4\<lparr>gl_json := True\<rparr> else g4) }"

definition apply_environment :: "world \<Rightarrow> globals \<Rightarrow> globals option" where
  "apply_environment w g = do {
     let g1 = (case wo_getenv w ''SSM_PASSWORD'' of None \<Rightarrow> g | Some p \<Rightarrow> g\<lparr>gl_password := p\<rparr>);
     g2 \<leftarrow> (case wo_getenv w ''SSM_DB_KEY'' of None \<Rightarrow> Some g1 | Some x \<Rightarrow> set_db_key x g1);
     (case wo_getenv w ''SSM_BACKUP_KEY'' of None \<Rightarrow> Some g2 | Some x \<Rightarrow> set_backup_key x g2) }"

text \<open>
  \<open>getopt_long\<close> with \<open>"+h"\<close>: it stops at the first argument that is no option; a long option may be cut
  short as long as it is one option's prefix, and takes its argument behind \<open>=\<close> or from the next
  argument. The answer is the globals and what is left, or how the program ends.
\<close>

datatype opt = Opt_Db | Opt_Db_Key | Opt_Password | Opt_Backup_Key | Opt_Json | Opt_Help | Opt_Version

definition long_opts :: "(string \<times> opt) list" where
  "long_opts = [(''db'', Opt_Db), (''db-key'', Opt_Db_Key), (''password'', Opt_Password),
     (''backup-key'', Opt_Backup_Key), (''json'', Opt_Json), (''help'', Opt_Help), (''version'', Opt_Version)]"

definition takes_argument :: "opt \<Rightarrow> bool" where
  "takes_argument x \<longleftrightarrow> x \<in> {Opt_Db, Opt_Db_Key, Opt_Password, Opt_Backup_Key}"

definition find_option :: "string \<Rightarrow> opt option" where
  "find_option name =
     (case map_of long_opts name of
        Some x \<Rightarrow> Some x
      | None \<Rightarrow> (case filter (\<lambda>x. prefix name (fst x)) long_opts of [x] \<Rightarrow> Some (snd x) | _ \<Rightarrow> None))"

definition apply_option :: "opt \<Rightarrow> string \<Rightarrow> globals \<Rightarrow> (finish \<times> out list) + globals" where
  "apply_option x arg g =
     (let or_die = (\<lambda>r. case r of None \<Rightarrow> Inl (Exit 1, []) | Some g1 \<Rightarrow> Inr g1)
      in case x of
           Opt_Db \<Rightarrow> Inr (g\<lparr>gl_db_path := arg\<rparr>)
         | Opt_Db_Key \<Rightarrow> or_die (set_db_key arg g)
         | Opt_Password \<Rightarrow> Inr (g\<lparr>gl_password := arg\<rparr>)
         | Opt_Backup_Key \<Rightarrow> or_die (set_backup_key arg g)
         | Opt_Json \<Rightarrow> Inr (g\<lparr>gl_json := True\<rparr>)
         | Opt_Help \<Rightarrow> Inl (Exit 0, [Help ''usage''])
         | Opt_Version \<Rightarrow> Inl (Exit 0, [println ''ssm-cli version 0.1.0'']))"

fun parse_options :: "globals \<Rightarrow> string list \<Rightarrow> (finish \<times> out list) + globals \<times> string list" where
  "parse_options g [] = Inr (g, [])"
| "parse_options g (a # args) =
     (if take 1 a \<noteq> ''-'' \<or> a = ''-'' then Inr (g, a # args)
      else if a = ''--'' then Inr (g, args)
      else if take 2 a \<noteq> ''--'' then Inl (Exit (if a ! 1 = CHR ''h'' then 0 else 1), [Help ''usage''])
      else (let name = takeWhile (\<lambda>c. c \<noteq> CHR ''='') (drop 2 a);
                val = dropWhile (\<lambda>c. c \<noteq> CHR ''='') (drop 2 a);
                bad = Inl (Exit 1, [Help ''usage''])
            in case find_option name of
                 None \<Rightarrow> bad
               | Some x \<Rightarrow>
                   (if \<not> takes_argument x \<and> val \<noteq> [] then bad
                    else if \<not> takes_argument x \<or> val \<noteq> []
                    then (case apply_option x (tl val) g of Inl e \<Rightarrow> Inl e | Inr g1 \<Rightarrow> parse_options g1 args)
                    else (case args of
                            [] \<Rightarrow> bad
                          | y # rest \<Rightarrow>
                              (case apply_option x y g of Inl e \<Rightarrow> Inl e | Inr g1 \<Rightarrow> parse_options g1 rest)))))"

text \<open>\<open>main\<close>, given the arguments behind the program's name.\<close>

definition main ::
  "json_lib \<Rightarrow> provider \<Rightarrow> validator \<Rightarrow> (nat \<Rightarrow> nat \<Rightarrow> string) \<Rightarrow> handler \<Rightarrow> handler \<Rightarrow> world \<Rightarrow> string list
   \<Rightarrow> finish \<times> out list \<times> world" where
  "main js cr vd rate tui start w argv =
     (case load_config js w of
        None \<Rightarrow> (Uncaught, [], w)
      | Some cf \<Rightarrow>
          (case Option.bind (apply_config cf initial_globals) (apply_environment w) of
             None \<Rightarrow> (Exit 1, [], w)
           | Some g \<Rightarrow>
               (case parse_options g argv of
                  Inl (f, text) \<Rightarrow> (f, text, w)
                | Inr (g1, rest) \<Rightarrow> run_command cr vd rate tui start g1 w rest)))"

end
