(* ===== verification/Cli_Behaviour.thy ===== *)
theory Cli_Behaviour
  imports Cli Rest_Behaviour
begin

section \<open>What the command-line tool guarantees\<close>

text \<open>
  Each command is a process of its own, so what one leaves in the database file is what the next one
  reads: the theorems here go through \<open>ssm_init\<close> and \<open>ssm_destroy\<close> and back.
\<close>

subsection \<open>Helper lemmas: opening and closing the database\<close>

text \<open>A machine on which nothing fails, with the key the database library asks for.\<close>

definition working :: "globals \<Rightarrow> world \<Rightarrow> bool" where
  "working g w \<longleftrightarrow> wo_sodium w \<and> wo_malloc w \<and> m_alloc (wo_mach w) = [] \<and> dk_io (ho_disk (wo_host w)) = []
     \<and> (let c = ho_conn (wo_host w) in fl_stmt c = [] \<and> fl_row c = [] \<and> fl_begin c = [] \<and> fl_commit c = [])
     \<and> (ho_cipher (wo_host w) \<longrightarrow> gl_db_key_len g \<noteq> 0 \<and> gl_db_key g \<noteq> [])"

text \<open>A database file holds tables, and the bytes written for them are read back.\<close>

definition image_law :: "world \<Rightarrow> bool" where
  "image_law w \<longleftrightarrow> (\<forall>k t. wo_image w k t \<noteq> [] \<and> wo_load w k (wo_image w k t) = Some t)"

lemma create_schema_healthy:
  assumes q: "quiet db" "current (db_tabs db)" "\<not> db_null db"
    and s: "\<not> db_readonly db" "db_snap db = None" "fl_begin db = []" "fl_commit db = []"
  shows "db_create_schema db = (True, db\<lparr>db_fk := True\<rparr>)" and "healthy (db\<lparr>db_fk := True\<rparr>)"
proof -
  have q2: "quiet (db\<lparr>db_fk := True\<rparr>)" using q by (simp add: quiet_def)
  show "db_create_schema db = (True, db\<lparr>db_fk := True\<rparr>)"
    using q s quiet_call [OF q(1)] quiet_calls [OF q2, of 5] quiet_version [OF q2]
    by (simp add: db_create_schema_def current_def SSM_SCHEMA_VERSION_def)
  show "healthy (db\<lparr>db_fk := True\<rparr>)" using q s by (simp add: healthy_def quiet_def current_def)
qed

lemma init_current:
  assumes os: "os_sodium os" "os_malloc os" "os_cipher os \<longrightarrow> key \<noteq> None \<and> key \<noteq> Some []"
    and calm: "quiet (os_conn os)" "fl_begin (os_conn os) = []" "fl_commit (os_conn os) = []"
      "m_alloc (os_mach os) = []"
    and f: "os_files os p = Some t" "current t" "wf_tables t"
  shows "\<exists>v. ssm_init os True (Some p) key = (SSM_OK, Some v, None) \<and> healthy (v_db v) \<and> vault_ok cr v
    \<and> same_but_audit t (db_tabs (v_db v)) \<and> v_mach v = os_mach os"
proof -
  let ?db = "fresh_connection (os_conn os) t"
  let ?db1 = "?db\<lparr>db_fk := True\<rparr>"
  have q: "quiet ?db" "\<not> db_null ?db" "db_tabs ?db = t" using fresh_quiet [OF calm(1)] by simp_all
  have o: "db_open (os_cipher os) (os_files os) (os_conn os) (Some p) key = (True, ?db)"
    using os(3) f(1) quiet_call [OF q(1)] by (auto simp: db_open_def Let_def)
  have c: "db_create_schema ?db = (True, ?db1)" and h: "healthy ?db1"
    using create_schema_healthy [OF q(1) _ q(2)] f(2) q(3) calm(2,3) by (simp_all add: fresh_connection_def)
  have m: "db_migrate ?db1 = (True, ?db1)"
    using migrate_current [of ?db1] q f(2) by (simp add: quiet_def)
  obtain ok db2 where p: "audit_log_prune (m_now (os_mach os)) ?db1 90 = (ok, db2)" by fastforce
  let ?t2 = "prune_audit (m_now (os_mach os)) 90 t"
  have d2: "db2 = ?db1\<lparr>db_tabs := ?t2\<rparr>"
    using p healthy_sql(3) [OF h] h q(3) by (simp add: audit_log_prune_def healthy_def split: if_splits)
  have t2: "same_but_audit t ?t2" "wf_tables ?t2" using prune_audit_frame f(3) by blast+
  have h2: "healthy db2" using h d2 same_but_auditD [OF t2(1)] f(2) by (simp add: current_def)
  let ?v = "\<lparr>v_db = db2, v_path = p, v_cache = new_cache, v_mach = os_mach os\<rparr>"
  have "ssm_init os True (Some p) key = (SSM_OK, Some ?v, None)"
    using os(1,2) calm(4) by (simp add: ssm_init_def o c m p sizeof_handle_def)
  moreover have "vault_ok cr ?v"
    using healthy_steady [OF h2] t2(2) d2 by (simp add: vault_ok_def coherent_def new_cache_ok)
  ultimately show ?thesis using h2 t2(1) d2 by (intro exI [of _ ?v]) simp
qed

lemma working_init:
  assumes w: "working g w" and f: "read_tables (db_key_of g) w (gl_db_path g) = Some t" "current t" "wf_tables t"
  shows "\<exists>v. ssm_init (os_of (db_key_of g) w) True (Some (gl_db_path g)) (db_key_of g) = (SSM_OK, Some v, None)
    \<and> healthy (v_db v) \<and> vault_ok cr v \<and> same_but_audit t (db_tabs (v_db v)) \<and> v_mach v = wo_mach w"
  using init_current [of "os_of (db_key_of g) w" "db_key_of g" "gl_db_path g" t cr] assms
  by (auto simp: working_def os_of_def quiet_def db_key_of_def Let_def)

text \<open>What \<open>ssm_destroy\<close> leaves is the tables of the handle, when no transaction is open.\<close>

lemma close_ok: "vault_ok cr v \<Longrightarrow> db_close (v_db v) = db_tabs (v_db v) \<and> \<not> db_null (v_db v)"
  using vault_ok_D(1) [of cr v] by (simp add: db_close_def exec_rollback_def steady_def)

lemma close_handle_ok:
  "vault_ok cr v \<Longrightarrow> close_handle g v w = save_tables g (db_tabs (v_db v)) (w\<lparr>wo_mach := v_mach v\<rparr>)"
  using close_ok [of cr v] by (simp add: close_handle_def ssm_destroy_def)

lemma session_run:
  assumes "ssm_init (os_of (db_key_of g) w) True (Some (gl_db_path g)) (db_key_of g) = (SSM_OK, Some v, None)"
    and "the_call v = (st, a, v1)" and "vault_ok cr v1"
  shows "session g w the_call display =
    (let w1 = save_tables g (db_tabs (v_db v1)) (w\<lparr>wo_mach := v_mach v1\<rparr>)
     in if st = SSM_OK then display a w1 else (Exit 1, [], w1))"
  using assms close_handle_ok [OF assms(3)] by (simp add: session_def with_vault_def Let_def)

lemma save_tables_simps [simp]:
  "wo_mach (save_tables g t w) = wo_mach w" "wo_image (save_tables g t w) = wo_image w"
  "wo_config (save_tables g t w) = wo_config w" "wo_getenv (save_tables g t w) = wo_getenv w"
  "wo_load (save_tables g t w) = wo_load w" "wo_sodium (save_tables g t w) = wo_sodium w"
  "wo_malloc (save_tables g t w) = wo_malloc w" "dk_io (ho_disk (wo_host (save_tables g t w))) = dk_io (ho_disk (wo_host w))"
  "ho_conn (wo_host (save_tables g t w)) = ho_conn (wo_host w)"
  "ho_cipher (wo_host (save_tables g t w)) = ho_cipher (wo_host w)"
  "dk_files (ho_disk (wo_host (save_tables g t w))) = (if in_memory (gl_db_path g) then dk_files (ho_disk (wo_host w))
     else (dk_files (ho_disk (wo_host w)))(gl_db_path g := Some (wo_image w (db_key_of g) t)))"
  by (simp_all add: save_tables_def on_disk_def set_file_def)

lemma read_saved:
  assumes "image_law w" and "\<not> in_memory (gl_db_path g)"
  shows "read_tables (db_key_of g) (save_tables g t w) (gl_db_path g) = Some t"
  using assms by (simp add: read_tables_def image_law_def)


lemma with_password_given [simp]: "gl_password g \<noteq> [] \<Longrightarrow> with_password g w rest = rest (gl_password g) w"
  by (simp add: with_password_def prompt_password_def)

subsection \<open>The contract of a program\<close>

text \<open>
  A program opens the database file, makes its calls and closes it. \<open>ready\<close> is a machine on which that
  works, with tables in the file; \<open>closes\<close> says that the machine afterwards holds the tables of the handle
  in the file and the memory and clock the calls left, and is otherwise as it was.
\<close>

definition ready :: "globals \<Rightarrow> world \<Rightarrow> bool" where
  "ready g w \<longleftrightarrow> working g w \<and> image_law w \<and> \<not> in_memory (gl_db_path g)
     \<and> (\<exists>t. read_tables (db_key_of g) w (gl_db_path g) = Some t \<and> current t \<and> wf_tables t)"

definition closes :: "globals \<Rightarrow> vault \<Rightarrow> world \<Rightarrow> bool" where
  "closes g v w \<longleftrightarrow> wo_mach w = v_mach v \<and> (m_alloc (wo_mach w) = [] \<longrightarrow> working g w)
     \<and> read_tables (db_key_of g) w (gl_db_path g) = Some (db_tabs (v_db v))"

abbreviation opens :: "globals \<Rightarrow> world \<Rightarrow> vault \<Rightarrow> bool" where
  "opens g w v \<equiv> ssm_init (os_of (db_key_of g) w) True (Some (gl_db_path g)) (db_key_of g) = (SSM_OK, Some v, None)"

lemma closes_saved:
  assumes "ready g w"
  shows "closes g v (save_tables g (db_tabs (v_db v)) (w\<lparr>wo_mach := v_mach v\<rparr>))"
  using assms read_saved [of "w\<lparr>wo_mach := v_mach v\<rparr>" g] by (simp add: closes_def ready_def image_law_def working_def)

text \<open>
  The contract: a run that went through made calls on the handle it opened, and closed it. It is
  interpreted on the commands, the server and the Node.js objects; what follows from it holds of each.
\<close>

locale vault_program =
  fixes cr :: provider and g :: globals
    and run :: "world \<Rightarrow> world \<Rightarrow> bool"
    and calls :: "vault \<Rightarrow> vault \<Rightarrow> bool"
  assumes runs: "run w w1 \<Longrightarrow> lawful cr \<Longrightarrow> ready g w \<Longrightarrow> opens g w v \<Longrightarrow> vault_ok cr v \<Longrightarrow>
      \<exists>v1. calls v v1 \<and> closes g v1 w1"
    and calls_ok: "calls v v1 \<Longrightarrow> lawful cr \<Longrightarrow> vault_ok cr v \<Longrightarrow> vault_ok cr v1"
begin

lemma program_calls:
  assumes "run w w1" and "lawful cr" and "ready g w"
    and t: "read_tables (db_key_of g) w (gl_db_path g) = Some t"
  shows "\<exists>v v1. vault_ok cr v \<and> same_but_audit t (db_tabs (v_db v)) \<and> current (db_tabs (v_db v)) \<and> v_mach v = wo_mach w
    \<and> calls v v1 \<and> vault_ok cr v1 \<and> closes g v1 w1"
proof -
  have r: "working g w" "current t" "wf_tables t" using assms(3) t by (auto simp: ready_def)
  obtain v where v: "opens g w v" "vault_ok cr v" "same_but_audit t (db_tabs (v_db v))" "v_mach v = wo_mach w"
    using working_init [OF r(1) t r(2,3)] by blast
  moreover have "current (db_tabs (v_db v))" using v(3) r(2) by (simp add: current_def same_but_auditD)
  ultimately show ?thesis using runs [OF assms(1-3)] calls_ok assms(2) by blast
qed

end

text \<open>What any process has stored and left in the database file, the next \<open>secret get --out\<close> writes.\<close>

lemma get_command_reads:
  assumes st: "ssm_secret_store cr (Some u) (Some pk) (vec_data []) 0 (Some n) None v = (SSM_OK, v1)"
    and ok: "vault_ok cr v" and law: "lawful cr" and len: "length pk \<le> 65536" and pw: "gl_password g \<noteq> []"
    and w: "working g w" "wo_mach w = v_mach v1"
    and db: "read_tables (db_key_of g) w (gl_db_path g) = Some (db_tabs (v_db v1))" "current (db_tabs (v_db v1))"
  shows "\<exists>w2. handle_secret_get cr g w [u, n, ''--out'', f] = (Exit 0, [written_key ''private'' pk f], w2)
    \<and> dk_files (ho_disk (wo_host w2)) f = Some pk"
proof -
  have ok1: "vault_ok cr v1"
    using store_secret_ok [OF ok law, of "Some u" "Some pk" "vec_data []" 0 "Some n" None] st by simp
  obtain x where i: "ssm_init (os_of (db_key_of g) w) True (Some (gl_db_path g)) (db_key_of g) = (SSM_OK, Some x, None)"
    and x: "healthy (v_db x)" "vault_ok cr x" "same_but_audit (db_tabs (v_db v1)) (db_tabs (v_db x))"
      "v_mach x = wo_mach w"
    using working_init [OF w(1) db vault_ok_D(2) [OF ok1], of cr] by blast
  have now: "m_now (v_mach x) = m_now (v_mach v1)" "m_alloc (v_mach x) = []" using x(4) w by (simp_all add: working_def)
  obtain gk x1 r where get: "get_with_retry cr u n x = (SSM_OK, gk, x1)" "go_private_len gk = Some (length pk)"
    "go_public_len gk = Some 0" "go_private gk = Some (pk @ r)"
    using get_stored [OF st ok law len x(2,3) now(1) x(1) now(2)] by blast
  have ok2: "vault_ok cr x1" using get_retry_keeps [OF x(2) law, of u n] get by simp
  let ?w = "save_tables g (db_tabs (v_db x1)) (w\<lparr>wo_mach := v_mach x1\<rparr>)"
  have d: "dk_io (ho_disk (wo_host ?w)) = []" using w(1) by (simp add: working_def)
  have "show_keys (Some f) None pk [] ?w = (Exit 0, [written_key ''private'' pk f], on_disk (set_file f (Some pk)) ?w)"
    using d by (simp add: show_keys_def put_file_def next_io_def on_disk_def)
  moreover have "handle_secret_get cr g w [u, n, ''--out'', f] = show_keys (Some f) None pk [] ?w"
    using pw get session_run [where the_call = "get_with_retry cr u n", OF i get(1) ok2]
    by (simp add: handle_secret_get_def resize_to_def Let_def)
  ultimately show ?thesis by (simp add: on_disk_def set_file_def)
qed

text \<open>A program whose call stored a secret: what it left is read by the command line.\<close>

locale secret_writer = vault_program +
  fixes u n :: string and pk :: bytes
  assumes stores: "calls v v1 \<Longrightarrow> ssm_secret_store cr (Some u) (Some pk) None 0 (Some n) None v = (SSM_OK, v1)"
begin

lemma read_by_cli:
  assumes "run w w1" and "lawful cr" and "ready g w" and "m_alloc (wo_mach w1) = []"
    and "length pk \<le> 65536" and "gl_password g \<noteq> []"
  shows "\<exists>w2. handle_secret_get cr g w1 [u, n, ''--out'', f] = (Exit 0, [written_key ''private'' pk f], w2)
    \<and> dk_files (ho_disk (wo_host w2)) f = Some pk"
proof -
  obtain t where "read_tables (db_key_of g) w (gl_db_path g) = Some t" using assms(3) by (auto simp: ready_def)
  from program_calls [OF assms(1-3) this] obtain v v1 where v: "vault_ok cr v" "current (db_tabs (v_db v))"
    and st: "calls v v1" and w1: "closes g v1 w1" by blast
  note store = stores [OF st]
  have "current (db_tabs (v_db v1))" using store_no_public(2) [OF store v(1) assms(2) v(2)] .
  then show ?thesis
    using get_command_reads [of cr u pk n v v1 g w1 f] store v(1) assms w1 by (simp add: vec_data_def closes_def)
qed

end

subsection \<open>A secret stored by one command is read by the next\<close>

lemma store_run:
  assumes w: "ready g w" and pw: "gl_password g \<noteq> []" and v: "opens g w v" "vault_ok cr v" and law: "lawful cr"
    and key: "dk_files (ho_disk (wo_host w)) kf = Some pk"
    and run: "handle_secret_store cr g w [u, n, kf] = (Exit 0, text, w1)"
  shows "\<exists>v1. ssm_secret_store cr (Some u) (Some pk) None 0 (Some n) None v = (SSM_OK, v1)
    \<and> w1 = save_tables g (db_tabs (v_db v1)) (w\<lparr>wo_mach := v_mach v1\<rparr>)"
proof -
  let ?d = "ho_disk (wo_host w)"
  have r: "read_file kf ?d = (if pk = [] then None else Some pk, ?d)"
    using w key by (simp add: read_file_def next_io_def ready_def working_def)
  have same: "on_disk (\<lambda>_. ?d) w = w" by (simp add: on_disk_def)
  obtain st v1 where st: "ssm_secret_store cr (Some u) (Some pk) (vec_data []) 0 (Some n) None v = (st, v1)"
    by fastforce
  have ok1: "vault_ok cr v1"
    using store_secret_ok [OF v(2) law, of "Some u" "Some pk" "vec_data []" 0 "Some n" None] st by simp
  have "pk \<noteq> []" using run r by (auto simp: handle_secret_store_def)
  then show ?thesis
    using run pw st
    by (auto simp: handle_secret_store_def r same session_run [OF v(1) _ ok1] Let_def vec_data_def split: if_splits)
qed

interpretation cli_store: secret_writer cr g
  "\<lambda>w w1. gl_password g \<noteq> [] \<and> dk_files (ho_disk (wo_host w)) kf = Some pk
     \<and> (\<exists>text. handle_secret_store cr g w [u, n, kf] = (Exit 0, text, w1))"
  "\<lambda>v v1. ssm_secret_store cr (Some u) (Some pk) None 0 (Some n) None v = (SSM_OK, v1)" u n pk
  for cr g kf u n pk
proof unfold_locales
  fix w w1 v
  assume "gl_password g \<noteq> [] \<and> dk_files (ho_disk (wo_host w)) kf = Some pk
     \<and> (\<exists>text. handle_secret_store cr g w [u, n, kf] = (Exit 0, text, w1))"
    and "lawful cr" "ready g w" "opens g w v" "vault_ok cr v"
  then show "\<exists>v1. ssm_secret_store cr (Some u) (Some pk) None 0 (Some n) None v = (SSM_OK, v1) \<and> closes g v1 w1"
    using store_run closes_saved by metis
next
  fix v v1
  assume "ssm_secret_store cr (Some u) (Some pk) None 0 (Some n) None v = (SSM_OK, v1)" "lawful cr" "vault_ok cr v"
  then show "vault_ok cr v1" using store_secret_ok [of cr v "Some u" "Some pk" None 0 "Some n" None] by simp
qed

text \<open>
  What \<open>secret store\<close> takes from a file, \<open>secret get --out\<close> writes back: on a working machine, when
  the first command exits with 0, the second one, a process of its own on the same database file, exits
  with 0 and its output file holds exactly the bytes of the key file.
\<close>

theorem cli_store_then_get:
  assumes law: "lawful cr" "image_law w" and on_file: "\<not> in_memory (gl_db_path g)" and w: "working g w"
    and pw: "gl_password g \<noteq> []"
    and db: "read_tables (db_key_of g) w (gl_db_path g) = Some t" "current t" "wf_tables t"
    and key: "dk_files (ho_disk (wo_host w)) key_file = Some pk" "length pk \<le> 65536"
    and run: "handle_secret_store cr g w [u, n, key_file] = (Exit 0, text, w1)" and mem: "m_alloc (wo_mach w1) = []"
  shows "\<exists>w2. handle_secret_get cr g w1 [u, n, ''--out'', f] = (Exit 0, [written_key ''private'' pk f], w2)
    \<and> dk_files (ho_disk (wo_host w2)) f = Some pk"
proof -
  have "ready g w" using law(2) on_file w db by (auto simp: ready_def)
  then show ?thesis using cli_store.read_by_cli [of g w key_file pk cr u n w1 f] law(1) pw key run mem by blast
qed

subsection \<open>The whole program\<close>

text \<open>The settings a command line leads to, and the command behind the options.\<close>

definition settings_of :: "json_lib \<Rightarrow> world \<Rightarrow> string list \<Rightarrow> (globals \<times> string list) option" where
  "settings_of js w argv =
     (case load_config js w of None \<Rightarrow> None
      | Some cf \<Rightarrow> (case Option.bind (apply_config cf initial_globals) (apply_environment w) of None \<Rightarrow> None
         | Some g \<Rightarrow> (case parse_options g argv of Inl _ \<Rightarrow> None | Inr r \<Rightarrow> Some r)))"

lemma main_runs: "settings_of js w argv = Some (g, c) \<Longrightarrow> main js cr vd rate tui start w argv = run_command cr vd rate tui start g w c"
  by (auto simp: main_def settings_of_def split: option.splits sum.splits)

lemma settings_of_cong:
  assumes "wo_config w1 = wo_config w" and "wo_getenv w1 = wo_getenv w"
  shows "settings_of js w1 argv = settings_of js w argv"
proof -
  have "load_config js w1 = load_config js w" unfolding load_config_def assms ..
  moreover have "apply_environment w1 = apply_environment w" by (intro ext, unfold apply_environment_def assms) (rule refl)
  ultimately show ?thesis unfolding settings_of_def by (simp only:)
qed

lemma run_secret_command:
  "run_command cr vd rate tui start g w (''secret'' # ''store'' # args) = handle_secret_store cr g w args"
  "run_command cr vd rate tui start g w (''secret'' # ''get'' # args) = handle_secret_get cr g w args"
  by (simp_all add: run_command_def secret_cmds_def)

text \<open>
  C7. Two runs of the program: whatever configuration file, environment and options lead to the settings,
  when \<open>ssm-cli secret store\<close> exits with 0 on a working machine, a later \<open>ssm-cli secret get --out\<close> with the
  same settings exits with 0 and its output file holds exactly the bytes of the key file.
\<close>

theorem program_store_then_get:
  assumes law: "lawful cr" "image_law w" and on_file: "\<not> in_memory (gl_db_path g)" and w: "working g w"
    and pw: "gl_password g \<noteq> []"
    and db: "read_tables (db_key_of g) w (gl_db_path g) = Some t" "current t" "wf_tables t"
    and key: "dk_files (ho_disk (wo_host w)) key_file = Some pk" "length pk \<le> 65536"
    and argv: "settings_of js w argv1 = Some (g, [''secret'', ''store'', u, n, key_file])"
      "settings_of js w argv2 = Some (g, [''secret'', ''get'', u, n, ''--out'', f])"
    and run: "main js cr vd rate tui start w argv1 = (Exit 0, text, w1)" and mem: "m_alloc (wo_mach w1) = []"
  shows "\<exists>w2. main js cr vd rate tui start w1 argv2 = (Exit 0, [written_key ''private'' pk f], w2)
    \<and> dk_files (ho_disk (wo_host w2)) f = Some pk"
proof -
  have store: "handle_secret_store cr g w [u, n, key_file] = (Exit 0, text, w1)"
    using run unfolding main_runs [OF argv(1)] run_secret_command .
  have r: "ready g w" using law(2) on_file w db by (auto simp: ready_def)
  obtain v where "opens g w v" "vault_ok cr v" using working_init [OF w db, of cr] by blast
  then obtain v1 :: vault where "w1 = save_tables g (db_tabs (v_db v1)) (w\<lparr>wo_mach := v_mach v1\<rparr>)"
    using store_run [OF r pw _ _ law(1) key(1) store] by blast
  then have "settings_of js w1 argv2 = settings_of js w argv2" by (intro settings_of_cong) simp_all
  then have get: "settings_of js w1 argv2 = Some (g, [''secret'', ''get'', u, n, ''--out'', f])" using argv(2) by simp
  show ?thesis
    unfolding main_runs [OF get] run_secret_command
    by (rule cli_store_then_get [OF law on_file w pw db key store mem])
qed

subsection \<open>Passwords\<close>

lemma other_password:
  "with_vault (g\<lparr>gl_password := p\<rparr>) = with_vault g" "session (g\<lparr>gl_password := p\<rparr>) = session g"
proof -
  have k: "db_key_of (g\<lparr>gl_password := p\<rparr>) = db_key_of g" by (simp add: db_key_of_def)
  have t: "save_tables (g\<lparr>gl_password := p\<rparr>) = save_tables g" by (simp add: save_tables_def k fun_eq_iff)
  have c: "close_handle (g\<lparr>gl_password := p\<rparr>) = close_handle g" by (intro ext, unfold close_handle_def t) simp
  show v: "with_vault (g\<lparr>gl_password := p\<rparr>) = with_vault g"
    by (intro ext, unfold with_vault_def k t c) simp
  show "session (g\<lparr>gl_password := p\<rparr>) = session g" unfolding session_def v ..
qed

lemma other_prompt_json: "gl_json (g\<lparr>gl_password := p\<rparr>) = gl_json g"
  by simp

lemma other_prompt:
  "gl_password g \<noteq> [] \<Longrightarrow> p \<noteq> [] \<Longrightarrow>
   with_password (g\<lparr>gl_password := p\<rparr>) w (\<lambda>pw. rest) = with_password g w (\<lambda>pw. rest)"
  by simp

text \<open>
  C34. The password the commands on secrets ask for is never looked at: \<open>secret store\<close>, \<open>get\<close>,
  \<open>delete\<close> and \<open>list\<close> and \<open>kek rotate\<close> do the same, whatever password is given.
\<close>

theorem secret_commands_ignore_password:
  assumes "gl_password g \<noteq> []" and "p \<noteq> []"
  shows "handle_secret_store cr (g\<lparr>gl_password := p\<rparr>) w args = handle_secret_store cr g w args
    \<and> handle_secret_get cr (g\<lparr>gl_password := p\<rparr>) w args = handle_secret_get cr g w args
    \<and> handle_secret_delete (g\<lparr>gl_password := p\<rparr>) w args = handle_secret_delete g w args
    \<and> handle_secret_list (g\<lparr>gl_password := p\<rparr>) w args = handle_secret_list g w args
    \<and> handle_kek_rotate cr (g\<lparr>gl_password := p\<rparr>) w args = handle_kek_rotate cr g w args"
  unfolding handle_secret_store_def handle_secret_get_def handle_secret_delete_def handle_secret_list_def
    handle_kek_rotate_def other_password other_prompt [OF assms] other_prompt_json
  by blast

end
