(* ===== verification/Base64.thy ===== *)
theory Base64
  imports Cli
begin

section \<open>Base64 of binary secrets (\<open>base64_encode\<close> of \<open>cli/ssm_cli.cc\<close>)\<close>

text \<open>
  The tool has an encoder only, the decoder is the command \<open>env exec\<close> runs. The reference decoder here
  is written from RFC 4648: four characters at a time, three bytes each, padding at the end only.
\<close>

definition base64_word :: "char \<Rightarrow> 32 word" where
  "base64_word c = word_of_nat (length (takeWhile (\<lambda>d. d \<noteq> c) BASE64_TABLE))"

fun base64_decode :: "string \<Rightarrow> bytes option" where
  "base64_decode [] = Some []"
| "base64_decode (a # b # c # d # rest) =
     (let t = push_bit 18 (base64_word a) OR push_bit 12 (base64_word b);
          t3 = t OR push_bit 6 (base64_word c);
          t4 = t3 OR base64_word d
      in if \<not> {a, b} \<subseteq> set BASE64_TABLE then None
         else if c = CHR ''='' then (if d = CHR ''='' \<and> rest = [] then Some [ucast (drop_bit 16 t)] else None)
         else if c \<notin> set BASE64_TABLE then None
         else if d = CHR ''=''
              then (if rest = [] then Some [ucast (drop_bit 16 t3), ucast (drop_bit 8 t3)] else None)
         else if d \<notin> set BASE64_TABLE then None
         else map_option (\<lambda>bs. ucast (drop_bit 16 t4) # ucast (drop_bit 8 t4) # ucast t4 # bs)
                (base64_decode rest))"
| "base64_decode _ = None"

lemma table_digits:
  "\<forall>i \<in> set [0..<64]. BASE64_TABLE ! i \<in> set BASE64_TABLE \<and> BASE64_TABLE ! i \<noteq> CHR ''=''
     \<and> length (takeWhile (\<lambda>d. d \<noteq> BASE64_TABLE ! i) BASE64_TABLE) = i"
  by code_simp

lemma sextet: "x AND 0x3F = take_bit 6 (x :: 32 word)"
  by (simp add: take_bit_eq_mask mask_eq_exp_minus_1)

lemma sextet_less: "unat (take_bit 6 (x :: 32 word)) < 64"
  using take_bit_nat_less_exp [of 6 "unat x"] by (simp add: unsigned_take_bit_eq)

lemma base64_char_simps [simp]:
  "base64_char x \<in> set BASE64_TABLE" "base64_char x \<noteq> CHR ''=''" "base64_word (base64_char x) = take_bit 6 x"
  using table_digits sextet_less [of x] by (auto simp: base64_char_def sextet base64_word_def)

text \<open>The three bytes of a group are cut into four sextets and put together again.\<close>

abbreviation group_of :: "byte \<Rightarrow> byte \<Rightarrow> byte \<Rightarrow> 32 word" where
  "group_of x y z \<equiv> push_bit 16 (ucast x) OR push_bit 8 (ucast y) OR ucast z"

lemma group_bytes:
  "ucast (drop_bit 16 (group_of x y z)) = x" "ucast (drop_bit 8 (group_of x y z)) = y"
  "ucast (group_of x y z) = z"
  by (rule bit_word_eqI; auto simp: bit_simps dest: bit_imp_le_length)+

lemma sextets_joined:
  fixes t :: "32 word"
  shows "push_bit 18 (take_bit 6 (drop_bit 18 t)) OR push_bit 12 (take_bit 6 (drop_bit 12 t))
      = push_bit 12 (take_bit 12 (drop_bit 12 t))"
    and "push_bit 12 (take_bit 12 (drop_bit 12 t)) OR push_bit 6 (take_bit 6 (drop_bit 6 t))
      = push_bit 6 (take_bit 18 (drop_bit 6 t))"
    and "push_bit 6 (take_bit 18 (drop_bit 6 t)) OR take_bit 6 t = take_bit 24 t"
  by (rule bit_word_eqI; auto simp: bit_simps not_le)+

lemma bytes_of_joined:
  fixes t :: "32 word"
  shows "(ucast (drop_bit 16 (push_bit 12 (take_bit 12 (drop_bit 12 t)))) :: byte) = ucast (drop_bit 16 t)"
    and "(ucast (drop_bit 16 (push_bit 6 (take_bit 18 (drop_bit 6 t)))) :: byte) = ucast (drop_bit 16 t)"
    and "(ucast (drop_bit 8 (push_bit 6 (take_bit 18 (drop_bit 6 t)))) :: byte) = ucast (drop_bit 8 t)"
    and "(ucast (drop_bit 16 (take_bit 24 t)) :: byte) = ucast (drop_bit 16 t)"
    and "(ucast (drop_bit 8 (take_bit 24 t)) :: byte) = ucast (drop_bit 8 t)"
    and "(ucast (take_bit 24 t) :: byte) = ucast t"
  by (rule bit_word_eqI; auto simp: bit_simps not_le)+

text \<open>What the encoder makes of one, two or three bytes, and what the decoder makes of that.\<close>

lemma encode_group:
  "base64_encode [x] = (let t = group_of x 0 0
     in [base64_char (drop_bit 18 t), base64_char (drop_bit 12 t), CHR ''='', CHR ''=''])"
  "base64_encode [x, y] = (let t = group_of x y 0
     in [base64_char (drop_bit 18 t), base64_char (drop_bit 12 t), base64_char (drop_bit 6 t), CHR ''=''])"
  "base64_encode (x # y # z # bs) = (let t = group_of x y z
     in [base64_char (drop_bit 18 t), base64_char (drop_bit 12 t), base64_char (drop_bit 6 t), base64_char t]
        @ base64_encode bs)"
  by (simp_all add: Let_def)

lemma decode_group:
  "base64_decode [base64_char (drop_bit 18 t), base64_char (drop_bit 12 t), CHR ''='', CHR ''='']
     = Some [ucast (drop_bit 16 t)]"
  "base64_decode [base64_char (drop_bit 18 t), base64_char (drop_bit 12 t), base64_char (drop_bit 6 t), CHR ''='']
     = Some [ucast (drop_bit 16 t), ucast (drop_bit 8 t)]"
  "base64_decode ([base64_char (drop_bit 18 t), base64_char (drop_bit 12 t), base64_char (drop_bit 6 t),
     base64_char t] @ rest)
     = map_option (\<lambda>bs. ucast (drop_bit 16 t) # ucast (drop_bit 8 t) # ucast t # bs) (base64_decode rest)"
  by (simp_all add: Let_def sextets_joined bytes_of_joined del: drop_bit_or push_bit_or take_bit_or)

lemma base64_decode_encode [simp]: "base64_decode (base64_encode bs) = Some bs"
proof (induction bs rule: base64_encode.induct)
  case (2 x data)
  consider "data = []" | y where "data = [y]" | y z zs where "data = y # z # zs" by (metis list.exhaust)
  then show ?case
  proof cases
    case 3
    then have "base64_decode (base64_encode zs) = Some zs" using 2 by simp
    then show ?thesis
      unfolding 3 encode_group Let_def decode_group group_bytes by (simp only: option.map)
  qed (simp_all only: encode_group Let_def decode_group group_bytes)
qed simp

lemma base64_length: "length (base64_encode bs) = 4 * ((length bs + 2) div 3)"
proof (induction bs rule: base64_encode.induct)
  case (2 x data)
  have "(Suc (length data) + 2) div 3 = Suc ((length (drop 2 data) + 2) div 3)" by (cases "2 \<le> length data") auto
  then show ?case using 2 by (simp add: Let_def)
qed simp

lemma base64_text: "set (base64_encode bs) \<subseteq> insert (CHR ''='') (set BASE64_TABLE)"
  by (induction bs rule: base64_encode.induct) (auto simp: Let_def split: if_splits)

interpretation base64: codec base64_encode base64_decode "\<lambda>_. True"
  by unfold_locales simp

end
