(* ===== verification/Cli_Safety.thy ===== *)
theory Cli_Safety
  imports Cli_Behaviour Base64 Vault_Users
begin

section \<open>Settings, exit codes and the environment of a command\<close>

subsection \<open>Settings\<close>

text \<open>The two keys are arrays of 32 bytes; their lengths say how much of them counts.\<close>

definition keys_fit :: "globals \<Rightarrow> bool" where
  "keys_fit g \<longleftrightarrow> length (gl_db_key g) = 32 \<and> gl_db_key_len g \<le> 32
     \<and> length (gl_backup_key g) = 32 \<and> gl_backup_key_len g \<in> {0, 32}"

lemma set_keys_fit:
  "set_db_key s g = Some g' \<Longrightarrow> keys_fit g \<Longrightarrow> keys_fit g'"
  "set_backup_key s g = Some g' \<Longrightarrow> keys_fit g \<Longrightarrow> keys_fit g'"
proof -
  obtain ok key len where d: "hex_decode (c_str s) (gl_db_key g) (gl_db_key_len g) 32 = (ok, key, len)"
    by (metis prod_cases3)
  obtain ok' key' len' where b: "hex_decode (c_str s) (gl_backup_key g) (gl_backup_key_len g) 32 = (ok', key', len')"
    by (metis prod_cases3)
  show "set_db_key s g = Some g' \<Longrightarrow> keys_fit g \<Longrightarrow> keys_fit g'"
    using hex_decode_accepts [OF _ d] d by (auto simp: set_db_key_def keys_fit_def split: if_splits)
  show "set_backup_key s g = Some g' \<Longrightarrow> keys_fit g \<Longrightarrow> keys_fit g'"
    using hex_decode_accepts [OF _ b] b by (auto simp: set_backup_key_def keys_fit_def split: if_splits)
qed

lemma initial_keys_fit: "keys_fit initial_globals"
  by (simp add: keys_fit_def initial_globals_def)

lemma keys_fit_simps [simp]:
  "keys_fit (g\<lparr>gl_db_path := p\<rparr>) = keys_fit g" "keys_fit (g\<lparr>gl_password := s\<rparr>) = keys_fit g"
  "keys_fit (g\<lparr>gl_json := b\<rparr>) = keys_fit g"
  by (simp_all add: keys_fit_def)

lemma config_keys_fit: "apply_config cf g = Some g' \<Longrightarrow> keys_fit g \<Longrightarrow> keys_fit g'"
  by (auto simp: apply_config_def Let_def split: if_splits bind_splits dest!: set_keys_fit)

lemma environment_keys_fit: "apply_environment w g = Some g' \<Longrightarrow> keys_fit g \<Longrightarrow> keys_fit g'"
  by (auto simp: apply_environment_def Let_def split: option.splits bind_splits dest!: set_keys_fit)

lemma option_keys_fit: "apply_option x a g = Inr g' \<Longrightarrow> keys_fit g \<Longrightarrow> keys_fit g'"
  by (auto simp: apply_option_def Let_def split: opt.splits option.splits dest: set_keys_fit)

lemma options_keys_fit: "parse_options g args = Inr (g', rest) \<Longrightarrow> keys_fit g \<Longrightarrow> keys_fit g'"
proof (induction g args rule: parse_options.induct)
  case (2 g a args)
  show ?case
    using 2 option_keys_fit
    by (simp add: Let_def split: if_splits option.splits sum.splits list.splits)
qed simp

text \<open>
  Whatever the configuration file, the environment and the command line say, the decoded keys stay
  within their arrays: a command that is run finds two arrays of 32 bytes, a database key of at most 32
  of them and a backup key of none or all.
\<close>

theorem settings_fit_arrays:
  assumes "Option.bind (apply_config cf initial_globals) (apply_environment w) = Some g"
    and "parse_options g argv = Inr (g1, rest)"
  shows "length (gl_db_key g1) = 32 \<and> gl_db_key_len g1 \<le> 32
    \<and> length (gl_backup_key g1) = 32 \<and> gl_backup_key_len g1 \<in> {0, 32}"
proof -
  have "keys_fit g"
    using assms(1) config_keys_fit environment_keys_fit initial_keys_fit by (auto split: bind_splits)
  then show ?thesis using options_keys_fit [OF assms(2)] by (simp add: keys_fit_def)
qed

subsection \<open>Exit codes\<close>

text \<open>
  The exit code of \<open>user auth\<close> is the answer: on a working machine it is 0 exactly when the user is in
  the database and the password (up to a NUL character) is the one its hash was made from, and 1 otherwise.
\<close>

theorem auth_exit_code:
  assumes w: "working g w" and pw: "gl_password g \<noteq> []" and u: "is_valid_username (Some u)"
    and f: "read_tables (db_key_of g) w (gl_db_path g) = Some t" "current t" "wf_tables t"
  shows "fst (handle_user_auth cr g w (u # args)) =
    (if \<exists>r. find_user u t = Some r \<and> argon2id_verify cr (bytes_of_string (c_str (gl_password g))) (u_password_hash r)
     then Exit 0 else Exit 1)"
proof -
  obtain v where i: "ssm_init (os_of (db_key_of g) w) True (Some (gl_db_path g)) (db_key_of g) = (SSM_OK, Some v, None)"
    and v: "healthy (v_db v)" "vault_ok cr v" "same_but_audit t (db_tabs (v_db v))"
    using working_init [OF w f] by blast
  obtain st a v1 where run:
    "ssm_user_authenticate cr (Some u) (Some (c_str (gl_password g))) (Some 0) v = (st, a, v1)"
    by (metis prod_cases3)
  have "vault_ok cr v1"
    using authenticate_ok [OF v(2), of "Some u" "Some (c_str (gl_password g))" "Some 0"] run by simp
  moreover have "find_user u (db_tabs (v_db v)) = find_user u t"
    using same_but_auditD [OF v(3)] by (simp add: find_user_def)
  ultimately show ?thesis
    using authenticate_answer [OF v(1) u run] pw
      session_run [where the_call = "\<lambda>v. ssm_user_authenticate cr (Some u) (Some (c_str (gl_password g))) (Some 0) v", OF i run]
    by (auto simp: handle_user_auth_def Let_def)
qed

subsection \<open>Secrets in the environment\<close>

text \<open>The environment can hold any text without a NUL; binary keys go into it as Base64.\<close>

lemma byte_mod: "unat (x :: byte) mod 256 = unat x"
  using unsigned_less [of x, where 'a = nat] by simp

lemma char_code_byte: "char_code (char_of (unat (x :: byte)) :: char) = unat x"
  by (simp add: byte_mod)

text \<open>
  The variables for one secret bring its key: either the key is text and is the value, or the value is its
  Base64 and a second variable says so; neither has a NUL that would cut it off.
\<close>

lemma value_brings_key:
  shows "\<exists>s. CHR 0x00 \<notin> set s \<and>
    (secret_variables e priv = [(e, s)] \<and> map (\<lambda>c. word_of_nat (char_code c)) s = priv
     \<or> secret_variables e priv = [(e, s), (e @ ''_ENC'', ''base64'')] \<and> base64_decode s = Some priv)"
proof (cases "is_printable priv")
  case True
  have "map (\<lambda>c. word_of_nat (char_code c)) (string_of_bytes priv) = priv"
    by (simp add: string_of_bytes_def comp_def byte_mod)
  moreover have "CHR 0x00 \<notin> set (string_of_bytes priv)"
  proof
    assume "CHR 0x00 \<in> set (string_of_bytes priv)"
    then obtain x where "x \<in> set priv" "char_of (unat x) = CHR 0x00" by (auto simp: string_of_bytes_def)
    then have "x \<in> set priv" "unat x = 0" using char_code_byte [of x] by simp_all
    then show False using True by (auto simp: is_printable_def list_all_iff unat_eq_0)
  qed
  ultimately show ?thesis using True by (auto simp: secret_variables_def)
next
  case False
  have "CHR 0x00 \<notin> insert (CHR ''='') (set BASE64_TABLE)" by (simp add: BASE64_TABLE_def)
  then have "CHR 0x00 \<notin> set (base64_encode priv)" using base64_text [of priv] by blast
  then show ?thesis using False by (auto simp: secret_variables_def)
qed

definition env_name_ok :: "string \<Rightarrow> bool" where
  "env_name_ok k \<longleftrightarrow> take 4 k = ''SSM_''
     \<and> list_all (\<lambda>c. c = CHR ''_'' \<or> 65 \<le> char_code c \<and> char_code c \<le> 90 \<or> is_digit c) k"

lemma env_char_ok:
  "env_char c = CHR ''_'' \<or> 65 \<le> char_code (env_char c) \<and> char_code (env_char c) \<le> 90 \<or> is_digit (env_char c)"
  by (auto simp: env_char_def is_digit_def Let_def of_char_of)

lemma sanitize_ok: "env_name_ok (sanitize_env_name n)" "env_name_ok (sanitize_env_name n @ ''_ENC'')"
  "env_name_ok ''SSM_COUNT''"
  using env_char_ok by (auto simp: env_name_ok_def sanitize_env_name_def list_all_iff is_digit_def)

lemma set_secrets_names:
  "set_secrets cr u names v = (vars, v') \<Longrightarrow> (k, x) \<in> set vars \<Longrightarrow> env_name_ok k"
  by (induction names arbitrary: v vars v')
    (auto simp: Let_def secret_variables_def sanitize_ok split: if_splits prod.splits)

lemma env_calls_Some:
  assumes "env_calls cr u pw v = (Some vars, v')"
  shows "(\<forall>(k, x) \<in> set vars. env_name_ok k) \<and> is_valid_username (Some u) \<and>
    (\<exists>r. find_user u (db_tabs (v_db v)) = Some r \<and> argon2id_verify cr (bytes_of_string (c_str pw)) (u_password_hash r))"
proof -
  obtain st a v1 where run: "ssm_user_authenticate cr (Some u) (Some (c_str pw)) (Some 0) v = (st, a, v1)"
    by (metis prod_cases3)
  have "\<forall>(k, x) \<in> set vars. env_name_ok k"
    using assms sanitize_ok(3)
    by (auto simp: env_calls_def run Let_def split: if_splits prod.splits dest: set_secrets_names)
  moreover have "st = SSM_OK \<and> the a \<noteq> 0" using assms by (auto simp: env_calls_def run Let_def split: if_splits)
  ultimately show ?thesis using run
    by (auto simp: ssm_user_authenticate_def users_find_by_username_def Let_def dest!: sql_frameD
        split: if_splits option.splits prod.splits)
qed

text \<open>
  C15. \<open>env exec\<close> starts the command only for the right password, and no secret's name can reach a variable
  outside its own: every variable set is \<open>SSM_\<close> and upper-case letters, digits and underscores, so
  neither \<open>PATH\<close> nor \<open>LD_PRELOAD\<close> can be replaced by naming a secret.
\<close>

theorem env_exec_guarded:
  assumes "handle_env_exec cr g w (u # args) = (Exec vars command, text, w')" and "gl_password g \<noteq> []"
  shows "(\<forall>(k, x) \<in> set vars. env_name_ok k)
    \<and> (\<exists>v left r. ssm_init (os_of (db_key_of g) w) True (Some (gl_db_path g)) (db_key_of g) = (SSM_OK, Some v, left)
        \<and> find_user u (db_tabs (v_db v)) = Some r
        \<and> argon2id_verify cr (bytes_of_string (c_str (gl_password g))) (u_password_hash r))"
proof -
  obtain st h left where i:
    "ssm_init (os_of (db_key_of g) w) True (Some (gl_db_path g)) (db_key_of g) = (st, h, left)"
    by (metis prod_cases3)
  obtain v where v: "h = Some v" "fst (env_calls cr u (gl_password g) v) = Some vars"
    using assms
    by (auto simp: handle_env_exec_def with_vault_def i Let_def split_beta split: list.splits if_splits option.splits)
  moreover have "st = SSM_OK" using i v(1) by (auto simp: ssm_init_def Let_def split: if_splits prod.splits)
  ultimately show ?thesis using i env_calls_Some [of cr u "gl_password g" v vars] by (metis prod.collapse)
qed

end
