(* ===== verification/Sample_Cli.thy ===== *)
theory Sample_Cli
  imports Sample_Server Cli_Safety "HOL-Library.Countable"
begin

section \<open>The theorems about the command-line tool, applied to one machine\<close>

subsection \<open>Files that hold tables\<close>

text \<open>
  The rows of the tables can be numbered, so a file can hold them: as many zero bytes as the number of
  the tables, and one more. What SQLite writes is another encoding with the same law.
\<close>

instance user_rec_ext :: (countable) countable
  by (rule countable_classI [of "\<lambda>r. to_nat (u_id r, u_username r, u_password_hash r, u_created_at r, user_rec.more r)"])
    simp

instance kek_rec_ext :: (countable) countable
  by (rule countable_classI [of "\<lambda>r. to_nat (k_id r, k_user_id r, k_wrapped_kek r, k_salt r, k_expires_at r,
      k_version r, kek_rec.more r)"]) simp

instance secret_rec_ext :: (countable) countable
  by (rule countable_classI [of "\<lambda>r. to_nat (s_id r, s_user_id r, s_name r, s_private_key r, s_public_key r,
      s_nonce r, s_tag r, s_description r, s_updated_at r, secret_rec.more r)"]) simp

instance audit_rec_ext :: (countable) countable
  by (rule countable_classI [of "\<lambda>r. to_nat (a_id r, a_user_id r, a_username r, a_operation r, a_target r,
      a_details r, a_result r, a_timestamp r, audit_rec.more r)"]) simp

instance tables_ext :: (countable) countable
  by (rule countable_classI [of "\<lambda>t. to_nat ((t_exists t, t_unique_names t, t_users t, t_keks t, t_secrets t,
      t_audit t), (t_user_seq t, t_kek_seq t, t_secret_seq t, t_audit_seq t, t_version t, t_idx_user t, t_idx_name t,
      tables.more t))"]) simp

definition zeros_image :: "bytes option \<Rightarrow> tables \<Rightarrow> bytes" where
  "zeros_image key t = replicate (Suc (to_nat t)) 0"

definition zeros_load :: "bytes option \<Rightarrow> bytes \<Rightarrow> tables option" where
  "zeros_load key b = Some (from_nat (length b - 1))"

subsection \<open>A machine with the sample database and a key file\<close>

definition sample_world :: world where
  "sample_world = \<lparr>wo_host = sample_host\<lparr>ho_disk := \<lparr>dk_files = [''v.db'' \<mapsto> zeros_image None sample_tables, ''key'' \<mapsto> [7, 8]],
       dk_io = [], dk_junk = (\<lambda>_. 7)\<rparr>\<rparr>,
     wo_image = zeros_image, wo_load = zeros_load, wo_sodium = True, wo_malloc = True, wo_mach = v_mach sample_vault,
     wo_input = [], wo_tty = False, wo_getpass = [], wo_getenv = (\<lambda>_. None), wo_config = (\<lambda>_. None), wo_exec = True\<rparr>"

definition sample_globals :: globals where
  "sample_globals = initial_globals\<lparr>gl_db_path := ''v.db'', gl_password := ''pw''\<rparr>"

lemma sample_image_law: "image_law sample_world"
  by (simp add: image_law_def sample_world_def zeros_image_def zeros_load_def)

lemma sample_working: "working sample_globals sample_world"
  by (simp add: working_def sample_world_def sample_host_def sample_db_def sample_vault_def)

lemma sample_file: "read_tables (db_key_of sample_globals) sample_world (gl_db_path sample_globals) = Some sample_tables"
  "current sample_tables" "\<not> in_memory (gl_db_path sample_globals)" "gl_password sample_globals \<noteq> []"
  by (simp_all add: read_tables_def sample_world_def sample_globals_def initial_globals_def db_key_of_def zeros_image_def
      zeros_load_def current_def sample_tables_def SSM_SCHEMA_VERSION_def in_memory_def)

lemma sample_init:
  "ssm_init (os_of (db_key_of sample_globals) sample_world) True (Some (gl_db_path sample_globals))
     (db_key_of sample_globals) = (SSM_OK, Some sample_vault, None)"
proof -
  let ?db = "sample_db\<lparr>db_fk := False\<rparr>"
  have o: "os_files (os_of (db_key_of sample_globals) sample_world) (gl_db_path sample_globals) = Some sample_tables"
    "os_sodium (os_of (db_key_of sample_globals) sample_world)" "os_malloc (os_of (db_key_of sample_globals) sample_world)"
    "\<not> os_cipher (os_of (db_key_of sample_globals) sample_world)"
    "os_conn (os_of (db_key_of sample_globals) sample_world) = sample_db"
    "os_mach (os_of (db_key_of sample_globals) sample_world) = sample_machine"
    using sample_file(1) by (simp_all add: os_of_def) (simp_all add: sample_world_def sample_host_def)
  have f: "fresh_connection sample_db sample_tables = ?db" by (simp add: fresh_connection_def sample_db_def)
  have c: "db_create_schema ?db = (True, sample_db)"
    using create_schema_healthy(1) [of ?db] sample_file(2) by (simp add: quiet_def sample_db_def)
  have m: "db_migrate sample_db = (True, sample_db)"
    using migrate_current [of sample_db] sample_file(2) by (simp add: quiet_def)
  have p: "audit_log_prune (m_now sample_machine) sample_db 90 = (True, sample_db)"
    by (simp add: audit_log_prune_def prune_audit_def)
  show ?thesis
    using o c m p
    by (simp add: ssm_init_def db_open_def f sizeof_handle_def sample_vault_def)
      (simp add: sample_globals_def sample_machine_def)
qed

lemma sample_store_command:
  "\<exists>w1. handle_secret_store sample sample_globals sample_world [''ann'', ''j'', ''key'']
      = (Exit 0, [println (''OK: secret '' @ quoted ''j'' @ '' stored for '' @ quoted ''ann'')], w1)
    \<and> m_alloc (wo_mach w1) = []"
proof -
  obtain v1 where st: "ssm_secret_store sample (Some ''ann'') (Some [7, 8]) (vec_data []) 0 (Some ''j'') None sample_vault
      = (SSM_OK, v1)" and a: "m_alloc (v_mach v1) = []"
    using store_sample by (auto simp: vec_data_def)
  have ok: "vault_ok sample v1"
    using store_secret_ok [OF sample_ok sample_lawful, of "Some ''ann''" "Some [7, 8]" "vec_data []" 0 "Some ''j''" None]
      st by simp
  have r: "read_file ''key'' (ho_disk (wo_host sample_world)) = (Some [7, 8], ho_disk (wo_host sample_world))"
    by (simp add: read_file_def next_io_def sample_world_def)
  have same: "on_disk (\<lambda>_. ho_disk (wo_host sample_world)) sample_world = sample_world" by (simp add: on_disk_def)
  show ?thesis
    using session_run [where the_call = "\<lambda>v. plain (ssm_secret_store sample (Some ''ann'') (Some [7, 8]) (vec_data []) 0
        (Some ''j'') None v)", OF sample_init _ ok, of SSM_OK "()"] st a sample_file(4)
    by (simp add: handle_secret_store_def r same Let_def)
qed

theorem cli_store_then_get_witness:
  "\<exists>text w1 w2. handle_secret_store sample sample_globals sample_world [''ann'', ''j'', ''key''] = (Exit 0, text, w1)
    \<and> handle_secret_get sample sample_globals w1 [''ann'', ''j'', ''--out'', ''copy'']
       = (Exit 0, [written_key ''private'' [7, 8] ''copy''], w2)
    \<and> dk_files (ho_disk (wo_host w2)) ''copy'' = Some [7, 8]"
proof -
  obtain w1 where run: "handle_secret_store sample sample_globals sample_world [''ann'', ''j'', ''key'']
      = (Exit 0, [println (''OK: secret '' @ quoted ''j'' @ '' stored for '' @ quoted ''ann'')], w1)"
    and a: "m_alloc (wo_mach w1) = []"
    using sample_store_command by blast
  have k: "dk_files (ho_disk (wo_host sample_world)) ''key'' = Some [7, 8]" by (simp add: sample_world_def)
  from cli_store_then_get [OF sample_lawful sample_image_law sample_file(3) sample_working sample_file(4,1,2)
      sample_wf k _ run a, of "''copy''"]
  show ?thesis using run by auto
qed

lemma sample_settings:
  "settings_of sample_json sample_world (''--db'' # ''v.db'' # ''--password'' # ''pw'' # ''secret'' # args)
    = Some (sample_globals, ''secret'' # args)"
proof -
  have e: "load_config sample_json sample_world = Some no_config" "apply_config no_config initial_globals = Some initial_globals"
    "apply_environment sample_world initial_globals = Some initial_globals"
    by (simp_all add: load_config_def apply_config_def no_config_def apply_environment_def sample_world_def)
  have "parse_options initial_globals (''--db'' # ''v.db'' # ''--password'' # ''pw'' # ''secret'' # args)
      = Inr (sample_globals, ''secret'' # args)"
    by (simp add: find_option_def long_opts_def takes_argument_def apply_option_def sample_globals_def)
  then show ?thesis by (simp add: settings_of_def e)
qed

theorem program_store_then_get_witness:
  "\<exists>text w1 w2. main sample_json sample sample_vd (\<lambda>_ _. []) (\<lambda>g w a. (Exit 0, [], w)) (\<lambda>g w a. (Exit 0, [], w)) sample_world
       [''--db'', ''v.db'', ''--password'', ''pw'', ''secret'', ''store'', ''ann'', ''j'', ''key''] = (Exit 0, text, w1)
    \<and> main sample_json sample sample_vd (\<lambda>_ _. []) (\<lambda>g w a. (Exit 0, [], w)) (\<lambda>g w a. (Exit 0, [], w)) w1
       [''--db'', ''v.db'', ''--password'', ''pw'', ''secret'', ''get'', ''ann'', ''j'', ''--out'', ''copy'']
      = (Exit 0, [written_key ''private'' [7, 8] ''copy''], w2)
    \<and> dk_files (ho_disk (wo_host w2)) ''copy'' = Some [7, 8]"
proof -
  obtain w1 where st: "handle_secret_store sample sample_globals sample_world [''ann'', ''j'', ''key'']
      = (Exit 0, [println (''OK: secret '' @ quoted ''j'' @ '' stored for '' @ quoted ''ann'')], w1)"
    and a: "m_alloc (wo_mach w1) = []"
    using sample_store_command by blast
  have run: "main sample_json sample sample_vd (\<lambda>_ _. []) (\<lambda>g w a. (Exit 0, [], w)) (\<lambda>g w a. (Exit 0, [], w)) sample_world
       [''--db'', ''v.db'', ''--password'', ''pw'', ''secret'', ''store'', ''ann'', ''j'', ''key'']
      = (Exit 0, [println (''OK: secret '' @ quoted ''j'' @ '' stored for '' @ quoted ''ann'')], w1)"
    unfolding main_runs [OF sample_settings] run_secret_command by (rule st)
  have k: "dk_files (ho_disk (wo_host sample_world)) ''key'' = Some [7, 8]" by (simp add: sample_world_def)
  from program_store_then_get [OF sample_lawful sample_image_law sample_file(3) sample_working sample_file(4,1,2)
      sample_wf k _ sample_settings sample_settings run a]
  show ?thesis using run by auto
qed

theorem secret_commands_ignore_password_witness:
  "handle_secret_get sample (sample_globals\<lparr>gl_password := ''no''\<rparr>) sample_world [''ann'', ''k'']
    = handle_secret_get sample sample_globals sample_world [''ann'', ''k'']"
  using secret_commands_ignore_password [OF sample_file(4), of "''no''"] by blast

lemma sample_find: "find_user ''ann'' sample_tables = Some sample_user"
  by (simp add: find_user_def sample_tables_def sample_user_def)

lemma sample_verifies: "argon2id_verify sample (bytes_of_string (c_str ''pw'')) (u_password_hash sample_user)"
  "\<not> argon2id_verify sample (bytes_of_string (c_str ''no'')) (u_password_hash sample_user)"
  by code_simp+

lemma ann_named: "is_valid_username (Some ''ann'')"
  by (simp add: is_valid_username_def SSM_USERNAME_MAX_def)

theorem auth_exit_code_witness:
  "fst (handle_user_auth sample sample_globals sample_world [''ann'']) = Exit 0
    \<and> fst (handle_user_auth sample (sample_globals\<lparr>gl_password := ''no''\<rparr>) sample_world [''ann'']) = Exit 1"
proof -
  have "gl_password sample_globals = ''pw''" by (simp add: sample_globals_def)
  moreover have "working (sample_globals\<lparr>gl_password := ''no''\<rparr>) sample_world"
    "read_tables (db_key_of (sample_globals\<lparr>gl_password := ''no''\<rparr>)) sample_world (gl_db_path sample_globals)
      = Some sample_tables"
    using sample_working sample_file(1) by (simp_all add: working_def db_key_of_def split: if_splits)
  ultimately show ?thesis
    using auth_exit_code [OF sample_working sample_file(4) ann_named sample_file(1,2) sample_wf, of sample "[]"]
      auth_exit_code [of "sample_globals\<lparr>gl_password := ''no''\<rparr>", OF _ _ ann_named _ sample_file(2) sample_wf, of sample_world sample "[]"]
    by (simp add: sample_find sample_verifies)
qed

theorem settings_fit_arrays_witness:
  "\<exists>g g1. Option.bind (apply_config no_config initial_globals)
      (apply_environment (sample_world\<lparr>wo_getenv := [''SSM_DB_KEY'' \<mapsto> ''0aff'']\<rparr>)) = Some g
    \<and> parse_options g [''--db=v.db'', ''user''] = Inr (g1, [''user''])
    \<and> gl_db_key_len g1 = 2 \<and> length (gl_db_key g1) = 32"
proof -
  let ?w = "sample_world\<lparr>wo_getenv := [''SSM_DB_KEY'' \<mapsto> ''0aff'']\<rparr>"
  have "set_db_key ''0aff'' initial_globals
      = Some (initial_globals\<lparr>gl_db_key := [0x0a, 0xff] @ replicate 30 0, gl_db_key_len := 2\<rparr>)"
    by code_simp
  then have b: "Option.bind (apply_config no_config initial_globals) (apply_environment ?w)
      = Some (initial_globals\<lparr>gl_db_key := [0x0a, 0xff] @ replicate 30 0, gl_db_key_len := 2\<rparr>)" (is "_ = Some ?g")
    by (simp add: apply_config_def no_config_def apply_environment_def)
  have p: "parse_options ?g [''--db=v.db'', ''user''] = Inr (?g\<lparr>gl_db_path := ''v.db''\<rparr>, [''user''])"
    by (simp add: find_option_def long_opts_def takes_argument_def apply_option_def Let_def)
  from settings_fit_arrays [OF b p] show ?thesis using b p by auto
qed

lemma sample_env_calls: "\<exists>vars v3. env_calls sample ''ann'' ''pw'' sample_vault = (Some vars, v3)"
proof -
  obtain st a v1 where auth: "ssm_user_authenticate sample (Some ''ann'') (Some (c_str ''pw'')) (Some 0) sample_vault
      = (st, a, v1)" by (metis prod_cases3)
  have sv: "sample_vault\<lparr>v_db := sample_db\<rparr> = sample_vault" by (simp add: sample_vault_def)
  have ok: "st = SSM_OK" "a = Some 1"
    using authenticate_answer [OF _ ann_named auth] sample_verifies by (simp_all add: sample_find)
  obtain op det where v1: "v1 = log_audit ''ann'' 1 op SSM_OK None det sample_vault"
    using auth ok sample_verifies
    by (auto simp: ssm_user_authenticate_def ann_named users_find_healthy sample_find sample_user_def sv
        split: if_splits)
  have h: "healthy (v_db v1)" unfolding v1 by simp
  have "same_but_audit sample_tables (db_tabs (v_db v1))"
    using log_audit_frame(4) [of sample_vault] v1 by simp
  note same = same_but_auditD [OF this]
  have user: "find_user ''ann'' (db_tabs (v_db v1)) = Some sample_user"
    using same sample_find by (simp add: find_user_def)
  have kek: "find_kek 1 (db_tabs (v_db v1)) = Some sample_kek"
    using same by (simp add: find_kek_def sample_tables_def sample_kek_def)
  have "fst (ssm_secret_list (Some ''ann'') True v1) = SSM_OK"
    using h user kek v1 sample_times(2) healthyD(1) [OF h]
    by (simp add: ssm_secret_list_def open_session_def users_find_healthy kek_find_healthy secrets_list_for_user_def
        read_kek_row_def sample_user_def sample_kek_def split: prod.split)
  then obtain items v2 where "ssm_secret_list (Some ''ann'') True v1 = (SSM_OK, items, v2)"
    by (metis prod.collapse)
  then show ?thesis using auth ok by (simp add: env_calls_def split: prod.split)
qed

lemma env_exec_sample:
  "\<exists>vars text w'. handle_env_exec sample sample_globals sample_world [''ann'', ''--'', ''sh''] = (Exec vars [''sh''], text, w')"
proof -
  obtain vars v3 where e: "env_calls sample ''ann'' ''pw'' sample_vault = (Some vars, v3)"
    using sample_env_calls by blast
  have "wo_exec (save_tables g t (sample_world\<lparr>wo_mach := m\<rparr>))" for g t m
    by (simp add: save_tables_def on_disk_def sample_world_def)
  moreover have "gl_password sample_globals = ''pw''" by (simp add: sample_globals_def)
  ultimately show ?thesis
    using sample_init e
    by (auto simp: handle_env_exec_def with_vault_def close_handle_def ssm_destroy_def Let_def sample_world_def)
qed

theorem env_exec_guarded_witness:
  "\<exists>vars text w'. handle_env_exec sample sample_globals sample_world [''ann'', ''--'', ''sh''] = (Exec vars [''sh''], text, w')
    \<and> (\<forall>(k, x) \<in> set vars. env_name_ok k)"
proof -
  obtain vars printed w' where
    run: "handle_env_exec sample sample_globals sample_world [''ann'', ''--'', ''sh''] = (Exec vars [''sh''], printed, w')"
    using env_exec_sample by blast
  from env_exec_guarded [OF run sample_file(4)] show ?thesis using run by blast
qed

end
