(* ===== verification/Tui.thy ===== *)
theory Tui
  imports Cli
begin

section \<open>The terminal interface (\<open>cli/ssm_tui.cc\<close>)\<close>

text \<open>
  \<open>ssm-cli tui\<close> is a loop over screens. ncurses is not part of the repository: what it does for the
  screens is to hand over one key at a time, with the height of the terminal when that changes, and to
  show text. So a session is a list of events; when it is used up the terminal is gone, and \<open>getch\<close>
  answers \<open>ERR\<close> at once, for ever. A loop that goes on in that case never returns, which is \<open>None\<close>.

  Of what is shown the notices and the lines with data are kept, in order; titles, labels, colours and
  positions are not modelled. The database and the files are those of the machine of \<open>Cli\<close>.
\<close>

datatype event = Key int | Resize int

datatype shown = Notice string bool | Line string

record tui =
  tu_world :: world
  tu_events :: "event list"
  tu_lines :: int
  tu_shown :: "shown list"

datatype screen =
    SCREEN_MAIN
  | SCREEN_USER_MENU
  | SCREEN_USER_REGISTER
  | SCREEN_USER_AUTH
  | SCREEN_USER_DELETE
  | SCREEN_USER_CHANGE_PW
  | SCREEN_SECRET_MENU
  | SCREEN_SECRET_STORE
  | SCREEN_SECRET_GET
  | SCREEN_SECRET_DELETE
  | SCREEN_SECRET_LIST
  | SCREEN_KEK_ROTATE
  | SCREEN_DB_INFO
  | SCREEN_CACHE_STATS
  | SCREEN_EXIT

text \<open>The key codes of ncurses.\<close>

definition ERR :: int where "ERR = -1"
definition KEY_DOWN :: int where "KEY_DOWN = 258"
definition KEY_UP :: int where "KEY_UP = 259"
definition KEY_BACKSPACE :: int where "KEY_BACKSPACE = 263"
definition KEY_RESIZE :: int where "KEY_RESIZE = 410"

lemmas key_codes = ERR_def KEY_DOWN_def KEY_UP_def KEY_BACKSPACE_def KEY_RESIZE_def

abbreviation is_enter :: "int \<Rightarrow> bool" where
  "is_enter ch \<equiv> ch = 10 \<or> ch = 13"

abbreviation is_esc :: "int \<Rightarrow> bool" where
  "is_esc ch \<equiv> ch = 27"

fun key_of :: "event \<Rightarrow> int" where
  "key_of (Key c) = c"
| "key_of (Resize n) = KEY_RESIZE"

fun lines_after :: "event \<Rightarrow> int \<Rightarrow> int" where
  "lines_after (Key c) n = n"
| "lines_after (Resize n) m = n"

text \<open>The answer of \<open>getch\<close>, the events that remain and the height of the terminal.\<close>

definition next_key :: "event list \<Rightarrow> int \<Rightarrow> int \<times> event list \<times> int" where
  "next_key es n = (case es of [] \<Rightarrow> (ERR, [], n) | e # rest \<Rightarrow> (key_of e, rest, lines_after e n))"

definition getch :: "tui \<Rightarrow> int \<times> tui" where
  "getch t = (case next_key (tu_events t) (tu_lines t) of (ch, es, n) \<Rightarrow> (ch, t\<lparr>tu_events := es, tu_lines := n\<rparr>))"

lemma next_key_simps [simp]: "next_key [] n = (ERR, [], n)" "next_key (e # es) n = (key_of e, es, lines_after e n)"
  by (simp_all add: next_key_def)

lemma getch_eq:
  "getch t = (case tu_events t of
     [] \<Rightarrow> (ERR, t) | e # es \<Rightarrow> (key_of e, t\<lparr>tu_events := es, tu_lines := lines_after e (tu_lines t)\<rparr>))"
  by (cases t) (simp add: getch_def split: list.split)

subsection \<open>Input, menus and notices\<close>

text \<open>
  The loops call \<open>getch\<close> until they end, and need not end: they are partial functions, and \<open>None\<close> is
  that they never return. The equations by the list of events follow from the fixpoint: with no events
  left every call answers \<open>ERR\<close>, on which none of the branches ends the loop.
\<close>

partial_function (option) input_loop :: "nat \<Rightarrow> string \<Rightarrow> event list \<Rightarrow> int \<Rightarrow> (string \<times> event list \<times> int) option" where
  "input_loop max_len buf es n =
     (case next_key es n of (ch, es1, n1) \<Rightarrow>
        if is_enter ch then Some (buf, es1, n1)
        else if is_esc ch then Some ([], es1, n1)
        else if ch = KEY_BACKSPACE \<or> ch = 127 \<or> ch = 8 then input_loop max_len (butlast buf) es1 n1
        else if 32 \<le> ch \<and> ch \<le> 126
        then input_loop max_len (if length buf < max_len then buf @ [char_of (nat ch)] else buf) es1 n1
        else input_loop max_len buf es1 n1)"

lemma input_loop_lost: "input_loop max_len buf [] n = None"
proof -
  have "[] \<noteq> ([] :: event list)" if "input_loop max_len buf [] n = Some r" for r
    by (rule input_loop.raw_induct [where P = "\<lambda>_ _ es _ _. es \<noteq> []", OF _ that])
      (fastforce simp: key_codes next_key_def split: list.splits if_splits)
  then show ?thesis by (cases "input_loop max_len buf [] n") auto
qed

lemma input_loop_simps [simp]:
  "input_loop max_len buf [] n = None"
  "input_loop max_len buf (e # es) n =
     (let ch = key_of e; n1 = lines_after e n
      in if is_enter ch then Some (buf, es, n1)
         else if is_esc ch then Some ([], es, n1)
         else if ch = KEY_BACKSPACE \<or> ch = 127 \<or> ch = 8 then input_loop max_len (butlast buf) es n1
         else if 32 \<le> ch \<and> ch \<le> 126
         then input_loop max_len (if length buf < max_len then buf @ [char_of (nat ch)] else buf) es n1
         else input_loop max_len buf es n1)"
  by (rule input_loop_lost) (subst input_loop.simps, simp add: Let_def)

definition get_input :: "nat \<Rightarrow> tui \<Rightarrow> (string \<times> tui) option" where
  "get_input max_len t =
     (case input_loop max_len [] (tu_events t) (tu_lines t) of
        None \<Rightarrow> None
      | Some (buf, es, n) \<Rightarrow> Some (buf, t\<lparr>tu_events := es, tu_lines := n\<rparr>))"

text \<open>\<open>items\<close> is the number of entries; the answer is the entry chosen or -1.\<close>

partial_function (option) menu_loop :: "int \<Rightarrow> int \<Rightarrow> event list \<Rightarrow> int \<Rightarrow> (int \<times> event list \<times> int) option" where
  "menu_loop items sel es n =
     (case next_key es n of (ch, es1, n1) \<Rightarrow>
        if ch = KEY_UP then menu_loop items ((sel - 1 + items) mod items) es1 n1
        else if ch = KEY_DOWN then menu_loop items ((sel + 1) mod items) es1 n1
        else if is_enter ch then Some (sel, es1, n1)
        else if is_esc ch then Some (-1, es1, n1)
        else if ch = 113 then Some (-1, es1, n1)
        else if 49 \<le> ch \<and> ch \<le> 57 \<and> ch - 49 < items then Some (ch - 49, es1, n1)
        else menu_loop items sel es1 n1)"

lemma menu_loop_lost: "menu_loop items sel [] n = None"
proof -
  have "[] \<noteq> ([] :: event list)" if "menu_loop items sel [] n = Some r" for r
    by (rule menu_loop.raw_induct [where P = "\<lambda>_ _ es _ _. es \<noteq> []", OF _ that])
      (fastforce simp: key_codes next_key_def split: list.splits if_splits)
  then show ?thesis by (cases "menu_loop items sel [] n") auto
qed

lemma menu_loop_simps [simp]:
  "menu_loop items sel [] n = None"
  "menu_loop items sel (e # es) n =
     (let ch = key_of e; n1 = lines_after e n
      in if ch = KEY_UP then menu_loop items ((sel - 1 + items) mod items) es n1
         else if ch = KEY_DOWN then menu_loop items ((sel + 1) mod items) es n1
         else if is_enter ch then Some (sel, es, n1)
         else if is_esc ch then Some (-1, es, n1)
         else if ch = 113 then Some (-1, es, n1)
         else if 49 \<le> ch \<and> ch \<le> 57 \<and> ch - 49 < items then Some (ch - 49, es, n1)
         else menu_loop items sel es n1)"
  by (rule menu_loop_lost) (subst menu_loop.simps, simp add: Let_def)

definition menu_select :: "int \<Rightarrow> tui \<Rightarrow> (int \<times> tui) option" where
  "menu_select items t =
     (case menu_loop items 0 (tu_events t) (tu_lines t) of
        None \<Rightarrow> None
      | Some (sel, es, n) \<Rightarrow> Some (sel, t\<lparr>tu_events := es, tu_lines := n\<rparr>))"

definition confirm_dialog :: "tui \<Rightarrow> bool \<times> tui" where
  "confirm_dialog t = (let (ch, t1) = getch t in (ch = 121 \<or> ch = 89, t1))"

definition show_notice :: "string \<Rightarrow> bool \<Rightarrow> tui \<Rightarrow> tui" where
  "show_notice msg is_error t = t\<lparr>tu_shown := tu_shown t @ [Notice msg is_error]\<rparr>"

definition print_lines :: "string list \<Rightarrow> tui \<Rightarrow> tui" where
  "print_lines ls t = t\<lparr>tu_shown := tu_shown t @ map Line ls\<rparr>"

definition wait_for_key :: "tui \<Rightarrow> tui" where
  "wait_for_key t = snd (getch t)"

text \<open>An input field of a form: left empty, or left with Esc, it goes back to the menu.\<close>

definition ask :: "nat \<Rightarrow> screen \<Rightarrow> tui \<Rightarrow> (string \<Rightarrow> tui \<Rightarrow> (screen \<times> tui) option) \<Rightarrow> (screen \<times> tui) option" where
  "ask max_len back t rest =
     (case get_input max_len t of
        None \<Rightarrow> None
      | Some (s, t1) \<Rightarrow> if s = [] then Some (back, t1) else rest s t1)"

text \<open>A field that may stay empty.\<close>

definition ask_any :: "nat \<Rightarrow> tui \<Rightarrow> (string \<Rightarrow> tui \<Rightarrow> (screen \<times> tui) option) \<Rightarrow> (screen \<times> tui) option" where
  "ask_any max_len t rest = (case get_input max_len t of None \<Rightarrow> None | Some (s, t1) \<Rightarrow> rest s t1)"

definition notice_back :: "string \<Rightarrow> bool \<Rightarrow> screen \<Rightarrow> tui \<Rightarrow> (screen \<times> tui) option" where
  "notice_back msg is_error back t = Some (back, wait_for_key (show_notice msg is_error t))"

text \<open>\<open>ssm_init\<close>, one call and \<open>ssm_destroy\<close>; when the first fails its status is the answer.\<close>

definition tui_call ::
  "globals \<Rightarrow> (vault \<Rightarrow> ssm_status \<times> 'a \<times> vault) \<Rightarrow> tui \<Rightarrow> ssm_status \<times> 'a option \<times> tui" where
  "tui_call g the_call t =
     (let w = tu_world t
      in case with_vault g w (\<lambda>v w. let (st, a, v1) = the_call v in ((st, a), v1, w)) of
           (None, w1) \<Rightarrow> (fst (ssm_init (os_of (db_key_of g) w) True (Some (gl_db_path g)) (db_key_of g)), None,
                          t\<lparr>tu_world := w1\<rparr>)
         | (Some (st, a), w1) \<Rightarrow> (st, Some a, t\<lparr>tu_world := w1\<rparr>))"

definition report :: "string \<Rightarrow> screen \<Rightarrow> ssm_status \<times> 'a option \<times> tui \<Rightarrow> (screen \<times> tui) option" where
  "report msg back r =
     (case r of (st, _, t) \<Rightarrow> notice_back (if st = SSM_OK then msg else status_name st) (st \<noteq> SSM_OK) back t)"

subsection \<open>Files\<close>

text \<open>A file that does not open gives no bytes; one whose reading stops leaves zeros behind.\<close>

definition tui_read_file :: "string \<Rightarrow> tui \<Rightarrow> bytes \<times> tui" where
  "tui_read_file path t =
     (let (x, d) = next_io (ho_disk (wo_host (tu_world t)));
          t1 = t\<lparr>tu_world := on_disk (\<lambda>_. d) (tu_world t)\<rparr>
      in (case dk_files d path of
            None \<Rightarrow> []
          | Some b \<Rightarrow> (case x of
                         Io_Open \<Rightarrow> []
                       | Io_Short n \<Rightarrow> take n b @ replicate (length b - n) 0
                       | _ \<Rightarrow> b), t1))"

subsection \<open>Screens\<close>

definition screen_main :: "tui \<Rightarrow> (screen \<times> tui) option" where
  "screen_main t =
     (case menu_select 6 t of
        None \<Rightarrow> None
      | Some (sel, t1) \<Rightarrow>
          Some (if sel = 0 then SCREEN_USER_MENU else if sel = 1 then SCREEN_SECRET_MENU
                else if sel = 2 then SCREEN_KEK_ROTATE else if sel = 3 then SCREEN_DB_INFO
                else if sel = 4 then SCREEN_CACHE_STATS else SCREEN_EXIT, t1))"

definition screen_user_menu :: "tui \<Rightarrow> (screen \<times> tui) option" where
  "screen_user_menu t =
     (case menu_select 5 t of
        None \<Rightarrow> None
      | Some (sel, t1) \<Rightarrow>
          Some (if sel = 0 then SCREEN_USER_REGISTER else if sel = 1 then SCREEN_USER_AUTH
                else if sel = 2 then SCREEN_USER_DELETE else if sel = 3 then SCREEN_USER_CHANGE_PW
                else SCREEN_MAIN, t1))"

definition screen_user_register :: "provider \<Rightarrow> validator \<Rightarrow> globals \<Rightarrow> tui \<Rightarrow> (screen \<times> tui) option" where
  "screen_user_register cr vd g t =
     ask 64 SCREEN_USER_MENU t (\<lambda>username t.
     ask 256 SCREEN_USER_MENU t (\<lambda>password t.
     ask_any 256 t (\<lambda>confirm t.
       if password \<noteq> confirm then notice_back ''Passwords do not match'' True SCREEN_USER_MENU t
       else report ''User registered successfully!'' SCREEN_USER_MENU
              (tui_call g (\<lambda>v. plain (ssm_user_register cr vd (Some username) (Some password) v)) t))))"

definition screen_user_auth :: "provider \<Rightarrow> globals \<Rightarrow> tui \<Rightarrow> (screen \<times> tui) option" where
  "screen_user_auth cr g t =
     ask 64 SCREEN_USER_MENU t (\<lambda>username t.
     ask 256 SCREEN_USER_MENU t (\<lambda>password t.
       let (st, r, t1) = tui_call g (ssm_user_authenticate cr (Some username) (Some password) (Some 0)) t;
           is_valid = (case r of None \<Rightarrow> 0 | Some x \<Rightarrow> the x)
       in if is_valid \<noteq> 0 then notice_back ''Authenticated successfully!'' False SCREEN_USER_MENU t1
          else notice_back (if st \<noteq> SSM_OK then status_name st else ''Invalid credentials'') True SCREEN_USER_MENU t1))"

definition screen_user_delete :: "provider \<Rightarrow> globals \<Rightarrow> tui \<Rightarrow> (screen \<times> tui) option" where
  "screen_user_delete cr g t =
     ask 64 SCREEN_USER_MENU t (\<lambda>username t.
     ask 256 SCREEN_USER_MENU t (\<lambda>password t.
       let (yes, t1) = confirm_dialog t
       in if \<not> yes then Some (SCREEN_USER_MENU, t1)
          else report ''User and all data deleted'' SCREEN_USER_MENU
                 (tui_call g (\<lambda>v. plain (ssm_user_delete cr (Some username) (Some password) v)) t1)))"

definition screen_user_change_pw :: "provider \<Rightarrow> validator \<Rightarrow> globals \<Rightarrow> tui \<Rightarrow> (screen \<times> tui) option" where
  "screen_user_change_pw cr vd g t =
     ask 64 SCREEN_USER_MENU t (\<lambda>username t.
     ask 256 SCREEN_USER_MENU t (\<lambda>old_pw t.
     ask 256 SCREEN_USER_MENU t (\<lambda>new_pw t.
     ask_any 256 t (\<lambda>confirm t.
       if new_pw \<noteq> confirm then notice_back ''New passwords do not match'' True SCREEN_USER_MENU t
       else report ''Password changed successfully'' SCREEN_USER_MENU
              (tui_call g (\<lambda>v. plain (ssm_user_change_password cr vd (Some username) (Some old_pw) (Some new_pw) v)) t)))))"

definition screen_secret_menu :: "tui \<Rightarrow> (screen \<times> tui) option" where
  "screen_secret_menu t =
     (case menu_select 5 t of
        None \<Rightarrow> None
      | Some (sel, t1) \<Rightarrow>
          Some (if sel = 0 then SCREEN_SECRET_STORE else if sel = 1 then SCREEN_SECRET_GET
                else if sel = 2 then SCREEN_SECRET_DELETE else if sel = 3 then SCREEN_SECRET_LIST
                else SCREEN_MAIN, t1))"

definition screen_secret_store :: "provider \<Rightarrow> globals \<Rightarrow> tui \<Rightarrow> (screen \<times> tui) option" where
  "screen_secret_store cr g t =
     ask 64 SCREEN_SECRET_MENU t (\<lambda>username t.
     ask 256 SCREEN_SECRET_MENU t (\<lambda>password t.
     ask 64 SCREEN_SECRET_MENU t (\<lambda>name t.
     ask 256 SCREEN_SECRET_MENU t (\<lambda>key_path t.
     ask_any 256 t (\<lambda>pub_path t.
     ask_any 256 t (\<lambda>desc t.
       let (key_data, t1) = tui_read_file key_path t
       in if key_data = [] then notice_back ''Failed to read key file'' True SCREEN_SECRET_MENU t1
          else (let (pub_data, t2) = (if pub_path \<noteq> [] then tui_read_file pub_path t1 else ([], t1))
                in if pub_path \<noteq> [] \<and> pub_data = []
                   then notice_back ''Failed to read public key file'' True SCREEN_SECRET_MENU t2
                   else report ''Secret stored successfully!'' SCREEN_SECRET_MENU
                          (tui_call g (\<lambda>v. plain (ssm_secret_store cr (Some username) (Some key_data) (vec_data pub_data)
                             (length pub_data) (Some name) (if desc = [] then None else Some desc) v)) t2))))))))"

text \<open>The second call of \<open>screen_secret_get\<close> comes with new buffers of the sizes asked for.\<close>

definition get_fresh :: "provider \<Rightarrow> string \<Rightarrow> string \<Rightarrow> vault \<Rightarrow> ssm_status \<times> key_out \<times> vault" where
  "get_fresh cr username name v =
     (let (st, k, v1) = ssm_secret_get cr (Some username) (Some name) key_buffers v;
          priv_len = the (go_private_len k); pub_len = the (go_public_len k)
      in if st = SSM_ERR_INTERNAL \<and> priv_len > 65536
         then ssm_secret_get cr (Some username) (Some name)
                \<lparr>go_private = Some (replicate priv_len 0), go_private_len = Some priv_len,
                 go_public = Some (replicate pub_len 0), go_public_len = Some pub_len\<rparr> v1
         else (st, k, v1))"

text \<open>Sixteen bytes a line behind their offset, as long as there are at most 256.\<close>

definition hex_byte :: "nat \<Rightarrow> string" where
  "hex_byte n = [hex_digit (n div 16), hex_digit (n mod 16)]"

fun dump_lines :: "nat \<Rightarrow> bytes \<Rightarrow> string list" where
  "dump_lines i [] = []"
| "dump_lines i (x # xs) =
     (hex_byte (i div 256) @ hex_byte (i mod 256) @ ''  ''
        @ concat (map (\<lambda>b. ''  '' @ hex_byte (unat b)) (take 1 (x # xs)))
        @ concat (map (\<lambda>b. '' '' @ hex_byte (unat b)) (take 15 xs)))
     # dump_lines (i + 16) (drop 15 xs)"

definition secret_lines :: "string \<Rightarrow> bytes \<Rightarrow> bytes \<Rightarrow> string list" where
  "secret_lines name priv pub =
     [''Secret: '' @ name, ''Private key: '' @ decimal (length priv) @ '' bytes'', ''(hex) '']
     @ (if length priv > 256
        then [''Data too large to display ('' @ decimal (length priv) @ '' bytes).'']
        else dump_lines 0 priv)
     @ (if length pub > 0
        then (''Public key: '' @ decimal (length pub) @ '' bytes'')
             # (if length pub \<le> 256 then dump_lines 0 pub else [])
        else [])"

definition screen_secret_get :: "provider \<Rightarrow> globals \<Rightarrow> tui \<Rightarrow> (screen \<times> tui) option" where
  "screen_secret_get cr g t =
     ask 64 SCREEN_SECRET_MENU t (\<lambda>username t.
     ask 256 SCREEN_SECRET_MENU t (\<lambda>password t.
     ask 64 SCREEN_SECRET_MENU t (\<lambda>name t.
       let (st, k, t1) = tui_call g (get_fresh cr username name) t
       in if st \<noteq> SSM_OK then notice_back (status_name st) True SCREEN_SECRET_MENU t1
          else (let k = the k;
                    priv = take (the (go_private_len k)) (the (go_private k));
                    pub = take (the (go_public_len k)) (the (go_public k));
                    (ch, t2) = getch (print_lines (secret_lines name priv pub) t1)
                in if ch = 119 \<or> ch = 87
                   then ask 256 SCREEN_SECRET_MENU t2 (\<lambda>out_path.
                          notice_back ''Use the CLI for file output. Secret data is shown above.'' True SCREEN_SECRET_MENU)
                   else Some (SCREEN_SECRET_MENU, t2)))))"

definition screen_secret_delete :: "globals \<Rightarrow> tui \<Rightarrow> (screen \<times> tui) option" where
  "screen_secret_delete g t =
     ask 64 SCREEN_SECRET_MENU t (\<lambda>username t.
     ask 256 SCREEN_SECRET_MENU t (\<lambda>password t.
     ask 64 SCREEN_SECRET_MENU t (\<lambda>name t.
       let (yes, t1) = confirm_dialog t
       in if \<not> yes then Some (SCREEN_SECRET_MENU, t1)
          else report ''Secret deleted'' SCREEN_SECRET_MENU
                 (tui_call g (\<lambda>v. plain (ssm_secret_delete (Some username) (Some name) v)) t1))))"

text \<open>The list scrolls: \<open>offset\<close> is the first row shown, \<open>max_vis\<close> how many rows fit.\<close>

definition row_line :: "string \<times> string \<times> string \<times> nat \<Rightarrow> string" where
  "row_line x =
     (case x of (name, desc, updated, pub_len) \<Rightarrow>
        pad_right 30 name @ ''  '' @ pad_right 20 desc @ ''  '' @ pad_right 3 (if pub_len > 0 then ''yes'' else ''no'')
        @ ''  '' @ updated)"

definition window_end :: "int \<Rightarrow> int \<Rightarrow> int \<Rightarrow> int" where
  "window_end offset max_vis items = min (offset + max_vis) items"

definition window_lines :: "(string \<times> string \<times> string \<times> nat) list \<Rightarrow> int \<Rightarrow> int \<Rightarrow> string list" where
  "window_lines items offset max_vis =
     (let last_row = window_end offset max_vis (int (length items))
      in map (\<lambda>i. row_line (items ! nat i)) [offset..last_row - 1]
         @ [''items '' @ to_string (offset + 1) @ ''-'' @ to_string last_row @ '' of '' @ decimal (length items)
            @ '' | arrows scroll | Esc back''])"

partial_function (option) list_loop ::
  "(string \<times> string \<times> string \<times> nat) list \<Rightarrow> int \<Rightarrow> int \<Rightarrow> string list \<Rightarrow> event list \<Rightarrow> int
   \<Rightarrow> (string list \<times> event list \<times> int) option" where
  "list_loop items offset max_vis ls es n =
     (let ls1 = ls @ window_lines items offset max_vis
      in case next_key es n of (ch, es1, n1) \<Rightarrow>
        if ch = KEY_UP \<and> offset > 0 then list_loop items (offset - 1) max_vis ls1 es1 n1
        else if ch = KEY_DOWN \<and> offset + max_vis < int (length items)
        then list_loop items (offset + 1) max_vis ls1 es1 n1
        else if is_esc ch \<or> ch = 113 then Some (ls1, es1, n1)
        else if ch = KEY_RESIZE then list_loop items offset (n1 - 6) ls1 es1 n1
        else list_loop items offset max_vis ls1 es1 n1)"

lemma list_loop_lost: "list_loop items offset max_vis ls [] n = None"
proof -
  have "[] \<noteq> ([] :: event list)" if "list_loop items offset max_vis ls [] n = Some r" for r
    by (rule list_loop.raw_induct [where P = "\<lambda>_ _ _ _ es _ _. es \<noteq> []", OF _ that])
      (fastforce simp: key_codes next_key_def Let_def split: list.splits if_splits)
  then show ?thesis by (cases "list_loop items offset max_vis ls [] n") auto
qed

lemma list_loop_simps [simp]:
  "list_loop items offset max_vis ls [] n = None"
  "list_loop items offset max_vis ls (e # es) n =
     (let ls1 = ls @ window_lines items offset max_vis; ch = key_of e; n1 = lines_after e n
      in if ch = KEY_UP \<and> offset > 0 then list_loop items (offset - 1) max_vis ls1 es n1
         else if ch = KEY_DOWN \<and> offset + max_vis < int (length items)
         then list_loop items (offset + 1) max_vis ls1 es n1
         else if is_esc ch \<or> ch = 113 then Some (ls1, es, n1)
         else if ch = KEY_RESIZE then list_loop items offset (n1 - 6) ls1 es n1
         else list_loop items offset max_vis ls1 es n1)"
  by (rule list_loop_lost) (subst list_loop.simps, simp add: Let_def)

definition show_list :: "(string \<times> string \<times> string \<times> nat) list \<Rightarrow> tui \<Rightarrow> (screen \<times> tui) option" where
  "show_list items t =
     (case list_loop items 0 (tu_lines t - 6) [] (tu_events t) (tu_lines t) of
        None \<Rightarrow> None
      | Some (ls, es, n) \<Rightarrow> Some (SCREEN_SECRET_MENU, print_lines ls (t\<lparr>tu_events := es, tu_lines := n\<rparr>)))"

definition screen_secret_list :: "globals \<Rightarrow> tui \<Rightarrow> (screen \<times> tui) option" where
  "screen_secret_list g t =
     ask 64 SCREEN_SECRET_MENU t (\<lambda>username t.
     ask 256 SCREEN_SECRET_MENU t (\<lambda>password t.
       let (st, r, t1) = tui_call g (ssm_secret_list (Some username) True) t
       in if st \<noteq> SSM_OK then notice_back (status_name st) True SCREEN_SECRET_MENU t1
          else if the r = [] then notice_back ''No secrets found for this user'' False SCREEN_SECRET_MENU t1
          else show_list (the r) t1))"

definition screen_kek_rotate :: "provider \<Rightarrow> globals \<Rightarrow> tui \<Rightarrow> (screen \<times> tui) option" where
  "screen_kek_rotate cr g t =
     ask 64 SCREEN_MAIN t (\<lambda>username t.
     ask 256 SCREEN_MAIN t (\<lambda>password t.
       let (yes, t1) = confirm_dialog t
       in if \<not> yes then Some (SCREEN_MAIN, t1)
          else report ''KEK rotated successfully!'' SCREEN_MAIN
                 (tui_call g (\<lambda>v. plain (ssm_kek_rotate cr (Some username) v)) t1)))"

definition screen_db_info :: "globals \<Rightarrow> tui \<Rightarrow> (screen \<times> tui) option" where
  "screen_db_info g t =
     Some (SCREEN_MAIN, wait_for_key (print_lines
       [''Database path: '' @ gl_db_path g,
        ''DB key:        '' @ (if gl_db_key_len g > 0 then ''configured'' else ''none''),
        ''Use the CLI for detailed database statistics.''] t))"

text \<open>\<open>rate\<close> as in \<open>handle_cache_stats\<close>. A database that does not open is reported without waiting.\<close>

definition screen_cache_stats :: "(nat \<Rightarrow> nat \<Rightarrow> string) \<Rightarrow> globals \<Rightarrow> tui \<Rightarrow> (screen \<times> tui) option" where
  "screen_cache_stats rate g t =
     (case tui_call g (ssm_cache_get_stats (Some \<lparr>total_entries = 0, valid_entries = 0, hit_count = 0, miss_count = 0\<rparr>)) t of
        (st, None, t1) \<Rightarrow> Some (SCREEN_MAIN, show_notice (status_name st) True t1)
      | (st, Some out, t1) \<Rightarrow>
          Some (SCREEN_MAIN, wait_for_key (print_lines
            (if st \<noteq> SSM_OK then [''Error: '' @ status_name st]
             else (let s = the out
                   in [''Total slots:   '' @ decimal (total_entries s) @ '' / 256'',
                       ''Valid entries: '' @ decimal (valid_entries s),
                       ''Hits:          '' @ decimal (hit_count s),
                       ''Misses:        '' @ decimal (miss_count s),
                       ''Hit rate:      ''
                         @ (if hit_count s + miss_count s > 0 then rate (hit_count s) (miss_count s) else ''0.0'')
                         @ ''%''])) t1)))"

subsection \<open>The loop over the screens\<close>

fun run_screen ::
  "provider \<Rightarrow> validator \<Rightarrow> (nat \<Rightarrow> nat \<Rightarrow> string) \<Rightarrow> globals \<Rightarrow> screen \<Rightarrow> tui \<Rightarrow> (screen \<times> tui) option" where
  "run_screen cr vd rate g SCREEN_MAIN t = screen_main t"
| "run_screen cr vd rate g SCREEN_USER_MENU t = screen_user_menu t"
| "run_screen cr vd rate g SCREEN_USER_REGISTER t = screen_user_register cr vd g t"
| "run_screen cr vd rate g SCREEN_USER_AUTH t = screen_user_auth cr g t"
| "run_screen cr vd rate g SCREEN_USER_DELETE t = screen_user_delete cr g t"
| "run_screen cr vd rate g SCREEN_USER_CHANGE_PW t = screen_user_change_pw cr vd g t"
| "run_screen cr vd rate g SCREEN_SECRET_MENU t = screen_secret_menu t"
| "run_screen cr vd rate g SCREEN_SECRET_STORE t = screen_secret_store cr g t"
| "run_screen cr vd rate g SCREEN_SECRET_GET t = screen_secret_get cr g t"
| "run_screen cr vd rate g SCREEN_SECRET_DELETE t = screen_secret_delete g t"
| "run_screen cr vd rate g SCREEN_SECRET_LIST t = screen_secret_list g t"
| "run_screen cr vd rate g SCREEN_KEK_ROTATE t = screen_kek_rotate cr g t"
| "run_screen cr vd rate g SCREEN_DB_INFO t = screen_db_info g t"
| "run_screen cr vd rate g SCREEN_CACHE_STATS t = screen_cache_stats rate g t"
| "run_screen cr vd rate g SCREEN_EXIT t = Some (SCREEN_EXIT, t)"

text \<open>The loop may run for ever, which is \<open>None\<close>; that it ends is a theorem of \<open>Tui_Behaviour\<close>.\<close>

partial_function (option) tui_loop ::
  "provider \<Rightarrow> validator \<Rightarrow> (nat \<Rightarrow> nat \<Rightarrow> string) \<Rightarrow> globals \<Rightarrow> screen \<Rightarrow> tui \<Rightarrow> tui option" where
  "tui_loop cr vd rate g scr t =
     (if scr = SCREEN_EXIT then Some t
      else Option.bind (run_screen cr vd rate g scr t) (\<lambda>(next_screen, t1). tui_loop cr vd rate g next_screen t1))"

definition handle_tui ::
  "provider \<Rightarrow> validator \<Rightarrow> (nat \<Rightarrow> nat \<Rightarrow> string) \<Rightarrow> globals \<Rightarrow> int \<Rightarrow> tui \<Rightarrow> (nat \<times> tui) option" where
  "handle_tui cr vd rate g cols t =
     (if tu_lines t < 15 \<or> cols < 50 then Some (1, t)
      else map_option (\<lambda>t1. (0, t1)) (tui_loop cr vd rate g SCREEN_MAIN t))"

end
