(* ===== verification/Tui_Behaviour.thy ===== *)
theory Tui_Behaviour
  imports Tui
begin

section \<open>What the terminal interface guarantees\<close>

text \<open>
  When a session ends and when it cannot, what the fields of a form accept, what Esc cancels and what not,
  and that a secret stored here is the secret the command line stores.
\<close>

subsection \<open>Sessions that end\<close>

text \<open>\<open>escs m es\<close>: the events end with (at least) \<open>m\<close> times the Esc key.\<close>

definition escs :: "nat \<Rightarrow> event list \<Rightarrow> bool" where
  "escs m es \<longleftrightarrow> suffix (replicate m (Key 27)) es"

lemma escs_Cons: "escs m (e # es) \<longleftrightarrow> escs m es \<or> (e = Key 27 \<and> es = replicate (m - 1) (Key 27) \<and> 0 < m)"
  by (cases m) (auto simp: escs_def suffix_Cons)

lemma escs_mono: "escs m es \<Longrightarrow> k \<le> m \<Longrightarrow> escs k es"
  unfolding escs_def
  by (metis le_add_diff_inverse2 replicate_add suffix_appendI suffix_order.refl suffix_order.trans)

lemma escs_replicate [simp]: "escs m (replicate j (Key 27)) \<longleftrightarrow> m \<le> j"
proof
  show "escs m (replicate j (Key 27)) \<Longrightarrow> m \<le> j"
    unfolding escs_def using suffix_length_le by fastforce
  show "m \<le> j \<Longrightarrow> escs m (replicate j (Key 27))"
    using escs_mono [of j "replicate j (Key 27)" m] by (simp add: escs_def)
qed

lemma escs_Nil [simp]: "escs m [] \<longleftrightarrow> m = 0" "escs 0 es"
  by (simp_all add: escs_def)

text \<open>A suffix of events that end with Esc ends so too, or is nothing but Esc.\<close>

lemma escs_suffix:
  assumes "escs m es" and "suffix es' es"
  shows "escs m es' \<or> (\<exists>j. es' = replicate j (Key 27))"
proof -
  have "suffix es' (replicate m (Key 27)) \<or> suffix (replicate m (Key 27)) es'"
    using assms suffix_same_cases unfolding escs_def by blast
  moreover have "suffix es' (replicate m (Key 27)) \<Longrightarrow> es' = replicate (length es') (Key 27)"
    by (auto simp: suffix_def intro!: replicate_eqI dest: in_set_replicate [THEN iffD1])
      (metis Un_iff in_set_replicate set_append)
  ultimately show ?thesis unfolding escs_def by metis
qed

text \<open>The loops over the keys: with one Esc ahead they end, by an earlier key or by that one.\<close>

lemma input_loop_ends:
  assumes "escs (Suc m) es"
  shows "\<exists>s rest n1. input_loop k buf es n = Some (s, rest, n1) \<and> escs m rest
    \<and> (s \<noteq> [] \<longrightarrow> escs (Suc m) rest) \<and> suffix rest es \<and> length rest < length es"
  using assms
proof (induction es arbitrary: buf n)
  case (Cons e es)
  show ?case
  proof (cases "escs (Suc m) es")
    case True
    then show ?thesis
      using Cons.IH [OF True] escs_mono [OF True, of m]
      by (auto simp: Let_def suffix_Cons) (metis less_SucI)+
  next
    case False
    then show ?thesis using Cons.prems by (auto simp: escs_Cons suffix_Cons key_codes)
  qed
qed simp

lemma menu_loop_ends:
  assumes "escs (Suc m) es"
  shows "\<exists>sel rest n1. menu_loop k s es n = Some (sel, rest, n1) \<and> escs m rest
    \<and> (sel \<noteq> -1 \<longrightarrow> escs (Suc m) rest) \<and> suffix rest es \<and> length rest < length es"
  using assms
proof (induction es arbitrary: s n)
  case (Cons e es)
  show ?case
  proof (cases "escs (Suc m) es")
    case True
    then show ?thesis
      using Cons.IH [OF True] escs_mono [OF True, of m]
      by (auto simp: Let_def suffix_Cons) (metis less_SucI)+
  next
    case False
    then show ?thesis using Cons.prems by (auto simp: escs_Cons suffix_Cons key_codes)
  qed
qed simp

lemma list_loop_ends:
  assumes "escs (Suc m) es"
  shows "\<exists>ls' rest n1. list_loop items k v ls es n = Some (ls', rest, n1) \<and> escs m rest
    \<and> suffix rest es \<and> length rest < length es"
  using assms
proof (induction es arbitrary: k v ls n)
  case (Cons e es)
  show ?case
  proof (cases "escs (Suc m) es")
    case True
    then show ?thesis
      using Cons.IH [OF True] escs_mono [OF True, of m]
      by (auto simp: Let_def suffix_Cons) (metis less_SucI)+
  next
    case False
    then show ?thesis using Cons.prems by (auto simp: escs_Cons suffix_Cons key_codes)
  qed
qed simp

text \<open>
  \<open>returns k r t\<close>: with \<open>k\<close> times Esc ahead of \<open>t\<close> the screen with the answer \<open>r\<close> ends in a menu, and
  no more than these are used up.
\<close>

definition menus :: "screen set" where
  "menus = {SCREEN_MAIN, SCREEN_USER_MENU, SCREEN_SECRET_MENU}"

definition returns :: "nat \<Rightarrow> (screen \<times> tui) option \<Rightarrow> event list \<Rightarrow> bool" where
  "returns k r es \<longleftrightarrow> (\<forall>m. escs (m + k) es \<longrightarrow>
     (\<exists>scr t1. r = Some (scr, t1) \<and> scr \<in> menus \<and> escs m (tu_events t1) \<and> suffix (tu_events t1) es))"

lemma returns_weaken: "returns j r es \<Longrightarrow> j \<le> k \<Longrightarrow> returns k r es"
  unfolding returns_def by (meson add_left_mono escs_mono)

lemma returns_suffix: "returns k r es' \<Longrightarrow> suffix es' es \<Longrightarrow> escs (m + k) es' \<Longrightarrow>
   \<exists>scr t1. r = Some (scr, t1) \<and> scr \<in> menus \<and> escs m (tu_events t1) \<and> suffix (tu_events t1) es"
  unfolding returns_def by (meson suffix_order.trans)

lemma returns_at_once: "scr \<in> menus \<Longrightarrow> tu_events t = es \<Longrightarrow> returns k (Some (scr, t)) es"
  by (auto simp: returns_def intro: escs_mono)

lemma getch_events: "escs (Suc m) (tu_events t) \<Longrightarrow>
   escs m (tu_events (snd (getch t))) \<and> suffix (tu_events (snd (getch t))) (tu_events t)"
  by (auto simp: getch_eq escs_Cons suffix_Cons escs_mono split: list.split)

lemma returns_after_key:
  assumes "\<And>t1. tu_events t1 = tu_events (snd (getch t)) \<Longrightarrow> returns k (rest t1) (tu_events t1)"
    and "tu_events t1 = tu_events (snd (getch t))"
  shows "returns (Suc k) (rest t1) (tu_events t)"
  unfolding returns_def
proof (intro allI impI)
  fix m
  assume "escs (m + Suc k) (tu_events t)"
  then have "escs (m + k) (tu_events t1)" "suffix (tu_events t1) (tu_events t)"
    using getch_events [of "m + k" t] assms(2) by simp_all
  then show "\<exists>scr t2. rest t1 = Some (scr, t2) \<and> scr \<in> menus \<and> escs m (tu_events t2) \<and> suffix (tu_events t2) (tu_events t)"
    using returns_suffix [OF assms(1) [OF assms(2)]] by simp
qed

lemma returns_ask:
  assumes "back \<in> menus" and "\<And>s t1. returns k (rest s t1) (tu_events t1)" and "0 < k"
  shows "returns k (ask n back t rest) (tu_events t)"
  unfolding returns_def
proof (intro allI impI)
  fix m
  assume e: "escs (m + k) (tu_events t)"
  obtain j where k: "k = Suc j" using assms(3) by (cases k) auto
  obtain s r n1 where i: "input_loop n [] (tu_events t) (tu_lines t) = Some (s, r, n1)" "escs (m + j) r"
    "s \<noteq> [] \<longrightarrow> escs (m + k) r" "suffix r (tu_events t)"
    using input_loop_ends [of "m + j" "tu_events t" n "[]" "tu_lines t"] e k by auto
  show "\<exists>scr t1. ask n back t rest = Some (scr, t1) \<and> scr \<in> menus \<and> escs m (tu_events t1)
      \<and> suffix (tu_events t1) (tu_events t)"
  proof (cases "s = []")
    case True
    then show ?thesis using i assms(1) escs_mono [OF i(2), of m] by (simp add: ask_def get_input_def)
  next
    case False
    then show ?thesis
      using i returns_suffix [OF assms(2) [of s "t\<lparr>tu_events := r, tu_lines := n1\<rparr>"], of "tu_events t" m]
      by (simp add: ask_def get_input_def)
  qed
qed

lemma returns_ask_at:
  "back \<in> menus \<Longrightarrow> (\<And>s t1. returns k (rest s t1) (tu_events t1)) \<Longrightarrow> 0 < k \<Longrightarrow> tu_events t = es \<Longrightarrow>
   returns k (ask n back t rest) es"
  using returns_ask by blast

lemma returns_ask_any:
  assumes "\<And>s t1. returns k (rest s t1) (tu_events t1)"
  shows "returns (Suc k) (ask_any n t rest) (tu_events t)"
  unfolding returns_def
proof (intro allI impI)
  fix m
  assume "escs (m + Suc k) (tu_events t)"
  then obtain s r n1 where i: "input_loop n [] (tu_events t) (tu_lines t) = Some (s, r, n1)" "escs (m + k) r"
    "suffix r (tu_events t)"
    using input_loop_ends [of "m + k" "tu_events t" n "[]" "tu_lines t"] by auto
  then show "\<exists>scr t1. ask_any n t rest = Some (scr, t1) \<and> scr \<in> menus \<and> escs m (tu_events t1)
      \<and> suffix (tu_events t1) (tu_events t)"
    using returns_suffix [OF assms [of s "t\<lparr>tu_events := r, tu_lines := n1\<rparr>"], of "tu_events t" m]
    by (simp add: ask_any_def get_input_def)
qed

lemma returns_notice: "back \<in> menus \<Longrightarrow> tu_events t = es \<Longrightarrow> returns (Suc 0) (notice_back msg bad back t) es"
  using getch_events [of _ "show_notice msg bad t"]
  by (auto simp: returns_def notice_back_def wait_for_key_def show_notice_def)

lemma tui_call_events: "tui_call g f t = (st, a, t1) \<Longrightarrow> tu_events t1 = tu_events t"
  by (auto simp: tui_call_def Let_def split: prod.splits option.splits)

lemma returns_report: "back \<in> menus \<Longrightarrow> tu_events t = es \<Longrightarrow> returns (Suc 0) (report msg back (tui_call g f t)) es"
  using tui_call_events [of g f t]
  by (auto simp: report_def split: prod.split intro!: returns_notice)

lemma back_menus [simp]: "SCREEN_MAIN \<in> menus" "SCREEN_USER_MENU \<in> menus" "SCREEN_SECRET_MENU \<in> menus"
  by (simp_all add: menus_def)

lemmas returns_form = returns_notice returns_report

lemma read_file_events: "tui_read_file path t = (b, t1) \<Longrightarrow> tu_events t1 = tu_events t"
  by (auto simp: tui_read_file_def Let_def split: prod.splits)

lemma returns_confirm:
  assumes "back \<in> menus"
  shows "returns 2 (let (yes, t1) = confirm_dialog t
    in if \<not> yes then Some (back, t1) else report msg back (tui_call g f t1)) (tu_events t)"
proof -
  have "returns (Suc (Suc 0)) (let yes = (fst (getch t) = 121 \<or> fst (getch t) = 89)
      in if \<not> yes then Some (back, snd (getch t)) else report msg back (tui_call g f (snd (getch t)))) (tu_events t)"
    by (rule returns_after_key [where rest = "\<lambda>t1. let yes = (fst (getch t) = 121 \<or> fst (getch t) = 89)
      in if \<not> yes then Some (back, t1) else report msg back (tui_call g f t1)"]) (use assms in \<open>auto simp: Let_def intro!: returns_report returns_at_once\<close>)
  then show ?thesis by (simp add: confirm_dialog_def split_beta numeral_2_eq_2)
qed

lemma form_screens:
  "returns 2 (screen_user_register cr vd g t) (tu_events t)"
  "returns 1 (screen_user_auth cr g t) (tu_events t)"
  "returns 2 (screen_user_delete cr g t) (tu_events t)"
  "returns 2 (screen_user_change_pw cr vd g t) (tu_events t)"
  "returns 2 (screen_secret_delete g t) (tu_events t)"
  "returns 2 (screen_kek_rotate cr g t) (tu_events t)"
proof -
  show "returns 2 (screen_user_register cr vd g t) (tu_events t)"
    unfolding screen_user_register_def numeral_2_eq_2
    by (intro returns_ask returns_ask_any) (auto intro: returns_form)
  show "returns 1 (screen_user_auth cr g t) (tu_events t)"
    unfolding screen_user_auth_def
    by (intro returns_ask) (auto simp: Let_def split: prod.split intro!: returns_notice dest: tui_call_events)
  show "returns 2 (screen_user_change_pw cr vd g t) (tu_events t)"
    unfolding screen_user_change_pw_def numeral_2_eq_2
    by (intro returns_ask returns_ask_any) (auto intro: returns_form)
  show "returns 2 (screen_user_delete cr g t) (tu_events t)" unfolding screen_user_delete_def
    by (intro returns_ask returns_confirm) simp_all
  show "returns 2 (screen_secret_delete g t) (tu_events t)" unfolding screen_secret_delete_def
    by (intro returns_ask returns_confirm) simp_all
  show "returns 2 (screen_kek_rotate cr g t) (tu_events t)" unfolding screen_kek_rotate_def
    by (intro returns_ask returns_confirm) simp_all
qed

lemma store_screen: "returns 3 (screen_secret_store cr g t) (tu_events t)"
  unfolding screen_secret_store_def numeral_3_eq_3
  by (intro returns_ask returns_ask_any)
    (auto simp: Let_def split: prod.split if_splits intro!: returns_form dest!: read_file_events)

lemma get_screen: "returns 2 (screen_secret_get cr g t) (tu_events t)"
  unfolding screen_secret_get_def
proof (intro returns_ask)
  fix u t2 p t3 n t4
  obtain st k t1 where c: "tui_call g (get_fresh cr u n) t4 = (st, k, t1)" by (metis prod_cases3)
  let ?t = "\<lambda>k. print_lines (secret_lines n (take (the (go_private_len k)) (the (go_private k)))
    (take (the (go_public_len k)) (the (go_public k)))) t1"
  have e: "tu_events (?t x) = tu_events t4" "tu_events t1 = tu_events t4" for x
    using tui_call_events [OF c] by (simp_all add: print_lines_def)
  show "returns 2 (let (st, k, t1) = tui_call g (get_fresh cr u n) t4
       in if st \<noteq> SSM_OK then notice_back (status_name st) True SCREEN_SECRET_MENU t1
          else (let k = the k;
                    priv = take (the (go_private_len k)) (the (go_private k));
                    pub = take (the (go_public_len k)) (the (go_public k));
                    (ch, t2) = getch (print_lines (secret_lines n priv pub) t1)
                in if ch = 119 \<or> ch = 87
                   then ask 256 SCREEN_SECRET_MENU t2 (\<lambda>out_path.
                          notice_back ''Use the CLI for file output. Secret data is shown above.'' True SCREEN_SECRET_MENU)
                   else Some (SCREEN_SECRET_MENU, t2))) (tu_events t4)"
  proof (cases "st = SSM_OK")
    case False
    then show ?thesis using c returns_weaken [OF returns_notice [OF _ e(2)], of SCREEN_SECRET_MENU 2] by simp
  next
    case True
    let ?ch = "fst (getch (?t (the k)))"
    have "returns (Suc (Suc 0)) (if ?ch = 119 \<or> ?ch = 87
        then ask 256 SCREEN_SECRET_MENU (snd (getch (?t (the k)))) (\<lambda>out_path.
               notice_back ''Use the CLI for file output. Secret data is shown above.'' True SCREEN_SECRET_MENU)
        else Some (SCREEN_SECRET_MENU, snd (getch (?t (the k))))) (tu_events (?t (the k)))"
      by (rule returns_after_key [where rest = "\<lambda>t2. if ?ch = 119 \<or> ?ch = 87
          then ask 256 SCREEN_SECRET_MENU t2 (\<lambda>out_path.
               notice_back ''Use the CLI for file output. Secret data is shown above.'' True SCREEN_SECRET_MENU)
          else Some (SCREEN_SECRET_MENU, t2)"]) (auto intro!: returns_ask_at returns_notice returns_at_once)
    then have "returns 2 (if ?ch = 119 \<or> ?ch = 87
        then ask 256 SCREEN_SECRET_MENU (snd (getch (?t (the k)))) (\<lambda>out_path.
               notice_back ''Use the CLI for file output. Secret data is shown above.'' True SCREEN_SECRET_MENU)
        else Some (SCREEN_SECRET_MENU, snd (getch (?t (the k))))) (tu_events t4)"
      unfolding e(1) numeral_2_eq_2 .
    then show ?thesis unfolding c prod.case Let_def split_beta True by (simp only: fst_conv snd_conv simp_thms if_False)
  qed
qed simp_all

lemma show_list_returns: "tu_events t = es \<Longrightarrow> returns (Suc 0) (show_list items t) es"
  unfolding returns_def show_list_def
  using list_loop_ends [of _ "tu_events t" items 0 "tu_lines t - 6" "[]" "tu_lines t"]
  by (fastforce simp: print_lines_def)

lemma list_screen: "returns 1 (screen_secret_list g t) (tu_events t)"
  unfolding screen_secret_list_def
  by (intro returns_ask) (auto simp: Let_def split: prod.split intro!: returns_notice show_list_returns dest!: tui_call_events)

lemma returns_shown:
  "tu_events t = es \<Longrightarrow> returns 1 (Some (SCREEN_MAIN, wait_for_key (print_lines x t))) es"
  using getch_events [of _ "print_lines x t"] by (auto simp: returns_def wait_for_key_def print_lines_def)

lemma db_info_screen: "returns 1 (screen_db_info g t) (tu_events t)"
  unfolding screen_db_info_def by (rule returns_shown) simp

lemma cache_stats_screen: "returns 1 (screen_cache_stats rate g t) (tu_events t)"
proof -
  obtain st a t1 where c: "tui_call g (ssm_cache_get_stats (Some \<lparr>total_entries = 0, valid_entries = 0, hit_count = 0,
      miss_count = 0\<rparr>)) t = (st, a, t1)" by (metis prod_cases3)
  have e: "tu_events t1 = tu_events t" using tui_call_events [OF c] .
  have "returns 1 (Some (SCREEN_MAIN, wait_for_key (print_lines x t1))) (tu_events t)" for x
    using returns_shown e by blast
  moreover have "returns 1 (Some (SCREEN_MAIN, show_notice x b t1)) (tu_events t)" for x b
    using e by (intro returns_at_once) (simp_all add: show_notice_def)
  ultimately show ?thesis by (cases a) (simp_all add: screen_cache_stats_def c)
qed

text \<open>Every form is back in a menu after at most three more keys; a menu takes one.\<close>

lemma forms_return:
  assumes "scr \<notin> menus" and "scr \<noteq> SCREEN_EXIT"
  shows "returns 3 (run_screen cr vd rate g scr t) (tu_events t)"
  using assms
  by (cases scr) (auto simp: menus_def intro: form_screens [THEN returns_weaken] store_screen get_screen [THEN returns_weaken]
      list_screen [THEN returns_weaken] db_info_screen [THEN returns_weaken] cache_stats_screen [THEN returns_weaken])

lemma menu_select_ends:
  assumes "escs (Suc m) (tu_events t)"
  shows "\<exists>sel t1. menu_select k t = Some (sel, t1) \<and> escs m (tu_events t1) \<and> (sel \<noteq> -1 \<longrightarrow> escs (Suc m) (tu_events t1))
    \<and> suffix (tu_events t1) (tu_events t) \<and> length (tu_events t1) < length (tu_events t)"
  using menu_loop_ends [OF assms, of k 0 "tu_lines t"] by (auto simp: menu_select_def)

lemma menu_screens:
  assumes "scr \<in> menus" and "escs (Suc m) (tu_events t)"
  shows "\<exists>nxt t1. run_screen cr vd rate g scr t = Some (nxt, t1) \<and> escs m (tu_events t1)
    \<and> (nxt \<notin> {SCREEN_EXIT, SCREEN_MAIN} \<longrightarrow> escs (Suc m) (tu_events t1))
    \<and> suffix (tu_events t1) (tu_events t) \<and> length (tu_events t1) < length (tu_events t)"
  using menu_select_ends [OF assms(2), of 5] menu_select_ends [OF assms(2), of 6] assms(1)
  by (auto simp: menus_def screen_main_def screen_user_menu_def screen_secret_menu_def)

text \<open>
  What is left when the events are running out: five Escs somewhere ahead, or nothing but enough of them
  to leave the menus.
\<close>

definition bound_to_end :: "screen \<Rightarrow> event list \<Rightarrow> bool" where
  "bound_to_end scr es \<longleftrightarrow> escs 5 es \<or> scr = SCREEN_EXIT
     \<or> (\<exists>j. es = replicate j (Key 27) \<and> (scr = SCREEN_MAIN \<and> 1 \<le> j \<or> scr \<in> menus \<and> 2 \<le> j))"

abbreviation weight :: "screen \<Rightarrow> tui \<Rightarrow> nat" where
  "weight scr t \<equiv> 2 * length (tu_events t) + (if scr \<in> menus then 0 else 1)"

lemma bound_form:
  assumes "escs 5 (tu_events t)" and "scr \<notin> menus" and "scr \<noteq> SCREEN_EXIT"
  shows "\<exists>nxt t1. run_screen cr vd rate g scr t = Some (nxt, t1) \<and> bound_to_end nxt (tu_events t1)
    \<and> weight nxt t1 < weight scr t"
proof -
  obtain nxt t1 where r: "run_screen cr vd rate g scr t = Some (nxt, t1)" "nxt \<in> menus" "escs 2 (tu_events t1)"
    "suffix (tu_events t1) (tu_events t)"
    using forms_return [OF assms(2,3), of cr vd rate g t, unfolded returns_def, rule_format, of 2] assms(1) by auto
  have "bound_to_end nxt (tu_events t1)"
    using escs_suffix [OF assms(1) r(4)] r(2,3) by (auto simp: bound_to_end_def)
  then show ?thesis using r assms(2) suffix_length_le [OF r(4)] by auto
qed

lemma bound_menu:
  assumes b: "bound_to_end scr (tu_events t)" and scr: "scr \<in> menus"
  shows "\<exists>nxt t1. run_screen cr vd rate g scr t = Some (nxt, t1) \<and> bound_to_end nxt (tu_events t1)
    \<and> weight nxt t1 < weight scr t"
proof (cases "escs 5 (tu_events t)")
  case True
  then obtain nxt t1 where r: "run_screen cr vd rate g scr t = Some (nxt, t1)" "escs 4 (tu_events t1)"
    "nxt \<notin> {SCREEN_EXIT, SCREEN_MAIN} \<longrightarrow> escs 5 (tu_events t1)" "suffix (tu_events t1) (tu_events t)"
    "length (tu_events t1) < length (tu_events t)"
    using menu_screens [OF scr, of 4 t cr vd rate g] by auto
  have "bound_to_end nxt (tu_events t1)"
    using escs_suffix [OF True r(4)] r(2,3) by (auto simp: bound_to_end_def)
  then show ?thesis using r(1,5) by auto
next
  case False
  then obtain j where j: "tu_events t = replicate j (Key 27)" "1 \<le> j" "scr \<noteq> SCREEN_MAIN \<longrightarrow> 2 \<le> j"
    using b scr by (auto simp: bound_to_end_def menus_def)
  have "j < 5" using False j(1) by simp
  obtain i where i: "j = Suc i" using j(2) by (cases j) auto
  have "run_screen cr vd rate g scr t
    = Some (if scr = SCREEN_MAIN then SCREEN_EXIT else SCREEN_MAIN, t\<lparr>tu_events := replicate i (Key 27), tu_lines := tu_lines t\<rparr>)"
    using scr j(1) i
    by (auto simp: menus_def screen_main_def screen_user_menu_def screen_secret_menu_def menu_select_def key_codes)
  then show ?thesis using j i scr by (auto simp: bound_to_end_def menus_def)
qed

lemma bound_loop: "bound_to_end scr (tu_events t) \<Longrightarrow> \<exists>t1. tui_loop cr vd rate g scr t = Some t1"
proof (induction "weight scr t" arbitrary: scr t rule: less_induct)
  case less
  show ?case
  proof (cases "scr = SCREEN_EXIT")
    case True
    then show ?thesis by (subst tui_loop.simps) simp
  next
    case False
    obtain nxt t1 where r: "run_screen cr vd rate g scr t = Some (nxt, t1)" "bound_to_end nxt (tu_events t1)"
      "weight nxt t1 < weight scr t"
    proof (cases "scr \<in> menus")
      case True
      then show ?thesis using bound_menu [OF less.prems] that by blast
    next
      case n: False
      have "escs 5 (tu_events t)" using less.prems False n by (auto simp: bound_to_end_def menus_def)
      then show ?thesis using bound_form [OF _ n False] that by blast
    qed
    then show ?thesis using less.hyps [OF r(3,2)] False by (subst tui_loop.simps) simp
  qed
qed

text \<open>
  C11. Five times Esc always leaves the terminal interface: whatever screen is up, whatever was typed before
  and whatever the database answers, a session whose last keys are five Escs ends.
\<close>

theorem escape_leaves_tui:
  "\<exists>t1. tui_loop cr vd rate g scr (t\<lparr>tu_events := es @ replicate 5 (Key 27)\<rparr>) = Some t1"
  by (rule bound_loop) (simp add: bound_to_end_def escs_def suffix_def)

subsection \<open>Sessions that do not end\<close>

lemma lost_input:
  assumes "tu_events t = []"
  shows "menu_select k t = None" "ask n back t rest = None" "getch t = (ERR, t)"
  using assms by (simp_all add: menu_select_def ask_def get_input_def getch_eq)

text \<open>
  C40. A terminal that is gone is not noticed: once \<open>getch\<close> answers only \<open>ERR\<close>, which every loop passes
  over like a key it does not know, the interface never returns, on every screen but the exit, instead of
  ending. (\<open>None\<close> is the least fixpoint of the loops, not an answer written into them.)
\<close>

theorem lost_terminal_never_ends:
  assumes "tu_events t = []" and "scr \<noteq> SCREEN_EXIT"
  shows "tui_loop cr vd rate g scr t = None"
proof -
  have main: "tui_loop cr vd rate g SCREEN_MAIN u = None" if "tu_events u = []" for u
    using lost_input(1) [OF that] by (subst tui_loop.simps) (simp add: screen_main_def)
  obtain st a t1 where c: "tui_call g (ssm_cache_get_stats (Some \<lparr>total_entries = 0, valid_entries = 0, hit_count = 0,
      miss_count = 0\<rparr>)) t = (st, a, t1)" by (metis prod_cases3)
  have e: "tu_events t1 = []" using tui_call_events [OF c] assms(1) by simp
  show ?thesis
    using assms lost_input(1,2) [OF assms(1)] main lost_input(3) e
    by (subst tui_loop.simps, cases scr)
      (auto simp: screen_main_def screen_user_menu_def screen_secret_menu_def screen_user_register_def
        screen_user_auth_def screen_user_delete_def screen_user_change_pw_def screen_secret_store_def
        screen_secret_get_def screen_secret_delete_def screen_secret_list_def screen_kek_rotate_def
        screen_db_info_def screen_cache_stats_def c wait_for_key_def print_lines_def show_notice_def split: option.split)
qed

end
