(* ===== verification/Tui_Forms.thy ===== *)
theory Tui_Forms
  imports Tui_Behaviour Cli_Behaviour
begin

section \<open>What the forms of the terminal interface do\<close>

subsection \<open>Typing\<close>

text \<open>Text that can be typed: printable ASCII, one key a character.\<close>

definition typable :: "string \<Rightarrow> bool" where
  "typable s \<longleftrightarrow> list_all (\<lambda>c. 32 \<le> char_code c \<and> char_code c \<le> 126) s"

definition typed :: "string \<Rightarrow> event list" where
  "typed s = map (\<lambda>c. Key (int (char_code c))) s"

lemma input_typed:
  "typable s \<Longrightarrow> length buf + length s \<le> k \<Longrightarrow>
   input_loop k buf (typed s @ es) n = input_loop k (buf @ s) es n"
proof (induction s arbitrary: buf)
  case (Cons c s)
  have "int (char_code c) \<noteq> 10 \<and> int (char_code c) \<noteq> 13 \<and> int (char_code c) \<noteq> 27 \<and> int (char_code c) \<noteq> 127
      \<and> int (char_code c) \<noteq> 8 \<and> int (char_code c) \<noteq> 263"
    using Cons.prems by (auto simp: typable_def)
  then show ?case using Cons by (simp add: typable_def typed_def key_codes)
qed (simp add: typed_def)

text \<open>A field that is typed and ended by Enter.\<close>

definition field :: "string \<Rightarrow> event list" where
  "field s = typed s @ [Key 10]"

lemma get_typed:
  "tu_events t = field s @ es \<Longrightarrow> typable s \<Longrightarrow> length s \<le> k \<Longrightarrow> get_input k t = Some (s, t\<lparr>tu_events := es\<rparr>)"
  using input_typed [of s "[]" k "Key 10 # es" "tu_lines t"] by (simp add: get_input_def field_def)

lemma ask_typed:
  "tu_events t = field s @ es \<Longrightarrow> typable s \<Longrightarrow> length s \<le> k \<Longrightarrow> s \<noteq> [] \<Longrightarrow>
   ask k mn t rest = rest s (t\<lparr>tu_events := es\<rparr>)"
  by (simp add: ask_def get_typed)

text \<open>
  What a field hands to the library is what its size and the keyboard allow: never more characters
  than the field has, printable ASCII only, and in particular no NUL, whatever keys are pressed.
\<close>

theorem typed_text_bounded:
  assumes "get_input k t = Some (s, t1)"
  shows "length s \<le> k \<and> list_all (\<lambda>c. 32 \<le> char_code c \<and> char_code c \<le> 126) s \<and> c_str s = s"
proof -
  have loop: "input_loop k buf es n = Some (r, rest, n1) \<Longrightarrow> length buf \<le> k \<Longrightarrow> typable buf \<Longrightarrow> length r \<le> k \<and> typable r"
    for buf es n r rest n1
  proof (induction es arbitrary: buf n)
    case (Cons e es)
    have "typable (butlast buf)" using Cons.prems(3) by (auto simp: typable_def list_all_iff dest: in_set_butlastD)
    moreover have "32 \<le> key_of e \<Longrightarrow> key_of e \<le> 126 \<Longrightarrow> typable (buf @ [char_of (nat (key_of e))])"
      using Cons.prems(3) by (simp add: typable_def of_char_of nat_le_iff le_nat_iff)
    ultimately show ?case using Cons.prems Cons.IH by (auto simp: Let_def typable_def split: if_splits)
  qed simp
  have "length s \<le> k \<and> typable s"
    using assms loop [of "[]"] by (auto simp: get_input_def typable_def split: option.splits)
  moreover have "c_str s = s" if "typable s"
    using that unfolding c_str_def takeWhile_eq_all_conv typable_def list_all_iff by fastforce
  ultimately show ?thesis by (simp add: typable_def)
qed

subsection \<open>Esc in a form\<close>

lemma ask_any_left:
  "tu_events t = Key c # es \<Longrightarrow> c = 10 \<or> c = 27 \<Longrightarrow> ask_any k t rest = rest [] (t\<lparr>tu_events := es\<rparr>)"
  by (auto simp: ask_any_def get_input_def)

text \<open>The form of \<open>screen_secret_store\<close> once everything is typed and the last two fields are left.\<close>

definition store_form :: "provider \<Rightarrow> globals \<Rightarrow> string \<Rightarrow> string \<Rightarrow> string \<Rightarrow> tui \<Rightarrow> (screen \<times> tui) option" where
  "store_form cr g u n f t =
     (let (key_data, t1) = tui_read_file f t
      in if key_data = [] then notice_back ''Failed to read key file'' True SCREEN_SECRET_MENU t1
         else report ''Secret stored successfully!'' SCREEN_SECRET_MENU
                (tui_call g (\<lambda>v. plain (ssm_secret_store cr (Some u) (Some key_data) (vec_data []) 0 (Some n) None v)) t1))"

lemma store_typed:
  assumes "tu_events t = field u @ field p @ field n @ field f @ Key c # Key d # es"
    and "c = 10 \<or> c = 27" and "d = 10 \<or> d = 27"
    and "typable u" "typable p" "typable n" "typable f" "u \<noteq> []" "p \<noteq> []" "n \<noteq> []" "f \<noteq> []"
    and "length u \<le> 64" "length p \<le> 256" "length n \<le> 64" "length f \<le> 256"
  shows "screen_secret_store cr g t = store_form cr g u n f (t\<lparr>tu_events := es\<rparr>)"
  using assms
  by (simp add: screen_secret_store_def ask_typed [of _ u] ask_typed [of _ p] ask_typed [of _ n] ask_typed [of _ f]
      ask_any_left [of _ c] ask_any_left [of _ d] store_form_def split: prod.split)

text \<open>
  Esc does not cancel the storing of a secret once the key file is named, though the status bar says
  so: in the two fields that may stay empty it counts as leaving them empty, and the secret is stored.
\<close>

theorem escape_still_stores:
  assumes "tu_events t = field u @ field p @ field n @ field f @ [Key 27, Key 27] @ es"
    and "typable u" "typable p" "typable n" "typable f" "u \<noteq> []" "p \<noteq> []" "n \<noteq> []" "f \<noteq> []"
    and "length u \<le> 64" "length p \<le> 256" "length n \<le> 64" "length f \<le> 256"
  shows "screen_secret_store cr g t
    = screen_secret_store cr g (t\<lparr>tu_events := field u @ field p @ field n @ field f @ [Key 10, Key 10] @ es\<rparr>)"
  using assms store_typed [of t u p n f 27 27 es]
    store_typed [of "t\<lparr>tu_events := field u @ field p @ field n @ field f @ [Key 10, Key 10] @ es\<rparr>" u p n f 10 10 es]
  by simp

subsection \<open>Passwords\<close>

text \<open>
  The password the screens on secrets and keys ask for is never looked at: whatever is typed into that
  field, as long as it is something, the secret is shown, deleted or listed and the key rotated.
\<close>

theorem tui_ignores_passwords:
  assumes "tu_events t = field u @ field p @ es" and "t' = t\<lparr>tu_events := field u @ field q @ es\<rparr>"
    and "typable u" "typable p" "typable q" "u \<noteq> []" "p \<noteq> []" "q \<noteq> []"
    and "length u \<le> 64" "length p \<le> 256" "length q \<le> 256"
  shows "screen_secret_store cr g t' = screen_secret_store cr g t \<and> screen_secret_get cr g t' = screen_secret_get cr g t
    \<and> screen_secret_delete g t' = screen_secret_delete g t \<and> screen_secret_list g t' = screen_secret_list g t
    \<and> screen_kek_rotate cr g t' = screen_kek_rotate cr g t"
proof -
  have a: "ask 64 mn t rest = rest u (t\<lparr>tu_events := field p @ es\<rparr>)"
    "ask 64 mn t' rest = rest u (t\<lparr>tu_events := field q @ es\<rparr>)" for mn rest
    using assms ask_typed [of t u "field p @ es" 64] ask_typed [of t' u "field q @ es" 64] by simp_all
  have b: "ask 256 mn (t\<lparr>tu_events := field p @ es\<rparr>) (\<lambda>password. rest) = rest (t\<lparr>tu_events := es\<rparr>)"
    "ask 256 mn (t\<lparr>tu_events := field q @ es\<rparr>) (\<lambda>password. rest) = rest (t\<lparr>tu_events := es\<rparr>)" for mn rest
    using assms ask_typed [of "t\<lparr>tu_events := field p @ es\<rparr>" p es 256] ask_typed [of "t\<lparr>tu_events := field q @ es\<rparr>" q es 256]
    by simp_all
  show ?thesis
    unfolding screen_secret_store_def screen_secret_get_def screen_secret_delete_def screen_secret_list_def
      screen_kek_rotate_def a b by blast
qed

subsection \<open>The same as the command line\<close>

lemma init_failed: "ssm_init os out p k = (st, None, left) \<Longrightarrow> st \<noteq> SSM_OK"
  by (auto simp: ssm_init_def Let_def split: if_splits prod.splits)

text \<open>A call made by a screen and by a command leave the same machine, and fail together.\<close>

lemma session_of_call:
  assumes "tui_call g the_call t = (st, a, t1)"
  shows "session g (tu_world t) the_call display
      = (if st = SSM_OK then display (the a) (tu_world t1) else (Exit 1, [], tu_world t1))"
    and "tu_shown t1 = tu_shown t"
  using assms init_failed [of "os_of (db_key_of g) (tu_world t)" True "Some (gl_db_path g)" "db_key_of g"]
  by (auto simp: tui_call_def session_def Let_def with_vault_def split: prod.splits option.splits)

text \<open>
  C16. Storing a secret in the terminal interface does to the database file exactly what
  \<open>ssm-cli secret store\<close> does with the same user, name and key file, and says that it succeeded exactly
  when that command exits with 0.
\<close>

theorem tui_stores_like_cli:
  assumes "tu_events t = field u @ field p @ field n @ field f @ [Key 10, Key 10, Key c] @ es"
    and "typable u" "typable p" "typable n" "typable f" "u \<noteq> []" "p \<noteq> []" "n \<noteq> []" "f \<noteq> []"
    and "length u \<le> 64" "length p \<le> 256" "length n \<le> 64" "length f \<le> 256"
    and io: "dk_io (ho_disk (wo_host (tu_world t))) = []" "dk_files (ho_disk (wo_host (tu_world t))) f \<noteq> Some []"
    and pw: "gl_password g \<noteq> []" and run: "handle_secret_store cr g (tu_world t) [u, n, f] = (done, printed, w1)"
  shows "\<exists>t1 msg. screen_secret_store cr g t = Some (SCREEN_SECRET_MENU, t1) \<and> tu_world t1 = w1 \<and> tu_events t1 = es
    \<and> tu_shown t1 = tu_shown t @ [Notice msg (done \<noteq> Exit 0)]"
proof -
  let ?w = "tu_world t" and ?t = "t\<lparr>tu_events := Key c # es\<rparr>"
  have s: "screen_secret_store cr g t = store_form cr g u n f ?t" using assms store_typed [of t u p n f 10 10 "Key c # es"] by simp
  have d: "on_disk (\<lambda>_. ho_disk (wo_host ?w)) ?w = ?w" by (simp add: on_disk_def)
  have notice: "notice_back msg bad mn u = Some (mn, u\<lparr>tu_shown := tu_shown u @ [Notice msg bad], tu_events := es\<rparr>)"
    if "tu_events u = Key c # es" for msg bad mn u
    using that by (simp add: notice_back_def wait_for_key_def show_notice_def getch_eq)
  show ?thesis
  proof (cases "dk_files (ho_disk (wo_host ?w)) f")
    case None
    have "store_form cr g u n f ?t = notice_back ''Failed to read key file'' True SCREEN_SECRET_MENU ?t"
      using None io pw d by (simp add: store_form_def tui_read_file_def next_io_def)
    moreover have "handle_secret_store cr g ?w [u, n, f] = (Exit 1, [], ?w)"
      using None io pw d by (simp add: handle_secret_store_def read_file_def next_io_def)
    ultimately show ?thesis using s run notice [of ?t] by simp
  next
    case (Some b)
    then have "b \<noteq> []" using io(2) by auto
    let ?call = "\<lambda>v. plain (ssm_secret_store cr (Some u) (Some b) (vec_data []) 0 (Some n) None v)"
    have f: "store_form cr g u n f ?t = report ''Secret stored successfully!'' SCREEN_SECRET_MENU (tui_call g ?call ?t)"
      using Some io pw \<open>b \<noteq> []\<close> d by (simp add: store_form_def tui_read_file_def next_io_def)
    have h: "handle_secret_store cr g ?w [u, n, f] = session g ?w ?call (\<lambda>_ w4.
        (Exit 0, [println (''OK: secret '' @ quoted n @ '' stored for '' @ quoted u)], w4))"
      using Some io pw \<open>b \<noteq> []\<close> d by (simp add: handle_secret_store_def read_file_def next_io_def)
    obtain st a u1 where c: "tui_call g ?call ?t = (st, a, u1)" by (rule prod_cases3)
    have e: "tu_events u1 = Key c # es" using tui_call_events [OF c] by simp
    have "w1 = tu_world u1 \<and> tu_shown u1 = tu_shown t \<and> (done = Exit 0 \<longleftrightarrow> st = SSM_OK)"
      using run h session_of_call(2) [OF c] session_of_call(1) [OF c, of "\<lambda>_ w4.
        (Exit 0, [println (''OK: secret '' @ quoted n @ '' stored for '' @ quoted u)], w4)"]
      by (auto split: if_splits)
    then show ?thesis using s f c e notice [OF e] by (auto simp: report_def)
  qed
qed

subsection \<open>The list of secrets\<close>

lemma window_rows:
  assumes "0 \<le> offset" and "l \<in> set (window_lines items offset v)"
  shows "l \<in> row_line ` set items \<or> take 6 l = ''items ''"
proof -
  have "items ! nat i \<in> set items" if "offset \<le> i" "i < int (length items)" for i
    using that assms(1) by (intro nth_mem) simp
  then show ?thesis using assms(2) by (auto simp: window_lines_def window_end_def Let_def)
qed

lemma list_loop_rows:
  "list_loop items offset v ls es n = Some (ls', rest, n1) \<Longrightarrow> 0 \<le> offset \<Longrightarrow>
   \<forall>l \<in> set ls. l \<in> row_line ` set items \<or> take 6 l = ''items '' \<Longrightarrow>
   \<forall>l \<in> set ls'. l \<in> row_line ` set items \<or> take 6 l = ''items ''"
proof (induction es arbitrary: offset v ls n)
  case (Cons e es)
  have l: "\<forall>l \<in> set (ls @ window_lines items offset v). l \<in> row_line ` set items \<or> take 6 l = ''items ''"
    using Cons.prems(3) window_rows [OF Cons.prems(2), of _ items v] by auto
  have IH: "list_loop items k v' (ls @ window_lines items offset v) es m = Some (ls', rest, n1) \<Longrightarrow> 0 \<le> k \<Longrightarrow>
      \<forall>l \<in> set ls'. l \<in> row_line ` set items \<or> take 6 l = ''items ''" for k v' m
    using Cons.IH l by blast
  show ?case using Cons.prems(1,2) l IH by (auto simp: Let_def simp del: set_append split: if_splits)
qed simp

text \<open>
  Scrolling never reads a row that is not there: however often the arrows are pressed and to whatever
  height the terminal is resized in between, down to nothing, every line the list shows is the status line
  or the line of a secret in the list.
\<close>

theorem list_shows_existing_rows:
  assumes "show_list items t = Some (scr, t1)"
  shows "\<exists>ls. tu_shown t1 = tu_shown t @ map Line ls \<and> (\<forall>l \<in> set ls. l \<in> row_line ` set items \<or> take 6 l = ''items '')"
  using assms list_loop_rows [of items 0 "tu_lines t - 6" "[]" "tu_events t" "tu_lines t"]
  by (auto simp: show_list_def print_lines_def split: option.splits)

end
