(* ===== verification/Server_Start.thy ===== *)
theory Server_Start
  imports Cli_Behaviour
begin

section \<open>The server as a process (\<open>handle_server_start\<close> of \<open>cli/ssm_server.cc\<close>)\<close>

text \<open>
  \<open>ssm-cli server start\<close> opens the database, sets libevent up, answers requests until a signal ends the
  event loop and closes the database. libevent is a record: whether its two objects can be made, and to
  which hosts and ports the socket can be bound; the requests are those that arrive before the signal. An
  exception ends the process in the middle; what was committed until then stays in the file.

  With \<open>--daemonize\<close> the command itself ends at the fork, after the database was opened; what its child does
  in the background, in another directory, is not modelled. A server in the foreground removes the file
  named as its pid file when it stops, although it never wrote it.
\<close>

record event_lib =
  ev_base :: bool
  ev_http :: bool
  ev_bind :: "string \<Rightarrow> int \<Rightarrow> bool"
  ev_fork :: bool

text \<open>
  \<open>snprintf\<close> into \<open>g_pidfile\<close>, and its removal. What is committed is in the database file at once, so the
  order of the removal and of closing the database does not matter for the files; here it comes last.
\<close>

definition remove_pidfile :: "string \<Rightarrow> world \<Rightarrow> world" where
  "remove_pidfile pidfile w =
     (let p = take 4095 pidfile in if p \<noteq> [] then on_disk (set_file p None) w else w)"

text \<open>The answers, the server afterwards, and whether it is still running.\<close>

fun event_loop ::
  "json_lib \<Rightarrow> provider \<Rightarrow> validator \<Rightarrow> request list \<Rightarrow> server \<Rightarrow> response list \<times> server \<times> bool" where
  "event_loop js cr vd [] sv = ([], sv, True)"
| "event_loop js cr vd (req # reqs) sv =
     (case request_handler js cr vd req sv of
        (Terminated, sv1) \<Rightarrow> ([], sv1, False)
      | (r, sv1) \<Rightarrow> (let (rs, sv2, alive) = event_loop js cr vd reqs sv1 in (r # rs, sv2, alive)))"

definition handle_server_start ::
  "json_lib \<Rightarrow> provider \<Rightarrow> validator \<Rightarrow> event_lib \<Rightarrow> request list \<Rightarrow> globals \<Rightarrow> world \<Rightarrow> string list
   \<Rightarrow> finish \<times> response list \<times> world" where
  "handle_server_start js cr vd ev reqs g w args =
     (case server_options_of (wo_getenv w ''SSM_API_KEY'') args of
        Inl _ \<Rightarrow> (Exit 1, [], w)
      | Inr so \<Rightarrow>
          (case with_vault g w (\<lambda>v w1.
                  if so_daemonize so then ((Exit (if ev_fork ev then 0 else 1), []), v, w1)
                  else if \<not> ev_base ev \<or> \<not> ev_http ev \<or> \<not> ev_bind ev (so_host so) (so_port so) then ((Exit 1, []), v, w1)
                  else (let (rs, sv, alive) = event_loop js cr vd reqs
                              \<lparr>sv_vault = v, sv_host = host_of g w1, sv_api_key = so_api_key so\<rparr>
                        in ((if alive then Exit 0 else Uncaught, rs), sv_vault sv, w1\<lparr>wo_host := sv_host sv\<rparr>))) of
             (None, w2) \<Rightarrow> (Exit 1, [], w2)
           | (Some (f, rs), w2) \<Rightarrow>
               (f, rs, if f = Exit 0 \<and> \<not> so_daemonize so then remove_pidfile (so_pidfile so) w2 else w2)))"

subsection \<open>From the server to the command line\<close>

lemma remove_pidfile_frame [simp]:
  "wo_mach (remove_pidfile p w) = wo_mach w" "wo_load (remove_pidfile p w) = wo_load w"
  "wo_sodium (remove_pidfile p w) = wo_sodium w" "wo_malloc (remove_pidfile p w) = wo_malloc w"
  "dk_io (ho_disk (wo_host (remove_pidfile p w))) = dk_io (ho_disk (wo_host w))"
  "ho_conn (wo_host (remove_pidfile p w)) = ho_conn (wo_host w)"
  "ho_cipher (wo_host (remove_pidfile p w)) = ho_cipher (wo_host w)"
  "take 4095 p \<noteq> f \<Longrightarrow> dk_files (ho_disk (wo_host (remove_pidfile p w))) f = dk_files (ho_disk (wo_host w)) f"
  by (simp_all add: remove_pidfile_def on_disk_def set_file_def)

lemma remove_pidfile_simps [simp]:
  "working g (remove_pidfile p w) = working g w"
  "take 4095 p \<noteq> f \<Longrightarrow> read_tables k (remove_pidfile p w) f = read_tables k w f"
  by (simp_all add: working_def read_tables_def split: option.split)

lemma user_path_needs_key:
  assumes "path_only req = ''/v1/users/'' @ x" and "\<not> check_api_key req sv"
  shows "request_handler js cr vd req sv = (reply_error req HTTP_UNAUTHORIZED ''missing or invalid API key'', sv)"
proof -
  have "path_only req \<noteq> ''/v1/health''" "path_only req \<noteq> ''/v1/version''" using assms(1) by simp_all
  then show ?thesis using assms(2) by (simp add: request_handler_def Let_def)
qed

lemma unauthorized_not_created: "reply_error req HTTP_UNAUTHORIZED msg \<noteq> Reply HTTP_CREATED body"
  by (simp add: reply_error_def reply_json_def HTTP_UNAUTHORIZED_def HTTP_CREATED_def)

lemma closes_host:
  assumes "ready g w" and "take 4095 p \<noteq> gl_db_path g"
  shows "closes g v (remove_pidfile p (save_tables g (db_tabs (v_db v)) (w\<lparr>wo_host := host_of g w, wo_mach := v_mach v\<rparr>)))"
proof -
  have "read_tables k (w\<lparr>wo_host := host_of g w\<rparr>) = read_tables k w" for k
    by (simp add: fun_eq_iff read_tables_def host_of_def split: option.split)
  then have "ready g (w\<lparr>wo_host := host_of g w\<rparr>)"
    using assms(1) by (simp add: ready_def working_def image_law_def) (simp add: host_of_def)
  from closes_saved [OF this, of v] assms(2) show ?thesis by (simp add: closes_def)
qed

text \<open>A \<open>POST\<close> of a secret without a public key and a description.\<close>

definition posting :: "json_lib \<Rightarrow> string \<Rightarrow> string \<Rightarrow> bytes \<Rightarrow> request \<Rightarrow> bool" where
  "posting js u n pk post \<longleftrightarrow> json_law js \<and> plain_part u \<and> plain_part n \<and> c_str n = n \<and> rq_method post = Http_Post
     \<and> rq_uri post = ''/v1/users/'' @ u @ ''/secrets''
     \<and> (\<exists>kvs. parse_body js post = Some (True, JObj kvs) \<and> map_of kvs ''name'' = Some (JStr n)
        \<and> map_of kvs ''private_key'' = Some (JStr (hex_encode pk)) \<and> map_of kvs ''public_key'' = None
        \<and> map_of kvs ''description'' = None)"

lemma posting_stores:
  assumes p: "posting js u n pk post" and h: "request_handler js cr vd post sv = (Reply HTTP_CREATED body, sv1)"
  shows "\<exists>v1. ssm_secret_store cr (Some u) (Some pk) None 0 (Some n) None (sv_vault sv) = (SSM_OK, v1)
    \<and> sv1 = sv\<lparr>sv_vault := v1\<rparr>"
proof -
  have path: "path_only post = ''/v1/users/'' @ u @ ''/secrets''"
    using p path_of_plain [of post] by (auto simp: posting_def plain_part_def)
  have key: "check_api_key post sv"
    using h user_path_needs_key [OF path] unauthorized_not_created by (metis prod.inject)
  have "handle_secret_store_req js cr post \<lparr>rm_username = u, rm_resource = ''secrets'', rm_matched = True\<rparr> sv
      = (Reply HTTP_CREATED body, sv1)"
    using user_request [OF path key secrets_route(1) [of u n]] p h by (simp add: posting_def user_routes_def)
  then show ?thesis using posted [of js post _ n pk cr _ sv body sv1] p by (fastforce simp: posting_def vec_data_def)
qed

lemma server_run:
  assumes w: "ready g w" and v: "opens g w v" "vault_ok cr v" and law: "lawful cr" and p: "posting js u n pk post"
    and so: "server_options_of (wo_getenv w ''SSM_API_KEY'') args = Inr so" "take 4095 (so_pidfile so) \<noteq> gl_db_path g"
    and run: "handle_server_start js cr vd ev [post] g w args = (Exit 0, [Reply HTTP_CREATED body], w1)"
  shows "\<exists>v1. ssm_secret_store cr (Some u) (Some pk) None 0 (Some n) None v = (SSM_OK, v1) \<and> closes g v1 w1"
proof -
  let ?sv = "\<lparr>sv_vault = v, sv_host = host_of g w, sv_api_key = so_api_key so\<rparr>"
  obtain r sv1 where h: "request_handler js cr vd post ?sv = (r, sv1)" by fastforce
  have ev: "\<not> so_daemonize so" "ev_base ev" "ev_http ev" "ev_bind ev (so_host so) (so_port so)"
    using run so(1) v(1) by (auto simp: handle_server_start_def with_vault_def Let_def split: if_splits)
  have r: "r = Reply HTTP_CREATED body"
    using run so(1) v(1) ev h by (cases r) (auto simp: handle_server_start_def with_vault_def Let_def)
  obtain v1 where st: "ssm_secret_store cr (Some u) (Some pk) None 0 (Some n) None v = (SSM_OK, v1)"
    and sv1: "sv1 = ?sv\<lparr>sv_vault := v1\<rparr>" using posting_stores [OF p h [unfolded r]] by auto
  have ok1: "vault_ok cr v1" using store_secret_ok [OF v(2) law, of "Some u" "Some pk" None 0 "Some n" None] st by simp
  have "w1 = remove_pidfile (so_pidfile so) (save_tables g (db_tabs (v_db v1)) (w\<lparr>wo_host := host_of g w, wo_mach := v_mach v1\<rparr>))"
    using run so(1) v(1) ev h r sv1 close_handle_ok [OF ok1]
    by (simp add: handle_server_start_def with_vault_def Let_def)
  then show ?thesis using st closes_host [OF w so(2)] by blast
qed

interpretation server_post: secret_writer cr g
  "\<lambda>w w1. posting js u n pk post \<and> server_options_of (wo_getenv w ''SSM_API_KEY'') args = Inr so
     \<and> take 4095 (so_pidfile so) \<noteq> gl_db_path g
     \<and> (\<exists>body. handle_server_start js cr vd ev [post] g w args = (Exit 0, [Reply HTTP_CREATED body], w1))"
  "\<lambda>v v1. ssm_secret_store cr (Some u) (Some pk) None 0 (Some n) None v = (SSM_OK, v1)" u n pk
  for cr g js u n pk post args so vd ev
proof unfold_locales
  fix w w1 v
  assume "posting js u n pk post \<and> server_options_of (wo_getenv w ''SSM_API_KEY'') args = Inr so
     \<and> take 4095 (so_pidfile so) \<noteq> gl_db_path g
     \<and> (\<exists>body. handle_server_start js cr vd ev [post] g w args = (Exit 0, [Reply HTTP_CREATED body], w1))"
    and "lawful cr" "ready g w" "opens g w v" "vault_ok cr v"
  then show "\<exists>v1. ssm_secret_store cr (Some u) (Some pk) None 0 (Some n) None v = (SSM_OK, v1) \<and> closes g v1 w1"
    using server_run by blast
qed (rule cli_store.calls_ok cli_store.stores; assumption)+

text \<open>
  C4. What a client posts to a server can be fetched with the command line once the server has stopped: the
  \<open>POST\<close> of a secret that was answered with 201 leaves it in the database file, and
  \<open>ssm-cli secret get --out\<close> writes exactly the bytes whose hexadecimal text was sent. The file the server
  removes as its pid file must not be the database.
\<close>

theorem posted_secret_read_by_cli:
  assumes law: "lawful cr" "image_law w" "json_law js" and on_file: "\<not> in_memory (gl_db_path g)" and w: "working g w"
    and pw: "gl_password g \<noteq> []"
    and db: "read_tables (db_key_of g) w (gl_db_path g) = Some t" "current t" "wf_tables t"
    and names: "plain_part u" "plain_part n" "c_str n = n" and len: "length pk \<le> 65536"
    and post: "rq_method post = Http_Post" "rq_uri post = ''/v1/users/'' @ u @ ''/secrets''"
      "parse_body js post = Some (True, JObj kvs)" "map_of kvs ''name'' = Some (JStr n)"
      "map_of kvs ''private_key'' = Some (JStr (hex_encode pk))"
      "map_of kvs ''public_key'' = None" "map_of kvs ''description'' = None"
    and so: "server_options_of (wo_getenv w ''SSM_API_KEY'') args = Inr so" "take 4095 (so_pidfile so) \<noteq> gl_db_path g"
    and run: "handle_server_start js cr vd ev [post] g w args = (Exit 0, [Reply HTTP_CREATED body], w1)"
    and mem: "m_alloc (wo_mach w1) = []"
  shows "\<exists>w2. handle_secret_get cr g w1 [u, n, ''--out'', f] = (Exit 0, [written_key ''private'' pk f], w2)
    \<and> dk_files (ho_disk (wo_host w2)) f = Some pk"
proof -
  have "ready g w" using law(2) on_file w db by (auto simp: ready_def)
  moreover have "posting js u n pk post" using law(3) names post by (simp add: posting_def)
  ultimately show ?thesis using server_post.read_by_cli [of js u n pk post w args so g cr vd ev w1 f] law(1) so run mem len pw by blast
qed

end
