(* ===== verification/Sample_Tools.thy ===== *)
theory Sample_Tools
  imports Sample_Cli Tui_Forms Server_Start
begin

section \<open>The theorems about the terminal interface and the server process, applied\<close>

definition sample_tui :: "event list \<Rightarrow> tui" where
  "sample_tui es = \<lparr>tu_world = sample_world, tu_events = es, tu_lines = 24, tu_shown = []\<rparr>"

lemma sample_tui_simps [simp]:
  "tu_events (sample_tui es) = es" "tu_world (sample_tui es) = sample_world" "tu_lines (sample_tui es) = 24"
  "tu_shown (sample_tui es) = []" "(sample_tui es)\<lparr>tu_events := fs\<rparr> = sample_tui fs"
  by (simp_all add: sample_tui_def)

lemma sample_typable:
  "typable ''ann''" "typable ''pw''" "typable ''no''" "typable ''j''" "typable ''key''"
  by code_simp+

theorem lost_terminal_never_ends_witness:
  "tui_loop sample sample_vd (\<lambda>_ _. []) sample_globals SCREEN_DB_INFO (sample_tui []) = None"
  by (rule lost_terminal_never_ends) simp_all

theorem typed_text_bounded_witness:
  "\<exists>s t1. get_input 2 (sample_tui [Key 97, Key 0, Resize 30, Key 98, Key 99, Key 10]) = Some (s, t1) \<and> length s \<le> 2 \<and> c_str s = s"
proof -
  have ab: "char_of (97 :: nat) = CHR ''a''" "char_of (98 :: nat) = CHR ''b''" by code_simp+
  have run: "get_input 2 (sample_tui [Key 97, Key 0, Resize 30, Key 98, Key 99, Key 10])
      = Some (''ab'', (sample_tui [])\<lparr>tu_lines := 30\<rparr>)"
    by (simp add: get_input_def key_codes sample_tui_def ab)
  from typed_text_bounded [OF run] show ?thesis using run by blast
qed

theorem escape_still_stores_witness:
  "screen_secret_store sample sample_globals
      (sample_tui (field ''ann'' @ field ''pw'' @ field ''j'' @ field ''key'' @ [Key 27, Key 27] @ [Key 32]))
    = screen_secret_store sample sample_globals
      (sample_tui (field ''ann'' @ field ''pw'' @ field ''j'' @ field ''key'' @ [Key 10, Key 10] @ [Key 32]))"
  using escape_still_stores [of "sample_tui (field ''ann'' @ field ''pw'' @ field ''j'' @ field ''key'' @ [Key 27, Key 27] @ [Key 32])"
      "''ann''" "''pw''" "''j''" "''key''" "[Key 32]"] sample_typable by simp

theorem tui_ignores_passwords_witness:
  "screen_secret_get sample sample_globals (sample_tui (field ''ann'' @ field ''no'' @ field ''k'' @ [Key 32]))
    = screen_secret_get sample sample_globals (sample_tui (field ''ann'' @ field ''pw'' @ field ''k'' @ [Key 32]))"
  using tui_ignores_passwords [of "sample_tui (field ''ann'' @ field ''pw'' @ field ''k'' @ [Key 32])" "''ann''" "''pw''"
      "field ''k'' @ [Key 32]" _ "''no''"] sample_typable by simp

theorem tui_stores_like_cli_witness:
  "\<exists>t1 msg. screen_secret_store sample sample_globals
      (sample_tui (field ''ann'' @ field ''pw'' @ field ''j'' @ field ''key'' @ [Key 10, Key 10, Key 32])) = Some (SCREEN_SECRET_MENU, t1)
    \<and> tu_shown t1 = [Notice msg False]"
proof -
  let ?t = "sample_tui (field ''ann'' @ field ''pw'' @ field ''j'' @ field ''key'' @ [Key 10, Key 10, Key 32])"
  obtain out w1 where run: "handle_secret_store sample sample_globals (tu_world ?t) [''ann'', ''j'', ''key''] = (Exit 0, out, w1)"
    using sample_store_command by auto
  have io: "dk_io (ho_disk (wo_host (tu_world ?t))) = []" "dk_files (ho_disk (wo_host (tu_world ?t))) ''key'' \<noteq> Some []"
    by (simp_all add: sample_world_def)
  have ev: "tu_events ?t = field ''ann'' @ field ''pw'' @ field ''j'' @ field ''key'' @ [Key 10, Key 10, Key 32] @ []" by simp
  from tui_stores_like_cli [OF ev sample_typable(1,2,4,5) _ _ _ _ _ _ _ _ io sample_file(4) run] show ?thesis by auto
qed

theorem list_shows_existing_rows_witness:
  "\<exists>scr t1 ls. show_list [(''k'', [], [], 0)] (sample_tui [Key 258, Resize 3, Key 258, Key 27]) = Some (scr, t1)
    \<and> tu_shown t1 = map Line ls \<and> (\<forall>l \<in> set ls. l = row_line (''k'', [], [], 0) \<or> take 6 l = ''items '')"
proof -
  obtain scr t1 where run: "show_list [(''k'', [], [], 0)] (sample_tui [Key 258, Resize 3, Key 258, Key 27]) = Some (scr, t1)"
    by (simp add: show_list_def key_codes)
  from list_shows_existing_rows [OF run] show ?thesis using run by auto
qed

text \<open>A libevent that binds every socket.\<close>

definition sample_events :: event_lib where
  "sample_events = \<lparr>ev_base = True, ev_http = True, ev_bind = (\<lambda>_ _. True), ev_fork = True\<rparr>"

theorem posted_secret_read_by_cli_witness:
  "\<exists>body w1 w2. handle_server_start sample_json sample sample_vd sample_events [sample_post] sample_globals sample_world []
      = (Exit 0, [Reply HTTP_CREATED body], w1)
    \<and> handle_secret_get sample sample_globals w1 [''ann'', ''j'', ''--out'', ''copy'']
      = (Exit 0, [written_key ''private'' [7, 8] ''copy''], w2)
    \<and> dk_files (ho_disk (wo_host w2)) ''copy'' = Some [7, 8]"
proof -
  let ?so = "\<lparr>so_port = 8080, so_host = ''127.0.0.1'', so_api_key = [], so_daemonize = False, so_pidfile = ''./ssm-cli.pid''\<rparr>"
  let ?sv = "\<lparr>sv_vault = sample_vault, sv_host = host_of sample_globals sample_world, sv_api_key = []\<rparr>"
  obtain body v1 where post: "request_handler sample_json sample sample_vd sample_post ?sv
      = (Reply HTTP_CREATED body, ?sv\<lparr>sv_vault := v1\<rparr>)" and a: "m_alloc (v_mach v1) = []"
    and st: "ssm_secret_store sample (Some ''ann'') (Some [7, 8]) None 0 (Some ''j'') None sample_vault = (SSM_OK, v1)"
    using post_any [of ?sv] by auto
  have ok: "vault_ok sample v1"
    using store_secret_ok [OF sample_ok sample_lawful, of "Some ''ann''" "Some [7, 8]" None 0 "Some ''j''" None] st by simp
  have so: "server_options_of (wo_getenv sample_world ''SSM_API_KEY'') [] = Inr ?so"
    by (simp add: server_options_of_def sample_world_def)
  obtain w1 where run: "handle_server_start sample_json sample sample_vd sample_events [sample_post] sample_globals sample_world []
      = (Exit 0, [Reply HTTP_CREATED body], w1)" and m: "m_alloc (wo_mach w1) = []"
    using so sample_init post close_handle_ok [OF ok] a
    by (simp add: handle_server_start_def with_vault_def Let_def sample_events_def)
  have b: "parse_body sample_json sample_post = Some (True, JObj [(''name'', JStr ''j''), (''private_key'', JStr (hex_encode [7, 8]))])"
    by (simp add: parse_body_def sample_post_def sample_json_def sample_body_def)
  from posted_secret_read_by_cli [OF sample_lawful sample_image_law sample_json_law sample_file(3) sample_working sample_file(4,1,2)
      sample_wf sample_parts(1,2,4) _ _ _ b _ _ _ _ so _ run m, where f = "''copy''"]
  show ?thesis using run by (auto simp: sample_post_def sample_globals_def simp del: hex_encode_simps)
qed

end
