(* ===== verification/Two_Processes.thy ===== *)
theory Two_Processes
  imports Server_Start Cli_Safety
begin

section \<open>A server and a command on the same database file\<close>

text \<open>
  Nothing keeps a second process from the database file while a server has it open. SQLite shows every
  connection what another one has committed; the key cache of a handle knows nothing of it. Here a secret is
  stored with \<open>ssm-cli\<close> while a server is running, which serves it, and a password is changed while the
  server has the user's wrapping key cached, which locks the user out.
\<close>

text \<open>What another process has committed is what the connection reads from then on.\<close>

definition sees :: "tables \<Rightarrow> vault \<Rightarrow> vault" where
  "sees t v = v\<lparr>v_db := (v_db v)\<lparr>db_tabs := t\<rparr>\<rparr>"

subsection \<open>Tables whose keys are the ones the handle knows\<close>

text \<open>As long as the users and their KEKs stay the same, the cache stays right.\<close>

lemma sees_ok:
  assumes "vault_ok cr v" and "same_keys (db_tabs (v_db v)) t" and "wf_tables t"
  shows "vault_ok cr (sees t v)"
  unfolding sees_def by (rule vault_ok_db [OF assms(1)]) (simp_all add: same_conn_def assms(2,3))

text \<open>What a program stores beside a process is what the process gets.\<close>

context secret_writer
begin

lemma stored_beside:
  assumes "run w w1" and "lawful cr" and "ready g w" and len: "length pk \<le> 65536"
    and t: "read_tables (db_key_of g) w (gl_db_path g) = Some (db_tabs (v_db x))"
    and x: "vault_ok cr x" "healthy (v_db x)" "m_alloc (v_mach x) = []" "m_now (v_mach x) = m_now (wo_mach w1)"
    and t1: "read_tables (db_key_of g) w1 (gl_db_path g) = Some t1"
  shows "vault_ok cr (sees t1 x) \<and> (\<exists>gk x1 r. get_with_retry cr u n (sees t1 x) = (SSM_OK, gk, x1)
    \<and> go_private_len gk = Some (length pk) \<and> go_public_len gk = Some 0 \<and> go_private gk = Some (pk @ r))"
proof -
  obtain v v1 where v: "vault_ok cr v" "same_but_audit (db_tabs (v_db x)) (db_tabs (v_db v))" "current (db_tabs (v_db v))"
    and v1: "calls v v1" "vault_ok cr v1" "closes g v1 w1"
    using program_calls [OF assms(1-3) t] by blast
  note st = stores [OF v1(1)]
  have e: "t1 = db_tabs (v_db v1)" "wo_mach w1 = v_mach v1" using v1(3) t1 by (simp_all add: closes_def)
  have "same_keys (db_tabs (v_db x)) t1"
    using store_keys [OF st v(1) assms(2)] same_but_audit_keys [OF v(2)] e by (simp add: same_keys_def)
  then have ok: "vault_ok cr (sees t1 x)" using sees_ok x(1) vault_ok_D(2) [OF v1(2)] e by blast
  have "current t1" using store_no_public(2) [OF st v(1) assms(2) v(3)] e by simp
  then have h: "healthy (v_db (sees t1 x))" using x(2) by (simp add: sees_def healthy_def current_def)
  have "same_but_audit (db_tabs (v_db v1)) (db_tabs (v_db (sees t1 x)))" by (simp add: sees_def e same_but_audit_def)
  from get_stored [OF st v(1) assms(2) len ok this _ h] ok show ?thesis using x(3,4) e by (fastforce simp: sees_def)
qed

end

text \<open>
  C19. A secret stored with \<open>ssm-cli\<close> while a server is running is served at once: the server's handle,
  wrapping keys in its cache included, stays valid over the other process's commit, and a \<open>GET\<close> of the name
  answers with the hexadecimal text of the key file.
\<close>

theorem stored_beside_server_is_served:
  assumes law: "lawful cr" and w: "ready g w" and pw: "gl_password g \<noteq> []"
    and key: "dk_files (ho_disk (wo_host w)) key_file = Some pk" "length pk \<le> 65536"
    and run: "handle_secret_store cr g w [u, n, key_file] = (Exit 0, text, w1)"
    and tabs: "read_tables (db_key_of g) w (gl_db_path g) = Some (db_tabs (v_db (sv_vault sv)))"
      "read_tables (db_key_of g) w1 (gl_db_path g) = Some t1"
    and server: "vault_ok cr (sv_vault sv)" "healthy (v_db (sv_vault sv))" "m_alloc (v_mach (sv_vault sv)) = []"
      "m_now (v_mach (sv_vault sv)) = m_now (wo_mach w1)"
    and get: "plain_part u" "plain_part n" "rq_method get = Http_Get" "rq_uri get = ''/v1/users/'' @ u @ ''/secrets/'' @ n"
      "check_api_key get sv" "rq_buffer get"
  shows "vault_ok cr (sees t1 (sv_vault sv))
    \<and> fst (request_handler js cr vd get (sv\<lparr>sv_vault := sees t1 (sv_vault sv)\<rparr>))
       = Reply HTTP_OK (JObj [(''private_key'', JStr (hex_encode pk))])"
proof -
  let ?sv = "sv\<lparr>sv_vault := sees t1 (sv_vault sv)\<rparr>"
  obtain gk x1 r where ok: "vault_ok cr (sees t1 (sv_vault sv))"
    and g: "get_with_retry cr u n (sv_vault ?sv) = (SSM_OK, gk, x1)" "go_private_len gk = Some (length pk)"
      "go_public_len gk = Some 0" "go_private gk = Some (pk @ r)"
    using cli_store.stored_beside [of g w key_file pk cr u n w1 "sv_vault sv" t1] law w pw key run tabs server by auto
  have "check_api_key get ?sv" using get(5) by (auto simp: check_api_key_def split: option.splits if_splits)
  from get_request_answers [OF get(1-4) this get(6) g] ok show ?thesis by simp
qed

subsection \<open>A key in the cache that the tables no longer go with\<close>



subsection \<open>The command that changes a password\<close>


lemma read_input [simp]:
  "read_tables k (w\<lparr>wo_input := i, wo_getpass := p\<rparr>) = read_tables k w"
  "os_of k (w\<lparr>wo_input := i, wo_getpass := p\<rparr>) = os_of k w"
  "ready g (w\<lparr>wo_input := i, wo_getpass := p\<rparr>) = ready g w"
proof -
  show r: "read_tables k (w\<lparr>wo_input := i, wo_getpass := p\<rparr>) = read_tables k w" for k
    by (simp add: fun_eq_iff read_tables_def split: option.split)
  then show "os_of k (w\<lparr>wo_input := i, wo_getpass := p\<rparr>) = os_of k w" by (simp add: os_of_def)
  show "ready g (w\<lparr>wo_input := i, wo_getpass := p\<rparr>) = ready g w"
    by (simp add: ready_def r working_def image_law_def)
qed



subsection \<open>The server after the password was changed elsewhere\<close>






end
