(* ===== verification/Node_Binding.thy ===== *)
theory Node_Binding
  imports Cli
begin

section \<open>The Node.js binding (\<open>bindings/node/src/vaultine.cc\<close>)\<close>

text \<open>
  An object of the class \<open>Vaultine\<close> wraps a handle. A method gets the values JavaScript calls it with and
  returns a value or throws. What N-API reads out of a value is a record of functions, where \<open>None\<close> is any
  status but \<open>napi_ok\<close>: text cut to a buffer of so many bytes, its terminator included, the bytes of a
  buffer, numbers, and the property of an object by its name. Values can always be made; getters that
  throw are not modelled, nor a constructor called without \<open>new\<close>.
\<close>

datatype js =
    Js_Undefined
  | Js_Null
  | Js_Bool bool
  | Js_Number int
  | Js_String string
  | Js_Buffer bytes
  | Js_Object "(string \<times> js) list"
  | Js_Array "js list"
  | Js_Vaultine

record napi =
  na_string :: "js \<Rightarrow> nat \<Rightarrow> string option"
  na_buffer :: "js \<Rightarrow> bytes option"
  na_data :: "bytes \<Rightarrow> bytes option"
  na_int32 :: "js \<Rightarrow> int option"
  na_int64 :: "js \<Rightarrow> int option"
  na_bool :: "js \<Rightarrow> bool option"
  na_object :: "js \<Rightarrow> bool"
  na_member :: "js \<Rightarrow> string \<Rightarrow> js option"

text \<open>
  The address of a buffer's bytes, \<open>na_data\<close>, may be null when it has none. An outcome is what was
  returned, or an exception: a call of N-API that failed, a handle that is closed, no memory for the
  instance, or the name of a status. \<open>Aborted\<close> is a C++ exception, which ends the process.
\<close>

datatype outcome =
    Return js
  | Napi_Failed
  | Handle_Closed
  | No_Memory
  | Failed ssm_status
  | Aborted

text \<open>The object, with the file and key its handle was opened on, and the machine around it.\<close>

record vaultine_instance =
  in_handle :: "vault option"
  in_opened :: globals

record node =
  nd_self :: "vaultine_instance option"
  nd_world :: world
  nd_memory :: bool

subsection \<open>Helpers\<close>

text \<open>\<open>napi_get_cb_info\<close> fills up missing arguments with \<open>undefined\<close>.\<close>

definition arg :: "js list \<Rightarrow> nat \<Rightarrow> js" where
  "arg args i = (if i < length args then args ! i else Js_Undefined)"

definition check_napi :: "'a option \<Rightarrow> node \<Rightarrow> ('a \<Rightarrow> outcome \<times> node) \<Rightarrow> outcome \<times> node" where
  "check_napi x nd rest = (case x of None \<Rightarrow> (Napi_Failed, nd) | Some a \<Rightarrow> rest a)"

definition get_text :: "napi \<Rightarrow> nat \<Rightarrow> js \<Rightarrow> string option" where
  "get_text na bufsize x = map_option c_str (na_string na x bufsize)"

definition unwrap :: "node \<Rightarrow> (vault \<Rightarrow> outcome \<times> node) \<Rightarrow> outcome \<times> node" where
  "unwrap nd rest =
     (case nd_self nd of None \<Rightarrow> (Napi_Failed, nd)
      | Some vi \<Rightarrow> (case in_handle vi of None \<Rightarrow> (Handle_Closed, nd) | Some v \<Rightarrow> rest v))"

definition put_vault :: "vault \<Rightarrow> node \<Rightarrow> node" where
  "put_vault v nd = nd\<lparr>nd_self := map_option (\<lambda>vi. vi\<lparr>in_handle := Some v\<rparr>) (nd_self nd)\<rparr>"

definition check_ssm :: "node \<Rightarrow> ssm_status \<times> 'a \<times> vault \<Rightarrow> ('a \<Rightarrow> js) \<Rightarrow> outcome \<times> node" where
  "check_ssm nd r result =
     (case r of (st, a, v) \<Rightarrow> (if st \<noteq> SSM_OK then Failed st else Return (result a), put_vault v nd))"

abbreviation undefined_js :: "unit \<Rightarrow> js" where
  "undefined_js \<equiv> \<lambda>_. Js_Undefined"

text \<open>The cast to \<open>uint32_t\<close>.\<close>

definition js_uint32 :: "nat \<Rightarrow> js" where
  "js_uint32 n = Js_Number (int (n mod 2 ^ 32))"

subsection \<open>The object\<close>

text \<open>The settings a handle is opened with, in the record the command-line tool keeps them in.\<close>

definition opened_on :: "string \<Rightarrow> bytes \<Rightarrow> globals" where
  "opened_on path key = \<lparr>gl_db_path = path, gl_db_key = key, gl_db_key_len = length key, gl_backup_key = [],
     gl_backup_key_len = 0, gl_json = False, gl_password = []\<rparr>"

definition js_new :: "napi \<Rightarrow> js list \<Rightarrow> node \<Rightarrow> outcome \<times> node" where
  "js_new na args nd =
     check_napi (if length args > 0 then get_text na 4096 (arg args 0) else Some '':memory:'') nd (\<lambda>db_path.
     check_napi (if length args > 1 then na_buffer na (arg args 1) else Some []) nd (\<lambda>key_data.
       let g = opened_on db_path (take 64 key_data); w = nd_world nd
       in if \<not> nd_memory nd then (No_Memory, nd)
          else (case ssm_init (os_of (db_key_of g) w) True (Some db_path) (db_key_of g) of
                  (st, None, left) \<Rightarrow>
                    (Failed st, nd\<lparr>nd_world := (case left of None \<Rightarrow> w | Some t \<Rightarrow> save_tables g t w)\<rparr>)
                | (st, Some v, left) \<Rightarrow>
                    (Return Js_Vaultine, nd\<lparr>nd_self := Some \<lparr>in_handle = Some v, in_opened = g\<rparr>\<rparr>))))"

text \<open>The instance itself is never freed here: its finalizer goes with the wrap.\<close>

definition js_destroy :: "node \<Rightarrow> outcome \<times> node" where
  "js_destroy nd =
     unwrap nd (\<lambda>v. (Return Js_Undefined,
       nd\<lparr>nd_self := None, nd_world := close_handle (in_opened (the (nd_self nd))) v (nd_world nd)\<rparr>))"

text \<open>What the garbage collector calls on an object that still has its wrap.\<close>

definition finalize_vaultine :: "node \<Rightarrow> node" where
  "finalize_vaultine nd =
     (case nd_self nd of None \<Rightarrow> nd
      | Some vi \<Rightarrow> nd\<lparr>nd_self := None,
          nd_world := (case in_handle vi of None \<Rightarrow> nd_world nd
                       | Some v \<Rightarrow> close_handle (in_opened vi) v (nd_world nd))\<rparr>)"

subsection \<open>Users\<close>

definition js_user_register :: "napi \<Rightarrow> provider \<Rightarrow> validator \<Rightarrow> js list \<Rightarrow> node \<Rightarrow> outcome \<times> node" where
  "js_user_register na cr vd args nd =
     unwrap nd (\<lambda>v.
     check_napi (get_text na 256 (arg args 0)) nd (\<lambda>username.
     check_napi (get_text na 256 (arg args 1)) nd (\<lambda>password.
       check_ssm nd (plain (ssm_user_register cr vd (Some username) (Some password) v)) undefined_js)))"

definition js_user_authenticate :: "napi \<Rightarrow> provider \<Rightarrow> js list \<Rightarrow> node \<Rightarrow> outcome \<times> node" where
  "js_user_authenticate na cr args nd =
     unwrap nd (\<lambda>v.
     check_napi (get_text na 256 (arg args 0)) nd (\<lambda>username.
     check_napi (get_text na 256 (arg args 1)) nd (\<lambda>password.
       check_ssm nd (ssm_user_authenticate cr (Some username) (Some password) (Some 0) v)
         (\<lambda>is_valid. Js_Bool (the is_valid \<noteq> 0)))))"

definition js_user_delete :: "napi \<Rightarrow> provider \<Rightarrow> js list \<Rightarrow> node \<Rightarrow> outcome \<times> node" where
  "js_user_delete na cr args nd =
     unwrap nd (\<lambda>v.
     check_napi (get_text na 256 (arg args 0)) nd (\<lambda>username.
     check_napi (get_text na 256 (arg args 1)) nd (\<lambda>password.
       check_ssm nd (plain (ssm_user_delete cr (Some username) (Some password) v)) undefined_js)))"

definition js_user_change_password ::
  "napi \<Rightarrow> provider \<Rightarrow> validator \<Rightarrow> js list \<Rightarrow> node \<Rightarrow> outcome \<times> node" where
  "js_user_change_password na cr vd args nd =
     unwrap nd (\<lambda>v.
     check_napi (get_text na 256 (arg args 0)) nd (\<lambda>username.
     check_napi (get_text na 256 (arg args 1)) nd (\<lambda>old_pw.
     check_napi (get_text na 256 (arg args 2)) nd (\<lambda>new_pw.
       check_ssm nd (plain (ssm_user_change_password cr vd (Some username) (Some old_pw) (Some new_pw) v))
         undefined_js))))"

subsection \<open>Secrets\<close>

definition js_secret_store :: "napi \<Rightarrow> provider \<Rightarrow> js list \<Rightarrow> node \<Rightarrow> outcome \<times> node" where
  "js_secret_store na cr args nd =
     unwrap nd (\<lambda>v.
     check_napi (get_text na 256 (arg args 0)) nd (\<lambda>username.
     check_napi (get_text na 256 (arg args 3)) nd (\<lambda>name.
     check_napi (na_buffer na (arg args 1)) nd (\<lambda>priv.
     check_napi (if na_object na (arg args 2) then map_option (\<lambda>b. (na_data na b, length b)) (na_buffer na (arg args 2))
                 else Some (None, 0)) nd (\<lambda>(pub, pub_len).
     check_napi (if length args \<ge> 5 then get_text na 1024 (arg args 4) else Some []) nd (\<lambda>desc.
       check_ssm nd (plain (ssm_secret_store cr (Some username) (na_data na priv) pub pub_len (Some name)
           (if desc \<noteq> [] then Some desc else None) v)) undefined_js))))))"

text \<open>
  The buffers are not initialised. The second pair has the size of the private key, read back as an \<open>int\<close>;
  \<open>None\<close> is the exception of \<open>new\<close> for a size that came out negative.
\<close>

definition sized_buffers :: "nat \<Rightarrow> disk \<Rightarrow> key_out" where
  "sized_buffers n d = \<lparr>go_private = Some (new_block n d), go_private_len = Some n,
     go_public = Some (new_block n d), go_public_len = Some n\<rparr>"

definition get_sized ::
  "provider \<Rightarrow> string \<Rightarrow> string \<Rightarrow> nat \<Rightarrow> disk \<Rightarrow> vault \<Rightarrow> (ssm_status \<times> key_out) option \<times> vault" where
  "get_sized cr username name max_size d v =
     (let (st, k, v1) = ssm_secret_get cr (Some username) (Some name) (sized_buffers max_size d) v;
          priv_len = the (go_private_len k)
      in if st = SSM_ERR_INTERNAL \<and> priv_len > max_size
         then (if c_int priv_len < 0 then (None, v1)
               else (let (st2, k2, v2) = ssm_secret_get cr (Some username) (Some name)
                                           (sized_buffers (nat (c_int priv_len)) d) v1
                     in (Some (st2, k2), v2)))
         else (Some (st, k), v1))"

definition js_secret_get :: "napi \<Rightarrow> provider \<Rightarrow> js list \<Rightarrow> node \<Rightarrow> outcome \<times> node" where
  "js_secret_get na cr args nd =
     unwrap nd (\<lambda>v.
     check_napi (get_text na 256 (arg args 0)) nd (\<lambda>username.
     check_napi (get_text na 256 (arg args 1)) nd (\<lambda>name.
     check_napi (if length args \<ge> 3 then na_int32 na (arg args 2) else Some 65536) nd (\<lambda>max_size.
       case get_sized cr username name (if max_size \<le> 0 then 65536 else nat max_size)
              (ho_disk (wo_host (nd_world nd))) v of
         (None, v1) \<Rightarrow> (Aborted, put_vault v1 nd)
       | (Some (st, k), v1) \<Rightarrow>
           check_ssm nd (st, k, v1) (\<lambda>k. Js_Object
             ((''privateKey'', Js_Buffer (take (the (go_private_len k)) (the (go_private k))))
              # (if the (go_public_len k) > 0
                 then [(''publicKey'', Js_Buffer (take (the (go_public_len k)) (the (go_public k))))]
                 else [])))))))"

definition js_secret_delete :: "napi \<Rightarrow> js list \<Rightarrow> node \<Rightarrow> outcome \<times> node" where
  "js_secret_delete na args nd =
     unwrap nd (\<lambda>v.
     check_napi (get_text na 256 (arg args 0)) nd (\<lambda>username.
     check_napi (get_text na 256 (arg args 1)) nd (\<lambda>name.
       check_ssm nd (plain (ssm_secret_delete (Some username) (Some name) v)) undefined_js)))"

text \<open>The library never passes a null description, so the property \<open>description\<close> is always there.\<close>

definition js_list_item :: "string \<times> string \<times> string \<times> nat \<Rightarrow> js" where
  "js_list_item x =
     (case x of (name, desc, updated, pub_len) \<Rightarrow>
        Js_Object [(''name'', Js_String name), (''description'', Js_String desc),
          (''updatedAt'', Js_String updated), (''pubKeyLen'', js_uint32 pub_len)])"

definition js_secret_list :: "napi \<Rightarrow> js list \<Rightarrow> node \<Rightarrow> outcome \<times> node" where
  "js_secret_list na args nd =
     unwrap nd (\<lambda>v.
     check_napi (get_text na 256 (arg args 0)) nd (\<lambda>username.
       check_ssm nd (ssm_secret_list (Some username) True v) (\<lambda>items. Js_Array (map js_list_item items))))"

subsection \<open>Keys, backups, export\<close>

definition js_kek_rotate :: "napi \<Rightarrow> provider \<Rightarrow> js list \<Rightarrow> node \<Rightarrow> outcome \<times> node" where
  "js_kek_rotate na cr args nd =
     unwrap nd (\<lambda>v.
     check_napi (get_text na 256 (arg args 0)) nd (\<lambda>username.
       check_ssm nd (plain (ssm_kek_rotate cr (Some username) v)) undefined_js))"

text \<open>Both backup calls work on the host of the object's file.\<close>

definition object_host :: "node \<Rightarrow> host" where
  "object_host nd = host_of (in_opened (the (nd_self nd))) (nd_world nd)"

definition put_host :: "host \<Rightarrow> node \<Rightarrow> node" where
  "put_host h nd = nd\<lparr>nd_world := (nd_world nd)\<lparr>wo_host := h\<rparr>\<rparr>"

definition js_backup_create :: "napi \<Rightarrow> provider \<Rightarrow> js list \<Rightarrow> node \<Rightarrow> outcome \<times> node" where
  "js_backup_create na cr args nd =
     unwrap nd (\<lambda>v.
     check_napi (get_text na 4096 (arg args 0)) nd (\<lambda>backup_path.
     check_napi (na_buffer na (arg args 1)) nd (\<lambda>key.
       let (st, v1, h) = ssm_backup_create cr (Some backup_path) (na_data na key) v (object_host nd)
       in check_ssm (put_host h nd) (st, (), v1) undefined_js)))"

definition js_backup_restore :: "napi \<Rightarrow> provider \<Rightarrow> js list \<Rightarrow> node \<Rightarrow> outcome \<times> node" where
  "js_backup_restore na cr args nd =
     unwrap nd (\<lambda>v.
     check_napi (get_text na 4096 (arg args 0)) nd (\<lambda>backup_path.
     check_napi (na_buffer na (arg args 1)) nd (\<lambda>key.
       case ssm_backup_restore cr (Some backup_path) (na_data na key) v (object_host nd) of
         None \<Rightarrow> (Aborted, nd)
       | Some (st, v1, h) \<Rightarrow> check_ssm (put_host h nd) (st, (), v1) undefined_js)))"

definition js_export :: "napi \<Rightarrow> js list \<Rightarrow> node \<Rightarrow> outcome \<times> node" where
  "js_export na args nd =
     unwrap nd (\<lambda>v.
     check_napi (if length args \<ge> 1 then get_text na 16 (arg args 0) else Some ''json'') nd (\<lambda>fmt_str.
     check_napi (if length args \<ge> 2 then na_bool na (arg args 1) else Some False) nd (\<lambda>redact_pii.
       check_ssm nd (ssm_export (if fmt_str = ''csv'' then SSM_EXPORT_CSV else SSM_EXPORT_JSON) redact_pii True v)
         (\<lambda>text. Js_String (case text of None \<Rightarrow> [] | Some t \<Rightarrow> t)))))"

subsection \<open>Database, cache, audit log\<close>

definition js_db_version :: "node \<Rightarrow> outcome \<times> node" where
  "js_db_version nd =
     unwrap nd (\<lambda>v. check_ssm nd (ssm_db_version (Some 0) v) (\<lambda>version. Js_Number (the version)))"

definition js_db_migrate :: "node \<Rightarrow> outcome \<times> node" where
  "js_db_migrate nd = unwrap nd (\<lambda>v. check_ssm nd (plain (ssm_db_migrate v)) undefined_js)"

definition js_cache_stats :: "node \<Rightarrow> outcome \<times> node" where
  "js_cache_stats nd =
     unwrap nd (\<lambda>v. check_ssm nd (ssm_cache_get_stats (Some (cache_stats new_cache)) v) (\<lambda>stats. Js_Object
       [(''totalEntries'', js_uint32 (total_entries (the stats))),
        (''validEntries'', js_uint32 (valid_entries (the stats))),
        (''hitCount'', js_uint32 (hit_count (the stats))),
        (''missCount'', js_uint32 (miss_count (the stats)))]))"

text \<open>The statuses of the reads below are not looked at: what is of another kind counts as left out.\<close>

definition option_text :: "napi \<Rightarrow> js \<Rightarrow> string \<Rightarrow> string" where
  "option_text na opt key =
     (case na_member na opt key of None \<Rightarrow> []
      | Some x \<Rightarrow> (case get_text na 256 x of None \<Rightarrow> [] | Some s \<Rightarrow> s))"

definition option_number :: "napi \<Rightarrow> js \<Rightarrow> string \<Rightarrow> int \<Rightarrow> int" where
  "option_number na opt key dflt =
     (case na_member na opt key of None \<Rightarrow> dflt
      | Some x \<Rightarrow> (case na_int64 na x of None \<Rightarrow> dflt | Some i \<Rightarrow> i))"

definition js_audit_item :: "audit_entry \<Rightarrow> js" where
  "js_audit_item e = Js_Object
     [(''id'', Js_Number (ae_id e)), (''userId'', Js_Number (ae_user_id e)),
      (''username'', Js_String (ae_username e)), (''operation'', Js_String (ae_operation e)),
      (''operationTarget'', Js_String (ae_target e)), (''details'', Js_String (ae_details e)),
      (''result'', Js_String (ae_result e)), (''timestamp'', Js_String (ae_timestamp e))]"

definition js_audit_log_query :: "napi \<Rightarrow> js list \<Rightarrow> node \<Rightarrow> outcome \<times> node" where
  "js_audit_log_query na args nd =
     unwrap nd (\<lambda>v.
       let opt = arg args 0;
           given = (length args \<ge> 1 \<and> na_object na opt);
           text_of = (\<lambda>key. let s = (if given then option_text na opt key else []) in if s \<noteq> [] then Some s else None);
           number_of = (\<lambda>key dflt. if given then option_number na opt key dflt else dflt)
       in check_ssm nd (ssm_audit_log_query (text_of ''username'') (text_of ''operation'') (text_of ''result'')
              (number_of ''limit'' 100) (number_of ''offset'' 0) True v)
            (\<lambda>entries. Js_Array (map js_audit_item entries)))"

subsection \<open>The class\<close>

text \<open>The methods by the names the module registers them under; \<open>None\<close> is a name it does not.\<close>

definition vaultine_methods ::
  "napi \<Rightarrow> provider \<Rightarrow> validator \<Rightarrow> (string \<times> (js list \<Rightarrow> node \<Rightarrow> outcome \<times> node)) list" where
  "vaultine_methods na cr vd =
     [(''destroy'', \<lambda>_. js_destroy), (''userRegister'', js_user_register na cr vd),
      (''userAuthenticate'', js_user_authenticate na cr), (''userDelete'', js_user_delete na cr),
      (''userChangePassword'', js_user_change_password na cr vd), (''secretStore'', js_secret_store na cr),
      (''secretGet'', js_secret_get na cr), (''secretDelete'', js_secret_delete na),
      (''secretList'', js_secret_list na), (''kekRotate'', js_kek_rotate na cr),
      (''backupCreate'', js_backup_create na cr), (''backupRestore'', js_backup_restore na cr),
      (''export'', js_export na), (''dbVersion'', \<lambda>_. js_db_version), (''dbMigrate'', \<lambda>_. js_db_migrate),
      (''cacheStats'', \<lambda>_. js_cache_stats), (''auditLogQuery'', js_audit_log_query na)]"

definition call_method ::
  "napi \<Rightarrow> provider \<Rightarrow> validator \<Rightarrow> string \<Rightarrow> js list \<Rightarrow> node \<Rightarrow> (outcome \<times> node) option" where
  "call_method na cr vd name args nd = map_option (\<lambda>f. f args nd) (map_of (vaultine_methods na cr vd) name)"

end
