(* ===== verification/Node_Behaviour.thy ===== *)
theory Node_Behaviour
  imports Node_Binding Cli_Behaviour Vault_Users
begin

section \<open>What the Node.js binding guarantees\<close>

text \<open>
  The theorems of the library carried through the methods of the class: the invariant, when an object can
  be used, what the fixed buffers for text do, and the round trips of a secret, within one object and from
  one program to another.
\<close>

subsection \<open>What N-API documents\<close>

definition ascii :: "string \<Rightarrow> bool" where
  "ascii s \<longleftrightarrow> (\<forall>c \<in> set s. char_code c < 128)"

definition napi_law :: "napi \<Rightarrow> bool" where
  "napi_law na \<longleftrightarrow>
     (\<forall>s n. ascii s \<longrightarrow> na_string na (Js_String s) n = Some (take (n - 1) s))
     \<and> (\<forall>b. na_buffer na (Js_Buffer b) = Some b) \<and> (\<forall>b. na_data na b = Some b \<or> b = [] \<and> na_data na b = None)
     \<and> (\<forall>i. - (2 ^ 31) \<le> i \<and> i < 2 ^ 31 \<longrightarrow> na_int32 na (Js_Number i) = Some i)
     \<and> \<not> na_object na Js_Null \<and> \<not> na_object na Js_Undefined"

text \<open>A text that a buffer of so many bytes takes as it is.\<close>

definition fits :: "nat \<Rightarrow> string \<Rightarrow> bool" where
  "fits n s \<longleftrightarrow> ascii s \<and> length s < n \<and> c_str s = s"

lemma get_text_fits: "napi_law na \<Longrightarrow> fits n s \<Longrightarrow> get_text na n (Js_String s) = Some s"
  by (auto simp: get_text_def napi_law_def fits_def)

lemma arg_simps [simp]:
  "arg (x # xs) 0 = x" "arg (x # xs) (Suc i) = arg xs i" "arg [] i = Js_Undefined"
  "arg (x # xs) 1 = arg xs 0" "arg (x # xs) 2 = arg xs 1" "arg (x # xs) 3 = arg xs 2" "arg (x # xs) 4 = arg xs 3"
  by (simp_all add: arg_def numeral_eq_Suc)

subsection \<open>The invariant\<close>

text \<open>An object either has no handle any more or a well-formed one; it never keeps the wrap without it.\<close>

definition node_ok :: "provider \<Rightarrow> node \<Rightarrow> bool" where
  "node_ok cr nd \<longleftrightarrow> (case nd_self nd of None \<Rightarrow> True | Some vi \<Rightarrow> \<exists>v. in_handle vi = Some v \<and> vault_ok cr v)"

text \<open>What a method's outcome and state satisfy.\<close>

definition good :: "provider \<Rightarrow> outcome \<times> node \<Rightarrow> bool" where
  "good cr r \<longleftrightarrow> node_ok cr (snd r) \<and> fst r \<noteq> Handle_Closed"

lemma check_napi_rule: "node_ok cr nd \<Longrightarrow> (\<And>a. good cr (rest a)) \<Longrightarrow> good cr (check_napi x nd rest)"
  by (simp add: check_napi_def good_def split: option.split)

lemma unwrap_rule: "node_ok cr nd \<Longrightarrow> (\<And>v. vault_ok cr v \<Longrightarrow> good cr (rest v)) \<Longrightarrow> good cr (unwrap nd rest)"
  by (cases "nd_self nd") (auto simp: unwrap_def node_ok_def [of cr nd], simp add: good_def node_ok_def)

lemma put_vault_ok: "vault_ok cr v \<Longrightarrow> node_ok cr (put_vault v nd)"
  by (simp add: put_vault_def node_ok_def split: option.split)

lemma check_ssm_rule: "vault_ok cr (snd (snd r)) \<Longrightarrow> good cr (check_ssm nd r result)"
  by (cases r) (simp add: check_ssm_def good_def put_vault_ok)

lemma get_sized_keeps:
  assumes ok: "vault_ok cr v" and law: "lawful cr"
  shows "vault_ok cr (snd (get_sized cr u n cap d v))"
proof -
  note get_secret_ok [OF ok law, of "Some u" "Some n"]
  from get_secret_ok [OF this law] this show ?thesis by (simp add: get_sized_def Let_def split_beta)
qed

lemma methods_keep:
  assumes ok: "node_ok cr nd" and law: "lawful cr"
  shows "good cr (js_user_register na cr vd args nd)" "good cr (js_user_authenticate na cr args nd)"
    "good cr (js_user_delete na cr args nd)" "good cr (js_user_change_password na cr vd args nd)"
    "good cr (js_secret_delete na args nd)" "good cr (js_secret_list na args nd)"
    "good cr (js_kek_rotate na cr args nd)" "good cr (js_export na args nd)" "good cr (js_db_version nd)"
    "good cr (js_db_migrate nd)" "good cr (js_cache_stats nd)" "good cr (js_audit_log_query na args nd)"
  unfolding js_user_register_def js_user_authenticate_def js_user_delete_def js_user_change_password_def
    js_secret_delete_def js_secret_list_def js_kek_rotate_def js_export_def js_db_version_def js_db_migrate_def
    js_cache_stats_def js_audit_log_query_def Let_def
  by (intro unwrap_rule check_napi_rule check_ssm_rule ok;
      simp add: register_ok authenticate_ok delete_user_ok change_password_ok delete_secret_ok list_secrets_ok
        rotate_ok export_keeps version_ok migrate_ok restore_free query_audit_ok law)+

lemma large_methods_keep:
  assumes ok: "node_ok cr nd" and law: "lawful cr"
  shows "good cr (js_secret_store na cr args nd)" "good cr (js_secret_get na cr args nd)"
    "good cr (js_backup_create na cr args nd)" "good cr (js_destroy nd)"
proof -
  show "good cr (js_secret_store na cr args nd)"
    unfolding js_secret_store_def
    by (intro unwrap_rule check_napi_rule ok) (auto simp: store_secret_ok law intro!: check_napi_rule check_ssm_rule ok)
  show "good cr (js_backup_create na cr args nd)"
    unfolding js_backup_create_def
    by (intro unwrap_rule check_napi_rule ok) (auto simp: split_beta Let_def backup_keeps intro!: check_ssm_rule)
  show "good cr (js_destroy nd)"
    unfolding js_destroy_def by (intro unwrap_rule ok) (simp add: good_def node_ok_def)
  have "good cr (case get_sized cr u n cap d v of (None, v1) \<Rightarrow> (Aborted, put_vault v1 nd)
      | (Some (st, k), v1) \<Rightarrow> check_ssm nd (st, k, v1) result)" if "vault_ok cr v" for u n cap d v and result :: "key_out \<Rightarrow> js"
    using get_sized_keeps [OF that law, of u n cap d]
    by (auto simp: good_def put_vault_ok check_ssm_def split: prod.split option.split)
  then show "good cr (js_secret_get na cr args nd)"
    unfolding js_secret_get_def by (intro unwrap_rule check_napi_rule ok) blast
qed

text \<open>A program calls one method after the other; it goes on after an exception.\<close>

fun call_methods ::
  "napi \<Rightarrow> provider \<Rightarrow> validator \<Rightarrow> (string \<times> js list) list \<Rightarrow> node \<Rightarrow> outcome list \<times> node" where
  "call_methods na cr vd [] nd = ([], nd)"
| "call_methods na cr vd ((name, args) # calls) nd =
     (case call_method na cr vd name args nd of
        None \<Rightarrow> call_methods na cr vd calls nd
      | Some (r, nd1) \<Rightarrow> (let (rs, nd2) = call_methods na cr vd calls nd1 in (r # rs, nd2)))"

lemma method_keeps:
  assumes "node_ok cr nd" and "lawful cr" and "name \<noteq> ''backupRestore''"
    and "call_method na cr vd name args nd = Some r"
  shows "good cr r"
proof -
  obtain f where f: "(name, f) \<in> set (vaultine_methods na cr vd)" "r = f args nd"
    using assms(4) by (auto simp: call_method_def dest: map_of_SomeD)
  show ?thesis
    using f assms(3) methods_keep [OF assms(1,2)] large_methods_keep [OF assms(1,2)]
    by (auto simp: vaultine_methods_def)
qed

text \<open>
  C14. Whatever methods a program calls with whatever values, restores apart, the object's handle keeps the
  invariant of the library, or is gone; and the error \<open>Vaultine handle is closed\<close> is never thrown, since
  \<open>destroy\<close> takes the wrap away together with the handle.
\<close>

theorem object_keeps_invariant:
  assumes "node_ok cr nd" and "lawful cr" and "\<forall>c \<in> set calls. fst c \<noteq> ''backupRestore''"
  shows "node_ok cr (snd (call_methods na cr vd calls nd)) \<and> Handle_Closed \<notin> set (fst (call_methods na cr vd calls nd))"
  using assms
proof (induction calls arbitrary: nd)
  case (Cons c calls)
  obtain name args where c: "c = (name, args)" by (cases c)
  show ?case
  proof (cases "call_method na cr vd name args nd")
    case (Some r)
    obtain x nd1 where r: "r = (x, nd1)" by (cases r)
    have "node_ok cr nd1" "x \<noteq> Handle_Closed"
      using method_keeps [OF Cons.prems(1,2) _ Some] Cons.prems(3) c r by (simp_all add: good_def)
    then show ?thesis using Cons.IH [of nd1] Cons.prems c Some r by (simp add: split_beta)
  qed (use Cons c in simp)
qed simp

text \<open>
  After \<open>destroy\<close> nothing works and nothing happens: every method throws, whatever it is called with, and
  leaves the object, the files and the machine as they are.
\<close>

theorem destroyed_object_refuses:
  assumes "js_destroy nd = (Return x, nd1)" and "call_method na cr vd name args nd1 = Some r"
  shows "r = (Napi_Failed, nd1)"
proof -
  have self: "nd_self nd1 = None"
    using assms(1) by (auto simp: js_destroy_def unwrap_def split: option.splits)
  obtain f where f: "(name, f) \<in> set (vaultine_methods na cr vd)" "r = f args nd1"
    using assms(2) by (auto simp: call_method_def dest: map_of_SomeD)
  have u: "unwrap nd1 rest = (Napi_Failed, nd1)" for rest using self by (simp add: unwrap_def)
  show ?thesis
    using f unfolding vaultine_methods_def
    by (auto simp: u js_destroy_def js_user_register_def js_user_authenticate_def js_user_delete_def
        js_user_change_password_def js_secret_store_def js_secret_get_def js_secret_delete_def js_secret_list_def
        js_kek_rotate_def js_backup_create_def js_backup_restore_def js_export_def js_db_version_def
        js_db_migrate_def js_cache_stats_def js_audit_log_query_def)
qed

subsection \<open>Text longer than its buffer\<close>

text \<open>
  Names and passwords are cut to 255 bytes without a word: two passwords that agree so far are one and the
  same to \<open>userAuthenticate\<close>, \<open>userRegister\<close> and \<open>userDelete\<close>, and two user names that agree so far are the
  same user to \<open>secretGet\<close>.
\<close>

theorem long_text_is_cut:
  assumes "napi_law na" and "ascii p" "ascii q" and "take 255 p = take 255 q"
  shows "js_user_authenticate na cr [u, Js_String p] nd = js_user_authenticate na cr [u, Js_String q] nd
    \<and> js_user_register na cr vd [u, Js_String p] nd = js_user_register na cr vd [u, Js_String q] nd
    \<and> js_user_delete na cr [u, Js_String p] nd = js_user_delete na cr [u, Js_String q] nd
    \<and> js_secret_get na cr (Js_String p # r) nd = js_secret_get na cr (Js_String q # r) nd"
proof -
  have "get_text na 256 (Js_String p) = get_text na 256 (Js_String q)"
    using assms by (simp add: get_text_def napi_law_def)
  then show ?thesis
    by (simp add: js_user_authenticate_def js_user_register_def js_user_delete_def js_secret_get_def)
qed

text \<open>
  C36. A long password is not what protects the account: a user registered with it is authenticated by every
  text that agrees with it in the first 255 bytes, whatever comes behind them.
\<close>

theorem cut_password_admits:
  assumes law: "lawful cr" "napi_law na" and ok: "node_ok cr nd" and u: "fits 256 u"
    and pw: "ascii p" "ascii q" "take 255 p = take 255 q"
    and self: "nd_self nd = Some vi" "in_handle vi = Some v" "healthy (v_db v)" "find_user u (db_tabs (v_db v)) = None"
    and run: "js_user_register na cr vd [Js_String u, Js_String p] nd = (Return x, nd1)"
    and later: "nd_self nd1 = Some vi1" "in_handle vi1 = Some w" "healthy (v_db w)"
  shows "fst (js_user_authenticate na cr [Js_String u, Js_String q] nd1) = Return (Js_Bool True)"
proof -
  let ?p = "c_str (take 255 p)"
  have t: "get_text na 256 (Js_String u) = Some u" "get_text na 256 (Js_String p) = Some ?p"
    "get_text na 256 (Js_String q) = Some ?p"
    using get_text_fits [OF law(2) u] law(2) pw by (simp_all add: get_text_def napi_law_def)
  have st: "ssm_user_register cr vd (Some u) (Some ?p) v = (SSM_OK, w)"
    using run self(1,2) t later(1,2)
    by (auto simp: js_user_register_def unwrap_def check_napi_def check_ssm_def put_vault_def prod_eq_iff split: if_splits prod.splits)
  have "vault_ok cr v" using ok self by (simp add: node_ok_def)
  from register_free_name [OF st self(3) this law(1) self(4)] obtain r where
    "find_user u (db_tabs (v_db w)) = Some r" "argon2id_verify cr (bytes_of_string ?p) (u_password_hash r)"
    by (auto simp: registered_def)
  moreover obtain s i w1 where a: "ssm_user_authenticate cr (Some u) (Some ?p) (Some 0) w = (s, i, w1)" by (rule prod_cases3)
  ultimately have "s = SSM_OK \<and> i = Some 1"
    using authenticate_answer [OF later(3) register_answers(1) [OF st self(3)] a] by auto
  then show ?thesis
    using a later(1,2) t by (simp add: js_user_authenticate_def unwrap_def check_napi_def check_ssm_def)
qed

subsection \<open>A secret stored comes back\<close>

text \<open>Too small a buffer gets the length that is needed, and nothing else happens.\<close>

lemma get_short:
  assumes h: "healthy (v_db v)" and ok: "vault_ok cr v" and law: "lawful cr" and a: "m_alloc (v_mach v) = []"
    and rows: "find_user u (db_tabs (v_db v)) = Some r" "find_kek (u_id r) (db_tabs (v_db v)) = Some kr"
      "\<not> kek_is_expired (m_now (v_mach v)) (Some (k_expires_at kr))" "kek_open cr (u_password_hash r) kr = Some kek"
      "find_secret (u_id r) n (db_tabs (v_db v)) = Some s"
    and g: "go_private g = Some buf" "go_private_len g = Some cap" "cap < length (s_private_key s)"
  shows "\<exists>v1. ssm_secret_get cr (Some u) (Some n) g v
      = (SSM_ERR_INTERNAL, g\<lparr>go_private_len := Some (length (s_private_key s))\<rparr>, v1)
    \<and> vault_ok cr v1 \<and> v_db v1 = v_db v \<and> v_mach v1 = v_mach v"
proof -
  have os: "open_session ''secret_get'' u (Some n) v
      = Inr (\<lparr>ur_id = u_id r, ur_password_hash = u_password_hash r\<rparr>, read_kek_row kr, v)"
    using h rows by (simp add: open_session_def users_find_healthy kek_find_healthy read_kek_row_def)
  have sf: "secrets_find (v_db v) (u_id r) (Some n) = (Some (read_secret_row s), v_db v)"
    using h rows(5) by (simp add: secrets_find_def healthyD)
  obtain ko v1 where l: "load_kek cr \<lparr>ur_id = u_id r, ur_password_hash = u_password_hash r\<rparr> (read_kek_row kr) v
      = (ko, v1)" by fastforce
  have "ko = Some kek" "v_mach v1 = v_mach v" "v_db v1 = v_db v" "vault_ok cr v1"
    using load_kek_cases(1,3) [OF ok law rows(1,2) l] a rows(4) by simp_all
  then show ?thesis
    using os sf l g by (simp add: ssm_secret_get_def deliver_secret_def read_secret_row_def)
qed

lemma get_sized_stored:
  assumes run: "ssm_secret_store cr (Some u) (Some pk) pub 0 (Some n) d v = (SSM_OK, w)"
    and ok: "vault_ok cr v" and law: "lawful cr" and len: "length pk < 2 ^ 31"
    and h: "healthy (v_db w)" "m_alloc (v_mach w) = []"
  shows "\<exists>k w1 r. get_sized cr u n cap dk w = (Some (SSM_OK, k), w1) \<and> go_private_len k = Some (length pk)
    \<and> go_public_len k = Some 0 \<and> go_private k = Some (pk @ r)"
proof -
  let ?t = "db_tabs (v_db w)"
  have okw: "vault_ok cr w" using store_secret_ok [OF ok law, of "Some u" "Some pk" pub 0 "Some n" d] run by simp
  have c: "contents cr ?t (u, n) = Some pk" using store_effect [OF run ok law len] by simp
  obtain r kr kek s where s: "find_user u ?t = Some r" "find_kek (u_id r) ?t = Some kr"
    "kek_open cr (u_password_hash r) kr = Some kek" "find_secret (u_id r) n ?t = Some s"
    "open_secret cr kek s = Some pk" using contents_Some [OF c] by blast
  have e: "\<not> kek_is_expired (m_now (v_mach w)) (Some (k_expires_at kr))"
    using store_keys [OF run ok law] s(1,2) by (auto simp: same_keys_def find_user_def find_kek_def)
  have p: "s_public_key s = None" using store_no_public(1) [OF run ok law] s by auto
  have ls: "length (s_private_key s) = length pk"
    using s(5) by (auto simp: open_secret_def dest: lawful_open [OF law] split: if_splits)
  have fit: "\<exists>x1. ssm_secret_get cr (Some u) (Some n) (sized_buffers m dk) x = (SSM_OK, (sized_buffers m dk)\<lparr>go_private
        := Some (copy_to pk (new_block m dk)), go_private_len := Some (length pk), go_public_len := Some 0\<rparr>, x1)"
    if x: "healthy (v_db x)" "vault_ok cr x" "v_db x = v_db w" "v_mach x = v_mach w" "length pk \<le> m" for m x
  proof -
    obtain st g' x1 where get: "ssm_secret_get cr (Some u) (Some n) (sized_buffers m dk) x = (st, g', x1)"
      by (rule prod_cases3)
    have "(st, g') = spec_get cr (m_now (v_mach w)) ?t u n (sized_buffers m dk)"
      using get_follows_spec [OF x(1,2) law _ _ _ get] x(3,4) h(2) by (simp add: sized_buffers_def)
    then show ?thesis
      using get s e p ls x(5) by (simp add: spec_get_def put_public_def read_secret_row_def sized_buffers_def)
  qed
  show ?thesis
  proof (cases "length pk \<le> cap")
    case True
    then show ?thesis using fit [OF h(1) okw refl refl True] by (auto simp: get_sized_def copy_to_def sized_buffers_def)
  next
    case False
    obtain x where x: "ssm_secret_get cr (Some u) (Some n) (sized_buffers cap dk) w
        = (SSM_ERR_INTERNAL, (sized_buffers cap dk)\<lparr>go_private_len := Some (length pk)\<rparr>, x)"
      "vault_ok cr x" "v_db x = v_db w" "v_mach x = v_mach w"
      using get_short [OF h(1) okw law h(2) s(1,2) e s(3,4), of "sized_buffers cap dk"] False ls
      by (auto simp: sized_buffers_def)
    have "c_int (length pk) = int (length pk)" using len by (rule c_int_exact)
    then show ?thesis
      using fit [of x "length pk"] x h(1) False by (auto simp: get_sized_def copy_to_def sized_buffers_def Let_def)
  qed
qed

lemma stored_by_node:
  assumes na: "napi_law na" and names: "fits 256 u" "fits 256 n"
    and run: "js_secret_store na cr [Js_String u, Js_Buffer pk, Js_Null, Js_String n] nd = (Return x, nd1)"
  shows "\<exists>vi v v1. nd_self nd = Some vi \<and> in_handle vi = Some v
    \<and> ssm_secret_store cr (Some u) (Some pk) None 0 (Some n) None v = (SSM_OK, v1) \<and> nd1 = put_vault v1 nd"
proof -
  obtain vi v where vi: "nd_self nd = Some vi" "in_handle vi = Some v"
    using run by (auto simp: js_secret_store_def unwrap_def split: option.splits)
  have t: "get_text na 256 (Js_String u) = Some u" "get_text na 256 (Js_String n) = Some n"
    "na_buffer na (Js_Buffer pk) = Some pk" "\<not> na_object na Js_Null"
    using get_text_fits [OF na] names na by (simp_all add: napi_law_def)
  obtain st v1 where st: "ssm_secret_store cr (Some u) (na_data na pk) None 0 (Some n) None v = (st, v1)" by fastforce
  have "st = SSM_OK" "nd1 = put_vault v1 nd"
    using run vi t st by (auto simp: js_secret_store_def unwrap_def check_napi_def check_ssm_def split: if_splits)
  moreover have "na_data na pk = Some pk \<or> pk = [] \<and> na_data na pk = None" using na by (simp add: napi_law_def)
  then have "na_data na pk = Some pk" using st \<open>st = SSM_OK\<close> by (auto simp: ssm_secret_store_def)
  ultimately show ?thesis using vi st by auto
qed

text \<open>
  C35. What \<open>secretStore\<close> took from a buffer without a public key, \<open>secretGet\<close> on the same object returns
  byte for byte where nothing fails, whatever size it is asked to expect, negative ones and sizes too small
  included, for keys of less than 2 GiB and ASCII names of at most 255 characters. (With a public key that is
  longer than the size asked for, it fails.)
\<close>

theorem node_secret_comes_back:
  assumes law: "lawful cr" "napi_law na" and ok: "node_ok cr nd" and names: "fits 256 u" "fits 256 n"
    and len: "length pk < 2 ^ 31" and size: "- (2 ^ 31) \<le> m" "m < 2 ^ 31"
    and run: "js_secret_store na cr [Js_String u, Js_Buffer pk, Js_Null, Js_String n] nd = (Return x, nd1)"
    and working: "nd_self nd1 = Some vi" "in_handle vi = Some w" "healthy (v_db w)" "m_alloc (v_mach w) = []"
  shows "fst (js_secret_get na cr [Js_String u, Js_String n, Js_Number m] nd1)
    = Return (Js_Object [(''privateKey'', Js_Buffer pk)])"
proof -
  obtain vi0 v where v: "nd_self nd = Some vi0" "in_handle vi0 = Some v"
    and st: "ssm_secret_store cr (Some u) (Some pk) None 0 (Some n) None v = (SSM_OK, w)"
    using stored_by_node [OF law(2) names run] working(1,2) by (auto simp: put_vault_def)
  have okv: "vault_ok cr v" using ok v by (simp add: node_ok_def)
  obtain k w1 r where "get_sized cr u n (if m \<le> 0 then 65536 else nat m) (ho_disk (wo_host (nd_world nd1))) w
      = (Some (SSM_OK, k), w1)" "go_private_len k = Some (length pk)" "go_public_len k = Some 0"
    "go_private k = Some (pk @ r)"
    using get_sized_stored [OF st okv law(1) len working(3,4)] by blast
  moreover have "get_text na 256 (Js_String u) = Some u" "get_text na 256 (Js_String n) = Some n"
    "na_int32 na (Js_Number m) = Some m"
    using get_text_fits [OF law(2)] names law(2) size by (simp_all add: napi_law_def)
  ultimately show ?thesis
    using working(1,2) by (simp add: js_secret_get_def unwrap_def check_napi_def check_ssm_def)
qed

text \<open>A program that opens a file, stores a secret and destroys the object, all without an exception.\<close>

definition node_run ::
  "napi \<Rightarrow> provider \<Rightarrow> globals \<Rightarrow> bytes \<Rightarrow> string \<Rightarrow> string \<Rightarrow> bytes \<Rightarrow> world \<Rightarrow> world \<Rightarrow> bool" where
  "node_run na cr g key u n pk w w1 \<longleftrightarrow>
     (\<exists>nd nd1 nd2 nd3 x y z. nd_world nd = w \<and> nd_world nd3 = w1
        \<and> js_new na [Js_String (gl_db_path g), Js_Buffer key] nd = (Return x, nd1)
        \<and> js_secret_store na cr [Js_String u, Js_Buffer pk, Js_Null, Js_String n] nd1 = (Return y, nd2)
        \<and> js_destroy nd2 = (Return z, nd3))"

text \<open>What N-API hands on of the path, the key and the names is what was meant.\<close>

definition plain_args :: "napi \<Rightarrow> globals \<Rightarrow> bytes \<Rightarrow> string \<Rightarrow> string \<Rightarrow> bool" where
  "plain_args na g key u n \<longleftrightarrow> napi_law na \<and> fits 4096 (gl_db_path g) \<and> length key \<le> 64
     \<and> db_key_of g = (if key = [] then None else Some key) \<and> fits 256 u \<and> fits 256 n"

lemma node_run_stores:
  assumes w: "ready g w" and v: "opens g w v" "vault_ok cr v" and law: "lawful cr" and plain: "plain_args na g key u n"
    and run: "node_run na cr g key u n pk w w1"
  shows "\<exists>v1. ssm_secret_store cr (Some u) (Some pk) None 0 (Some n) None v = (SSM_OK, v1) \<and> closes g v1 w1"
proof -
  let ?o = "opened_on (gl_db_path g) key"
  have na: "napi_law na" "fits 256 u" "fits 256 n" using plain by (simp_all add: plain_args_def)
  obtain nd nd1 nd2 nd3 x y z where nd: "nd_world nd = w" "nd_world nd3 = w1"
    and new: "js_new na [Js_String (gl_db_path g), Js_Buffer key] nd = (Return x, nd1)"
    and store: "js_secret_store na cr [Js_String u, Js_Buffer pk, Js_Null, Js_String n] nd1 = (Return y, nd2)"
    and destroy: "js_destroy nd2 = (Return z, nd3)" using run by (auto simp: node_run_def)
  have o: "db_key_of ?o = db_key_of g" "gl_db_path ?o = gl_db_path g"
    using plain by (simp_all add: opened_on_def db_key_of_def plain_args_def)
  have "get_text na 4096 (Js_String (gl_db_path g)) = Some (gl_db_path g)" "na_buffer na (Js_Buffer key) = Some key"
    using get_text_fits [OF na(1)] plain na(1) by (simp_all add: napi_law_def plain_args_def)
  then have nd1: "nd1 = nd\<lparr>nd_self := Some \<lparr>in_handle = Some v, in_opened = ?o\<rparr>\<rparr>"
    using new plain v(1) o nd(1) by (auto simp: js_new_def check_napi_def plain_args_def Let_def split: if_splits)
  obtain v1 where st: "ssm_secret_store cr (Some u) (Some pk) None 0 (Some n) None v = (SSM_OK, v1)"
    and nd2: "nd2 = nd\<lparr>nd_self := Some \<lparr>in_handle = Some v1, in_opened = ?o\<rparr>\<rparr>"
    using stored_by_node [OF na store] nd1 by (auto simp: put_vault_def)
  have ok1: "vault_ok cr v1" using store_secret_ok [OF v(2) law, of "Some u" "Some pk" None 0 "Some n" None] st by simp
  have "save_tables ?o = save_tables g" by (simp add: save_tables_def o fun_eq_iff)
  then have "w1 = save_tables g (db_tabs (v_db v1)) (w\<lparr>wo_mach := v_mach v1\<rparr>)"
    using destroy nd2 nd close_handle_ok [OF ok1] by (auto simp: js_destroy_def unwrap_def)
  then show ?thesis using st closes_saved [OF w] by blast
qed

interpretation node_store: secret_writer cr g "\<lambda>w w1. plain_args na g key u n \<and> node_run na cr g key u n pk w w1"
  "\<lambda>v v1. ssm_secret_store cr (Some u) (Some pk) None 0 (Some n) None v = (SSM_OK, v1)" u n pk
  for cr g na key u n pk
proof unfold_locales
  fix w w1 v
  assume "plain_args na g key u n \<and> node_run na cr g key u n pk w w1" "lawful cr" "ready g w" "opens g w v" "vault_ok cr v"
  then show "\<exists>v1. ssm_secret_store cr (Some u) (Some pk) None 0 (Some n) None v = (SSM_OK, v1) \<and> closes g v1 w1"
    using node_run_stores by blast
qed (rule cli_store.calls_ok cli_store.stores; assumption)+

text \<open>
  C8. A secret stored from JavaScript is read by the command line: when a program opens a file, stores a
  buffer and destroys the object, all without an exception, \<open>ssm-cli secret get --out\<close> on the same file and
  key writes exactly the bytes of the buffer.
\<close>

theorem node_secret_read_by_cli:
  assumes law: "lawful cr" "napi_law na" "image_law (nd_world nd)" and on_file: "\<not> in_memory (gl_db_path g)"
    and w: "working g (nd_world nd)" and pw: "gl_password g \<noteq> []" and len: "length pk \<le> 65536"
    and db: "read_tables (db_key_of g) (nd_world nd) (gl_db_path g) = Some t" "current t" "wf_tables t"
    and opened: "fits 4096 (gl_db_path g)" "length key \<le> 64" "db_key_of g = (if key = [] then None else Some key)"
    and names: "fits 256 u" "fits 256 n"
    and run: "js_new na [Js_String (gl_db_path g), Js_Buffer key] nd = (Return x, nd1)"
      "js_secret_store na cr [Js_String u, Js_Buffer pk, Js_Null, Js_String n] nd1 = (Return y, nd2)"
      "js_destroy nd2 = (Return z, nd3)"
    and mem: "m_alloc (wo_mach (nd_world nd3)) = []"
  shows "\<exists>w2. handle_secret_get cr g (nd_world nd3) [u, n, ''--out'', f] = (Exit 0, [written_key ''private'' pk f], w2)
    \<and> dk_files (ho_disk (wo_host w2)) f = Some pk"
proof -
  have "ready g (nd_world nd)" using law(3) on_file w db by (auto simp: ready_def)
  moreover have "plain_args na g key u n" using law(2) opened names by (simp add: plain_args_def)
  moreover have "node_run na cr g key u n pk (nd_world nd) (nd_world nd3)" using run by (auto simp: node_run_def)
  ultimately show ?thesis using node_store.read_by_cli [of na g key u n cr pk "nd_world nd" "nd_world nd3" f] law(1) mem len pw by blast
qed

end
