(* ===== verification/Large_Keys.thy ===== *)
theory Large_Keys
  imports Tui Node_Behaviour
begin

section \<open>Secrets whose public key is larger than the buffers of the programs\<close>

text \<open>
  \<open>ssm_secret_get\<close> wants a buffer for either key, and tells the length that is missing through the length
  of the buffer that is too small. The command line, the server and the terminal interface start with 65536
  bytes for each, and call again with larger ones if the private key was the one that did not fit. Nothing
  limits the length of a public key when it is stored.
\<close>

text \<open>The secret is there, the KEK has not expired and opens it.\<close>

definition readable :: "provider \<Rightarrow> vault \<Rightarrow> string \<Rightarrow> string \<Rightarrow> secret_rec \<Rightarrow> bytes \<Rightarrow> bool" where
  "readable cr v u n s pk \<longleftrightarrow> healthy (v_db v) \<and> vault_ok cr v \<and> m_alloc (v_mach v) = []
     \<and> contents cr (db_tabs (v_db v)) (u, n) = Some pk
     \<and> (\<exists>r kr. find_user u (db_tabs (v_db v)) = Some r \<and> find_kek (u_id r) (db_tabs (v_db v)) = Some kr
          \<and> \<not> kek_is_expired (m_now (v_mach v)) (Some (k_expires_at kr))
          \<and> find_secret (u_id r) n (db_tabs (v_db v)) = Some s)"

lemma readable_rows:
  assumes "readable cr v u n s pk" and "lawful cr"
  shows "\<exists>r kr kek. find_user u (db_tabs (v_db v)) = Some r \<and> find_kek (u_id r) (db_tabs (v_db v)) = Some kr
    \<and> \<not> kek_is_expired (m_now (v_mach v)) (Some (k_expires_at kr)) \<and> kek_open cr (u_password_hash r) kr = Some kek
    \<and> find_secret (u_id r) n (db_tabs (v_db v)) = Some s \<and> open_secret cr kek s = Some pk"
    and "length (s_private_key s) = length pk"
proof -
  show *: "\<exists>r kr kek. find_user u (db_tabs (v_db v)) = Some r \<and> find_kek (u_id r) (db_tabs (v_db v)) = Some kr
    \<and> \<not> kek_is_expired (m_now (v_mach v)) (Some (k_expires_at kr)) \<and> kek_open cr (u_password_hash r) kr = Some kek
    \<and> find_secret (u_id r) n (db_tabs (v_db v)) = Some s \<and> open_secret cr kek s = Some pk"
    using assms(1) contents_Some [of cr "db_tabs (v_db v)" u n pk] by (auto simp: readable_def)
  then show "length (s_private_key s) = length pk"
    by (auto simp: open_secret_def dest: lawful_open [OF assms(2)] split: if_splits)
qed

text \<open>The answer when the KEK opens and the private key fits, by the public key and its buffer.\<close>

lemma get_readable:
  assumes r: "readable cr v u n s pk" and law: "lawful cr"
    and g: "go_private g = Some buf" "go_private_len g = Some cap" "length pk \<le> cap"
  shows "\<exists>v1. ssm_secret_get cr (Some u) (Some n) g v =
    (let (fits, g') = put_public (sr_public_key (read_secret_row s))
           (g\<lparr>go_private := Some (copy_to pk buf), go_private_len := Some (length pk)\<rparr>)
     in (if fits then SSM_OK else SSM_ERR_INTERNAL, g', v1))"
proof -
  obtain st g' v1 where get: "ssm_secret_get cr (Some u) (Some n) g v = (st, g', v1)" by (rule prod_cases3)
  have "(st, g') = spec_get cr (m_now (v_mach v)) (db_tabs (v_db v)) u n g"
    using get_follows_spec [OF _ _ law _ g(1,2) get] r by (simp add: readable_def)
  then show ?thesis
    using get g readable_rows [OF r law] by (auto simp: spec_get_def Let_def split: prod.splits)
qed

lemma get_readable_short:
  assumes r: "readable cr v u n s pk" and law: "lawful cr"
    and g: "go_private g = Some buf" "go_private_len g = Some cap" "cap < length pk"
  shows "\<exists>v1. ssm_secret_get cr (Some u) (Some n) g v
      = (SSM_ERR_INTERNAL, g\<lparr>go_private_len := Some (length pk)\<rparr>, v1) \<and> readable cr v1 u n s pk"
proof -
  obtain ru kr kek where rows: "find_user u (db_tabs (v_db v)) = Some ru" "find_kek (u_id ru) (db_tabs (v_db v)) = Some kr"
    "\<not> kek_is_expired (m_now (v_mach v)) (Some (k_expires_at kr))" "kek_open cr (u_password_hash ru) kr = Some kek"
    "find_secret (u_id ru) n (db_tabs (v_db v)) = Some s"
    using readable_rows(1) [OF r law] by blast
  show ?thesis
    using get_short [OF _ _ law _ rows g(1,2)] g(3) r readable_rows(2) [OF r law] by (auto simp: readable_def)
qed

text \<open>\<open>env exec\<close> asks for the private key only, and gets it whatever its length and the public key's.\<close>

lemma resize_copied: "length pk \<le> length buf \<Longrightarrow> resize_to (length pk) (copy_to pk buf) = pk"
  by (simp add: resize_to_def copy_to_def)

lemma get_private_readable:
  assumes r: "readable cr v u n s pk" and law: "lawful cr"
  shows "\<exists>v1. get_private cr u n v = (SSM_OK, pk, v1)"
proof (cases "length pk \<le> 65536")
  case True
  then show ?thesis
    using get_readable [OF r law, of private_buffer "replicate 65536 0" 65536] resize_copied [of pk "replicate 65536 0"]
    by (auto simp: get_private_def private_buffer_def put_public_def)
next
  case False
  let ?g = "private_buffer\<lparr>go_private_len := Some (length pk)\<rparr>"
  obtain x where x: "ssm_secret_get cr (Some u) (Some n) private_buffer v = (SSM_ERR_INTERNAL, ?g, x)" "readable cr x u n s pk"
    using get_readable_short [OF r law, of private_buffer "replicate 65536 0" 65536] False by (auto simp: private_buffer_def)
  let ?b = "resize_to (length pk) (replicate 65536 0)"
  have l: "length ?b = length pk" using False by (simp add: resize_to_def)
  show ?thesis
    using x(1) get_readable [OF x(2) law, of "?g\<lparr>go_private := Some ?b\<rparr>" ?b "length pk"] resize_copied [of pk ?b] l False
    by (auto simp: get_private_def private_buffer_def put_public_def)
qed

text \<open>
  C37. A secret with a public key of more than 65536 bytes, whatever its private key, cannot be read with
  \<open>ssm-cli secret get\<close>, with a \<open>GET\<close> of the REST server (the two share their way of calling again) or in the
  terminal interface: each gets \<open>SSM_ERR_INTERNAL\<close>, although \<open>ssm_secret_get\<close> with large enough buffers
  succeeds. \<open>env exec\<close>, which does not ask for the public key, reads it.
\<close>

theorem large_public_key_unreadable:
  assumes r: "readable cr v u n s pk" and law: "lawful cr"
    and pub: "s_public_key s = Some pub" "length pub > 65536"
  shows "fst (get_with_retry cr u n v) = SSM_ERR_INTERNAL \<and> fst (get_fresh cr u n v) = SSM_ERR_INTERNAL
    \<and> fst (ssm_secret_get cr (Some u) (Some n) \<lparr>go_private = Some (replicate (length pk) 0), go_private_len = Some (length pk),
         go_public = Some (replicate (length pub) 0), go_public_len = Some (length pub)\<rparr> v) = SSM_OK
    \<and> (\<exists>v1. get_private cr u n v = (SSM_OK, pk, v1))"
proof -
  have p: "sr_public_key (read_secret_row s) = pub" "pub \<noteq> []" using pub by (auto simp: read_secret_row_def)
  have small: "\<exists>g' x1. ssm_secret_get cr (Some u) (Some n) g x = (SSM_ERR_INTERNAL, g', x1)
      \<and> go_private_len g' = Some (length pk) \<and> length (the (go_private g')) = length (copy_to pk buf)"
    if "readable cr x u n s pk" "go_private g = Some buf" "go_private_len g = Some cap" "length pk \<le> cap"
      "go_public g = Some pbuf" "go_public_len g = Some 65536" for g x buf cap pbuf
    using get_readable [OF that(1) law that(2-4)] that(5,6) p pub(2) by (auto simp: put_public_def)
  have "fst (get_with_retry cr u n v) = SSM_ERR_INTERNAL \<and> fst (get_fresh cr u n v) = SSM_ERR_INTERNAL"
  proof (cases "length pk \<le> 65536")
    case True
    then show ?thesis
      using small [OF r, of key_buffers "replicate 65536 0" 65536 "replicate 65536 0"]
      by (auto simp: get_with_retry_def get_fresh_def key_buffers_def copy_to_def Let_def)
  next
    case False
    obtain x where x: "ssm_secret_get cr (Some u) (Some n) key_buffers v
        = (SSM_ERR_INTERNAL, key_buffers\<lparr>go_private_len := Some (length pk)\<rparr>, x)" "readable cr x u n s pk"
      using get_readable_short [OF r law, of key_buffers "replicate 65536 0" 65536] False by (auto simp: key_buffers_def)
    have "fst (ssm_secret_get cr (Some u) (Some n) \<lparr>go_private = Some buf, go_private_len = Some (length pk),
        go_public = Some pbuf, go_public_len = Some 65536\<rparr> x) = SSM_ERR_INTERNAL" for buf pbuf
      using small [OF x(2), of "\<lparr>go_private = Some buf, go_private_len = Some (length pk),
        go_public = Some pbuf, go_public_len = Some 65536\<rparr>" buf "length pk" pbuf] by auto
    then show ?thesis
      using x(1) False by (simp add: get_with_retry_def get_fresh_def key_buffers_def Let_def)
  qed
  moreover have "fst (ssm_secret_get cr (Some u) (Some n) \<lparr>go_private = Some (replicate (length pk) 0),
      go_private_len = Some (length pk), go_public = Some (replicate (length pub) 0), go_public_len = Some (length pub)\<rparr> v) = SSM_OK"
    using get_readable [OF r law, of "\<lparr>go_private = Some (replicate (length pk) 0), go_private_len = Some (length pk),
      go_public = Some (replicate (length pub) 0), go_public_len = Some (length pub)\<rparr>" "replicate (length pk) 0" "length pk"] p
    by (auto simp: put_public_def)
  moreover have "\<exists>v1. get_private cr u n v = (SSM_OK, pk, v1)" by (rule get_private_readable [OF r law])
  ultimately show ?thesis by simp
qed

end
