(* ===== verification/Env_Exec.thy ===== *)
theory Env_Exec
  imports Cli_Safety Large_Keys
begin

section \<open>What a command started by \<open>env exec\<close> finds in its environment\<close>

text \<open>
  The variables are set one after the other, a later one replacing an earlier one of the same name; the
  names of secrets are mapped to names of variables in a way that can make two of them one. A secret whose
  variables no other secret claims arrives whole.
\<close>

subsection \<open>Calls that only read\<close>

text \<open>A handle on which nothing fails, after a call that may have written to the audit log and the cache.\<close>

definition alike :: "vault \<Rightarrow> vault \<Rightarrow> bool" where
  "alike v w \<longleftrightarrow> healthy (v_db w) \<and> m_alloc (v_mach w) = [] \<and> m_now (v_mach w) = m_now (v_mach v)
     \<and> same_but_audit (db_tabs (v_db v)) (db_tabs (v_db w))"

lemma log_audit_alike:
  "healthy (v_db v) \<Longrightarrow> m_alloc (v_mach v) = [] \<Longrightarrow> alike v (log_audit u i op st tgt det v)"
  by (auto simp: alike_def log_audit_def audit_write_def audit_log_write_def insert_audit_def sql_write_def sql_call_def
      healthy_def same_but_audit_def split: option.splits)

lemma alike_refl: "healthy (v_db v) \<Longrightarrow> m_alloc (v_mach v) = [] \<Longrightarrow> alike v v"
  by (simp add: alike_def)

lemma same_but_audit_trans: "same_but_audit a b \<Longrightarrow> same_but_audit b c \<Longrightarrow> same_but_audit a c"
  by (cases a; cases b; cases c) (simp add: same_but_audit_def)

lemma alike_audit: "alike v w \<Longrightarrow> alike v (log_audit u i op st tgt det w)"
  using log_audit_alike [of w u i op st tgt det] by (auto simp: alike_def intro: same_but_audit_trans)

lemma alike_cache: "alike v w \<Longrightarrow> alike v (w\<lparr>v_cache := c\<rparr>)"
  by (simp add: alike_def)

lemma alike_vector: "alike v w \<Longrightarrow> alike v (w\<lparr>v_mach := snd (secure_vector_new k n (v_mach w))\<rparr>)"
  by (auto simp: alike_def secure_vector_new_def alloc_elements_def secure_alloc_def)

lemma readable_alike:
  assumes "readable cr v u n s pk" and "alike v w" and "vault_ok cr w"
  shows "readable cr w u n s pk"
proof -
  have "same_but_audit (db_tabs (v_db v)) (db_tabs (v_db w))" using assms(2) by (simp add: alike_def)
  note s = same_but_auditD [OF this]
  have c: "contents cr (db_tabs (v_db w)) = contents cr (db_tabs (v_db v))" by (rule contents_same) (simp_all add: s)
  show ?thesis
    using assms unfolding readable_def alike_def find_user_def find_kek_def find_secret_def c s by simp
qed

lemma open_session_alike:
  assumes "healthy (v_db v)" and "m_alloc (v_mach v) = []"
  shows "case open_session op u tgt v of Inl (st, w) \<Rightarrow> alike v w | Inr (user, km, w) \<Rightarrow> w = v"
  using assms log_audit_alike [OF assms] alike_refl [OF assms]
  by (simp add: open_session_def users_find_healthy kek_find_healthy split: option.split)

lemma load_kek_alike:
  assumes "m_alloc (v_mach v) = []"
  shows "\<exists>c. snd (load_kek cr user km v) = v\<lparr>v_cache := c\<rparr>"
  using assms
  by (auto simp: load_kek_def fetch_wrapping_key_def KEK_KEY_LEN_def Let_def split: prod.split option.split)

lemma get_alike:
  assumes h: "healthy (v_db v)" "m_alloc (v_mach v) = []"
  shows "alike v (snd (snd (ssm_secret_get cr (Some u) (Some n) g v)))"
proof (cases "go_private g = None \<or> go_private_len g = None")
  case True
  then show ?thesis using alike_refl [OF h] by (auto simp: ssm_secret_get_def split: option.split)
next
  case False
  then obtain b l where a: "go_private g = Some b" "go_private_len g = Some l" by auto
  note os = open_session_alike [OF h, where op = "''secret_get''" and u = u and tgt = "Some n"]
  show ?thesis
  proof (cases "open_session ''secret_get'' u (Some n) v")
    case (Inl r)
    then show ?thesis using os by (cases r) (simp add: ssm_secret_get_def a)
  next
    case (Inr x)
    then obtain user km where x: "x = (user, km, v)" using os by (cases x) simp
    obtain so where sf: "secrets_find (v_db v) (ur_id user) (Some n) = (so, v_db v)"
      using h(1) by (auto simp: secrets_find_def healthyD split: option.split)
    obtain c where ld: "snd (load_kek cr user km v) = v\<lparr>v_cache := c\<rparr>" using load_kek_alike [OF h(2)] by blast
    have vv: "v\<lparr>v_db := v_db v\<rparr> = v" by simp
    note k = alike_cache [OF alike_refl [OF h], of c]
    have m: "alike v (v\<lparr>v_cache := c, v_mach := snd (secure_vector_new (Suc 0) len (v_mach v) :: bytes option \<times> machine)\<rparr>)" for len
      using alike_vector [OF k] by simp
    show ?thesis
      using Inr x sf ld k m alike_audit [OF k] alike_audit [OF m] alike_refl [OF h] alike_audit [OF alike_refl [OF h]]
      by (simp add: ssm_secret_get_def deliver_secret_def a vv split_beta Let_def split: option.split)
  qed
qed

lemma get_private_alike:
  assumes r: "readable cr v u n s pk" and law: "lawful cr" and g: "get_private cr u m v = (st, p, w)"
  shows "readable cr w u n s pk"
proof -
  have step: "readable cr (snd (snd (ssm_secret_get cr (Some u) (Some m) out x))) u n s pk" if "readable cr x u n s pk" for out x
    using readable_alike [OF that get_alike] get_secret_ok [OF _ law] that by (simp add: readable_def)
  show ?thesis
    using g step [OF r] step [OF step [OF r]] by (auto simp: get_private_def Let_def split_beta split: if_splits)
qed

subsection \<open>The variables\<close>

definition env_names :: "string \<Rightarrow> string set" where
  "env_names n = {sanitize_env_name n, sanitize_env_name n @ ''_ENC''}"

text \<open>The last value set for a name is the one the command sees.\<close>

definition seen :: "(string \<times> string) list \<Rightarrow> string \<Rightarrow> string option" where
  "seen vars = map_of (rev vars)"

lemma seen_append: "seen (a @ b) k = (case seen b k of None \<Rightarrow> seen a k | Some x \<Rightarrow> Some x)"
  by (simp add: seen_def map_add_def split: option.split)

lemma seen_None: "k \<notin> fst ` set vars \<Longrightarrow> seen vars k = None"
  by (simp add: seen_def map_of_eq_None_iff)

lemma secret_variables_names: "fst ` set (secret_variables (sanitize_env_name n) p) \<subseteq> env_names n"
  by (simp add: secret_variables_def env_names_def)

lemma set_secrets_seen:
  assumes "readable cr v u n s pk" and law: "lawful cr"
    and "\<forall>m \<in> set names. m \<noteq> n \<longrightarrow> env_names m \<inter> env_names n = {}" and "set_secrets cr u names v = (vars, v')"
  shows "if n \<in> set names
    then \<forall>k \<in> env_names n. seen vars k = seen (secret_variables (sanitize_env_name n) pk) k
    else fst ` set vars \<inter> env_names n = {}"
  using assms(1,3,4)
proof (induction names arbitrary: v vars v')
  case (Cons m names)
  obtain st p v1 where g: "get_private cr u m v = (st, p, v1)" by (metis prod_cases3)
  obtain rest v2 where rest: "set_secrets cr u names v1 = (rest, v2)" by fastforce
  let ?here = "if st \<noteq> SSM_OK then [] else secret_variables (sanitize_env_name m) p"
  have vars: "vars = ?here @ rest" using Cons.prems(3) g rest by (simp split: if_splits)
  have r1: "readable cr v1 u n s pk" by (rule get_private_alike [OF Cons.prems(1) law g])
  have "\<forall>m \<in> set names. m \<noteq> n \<longrightarrow> env_names m \<inter> env_names n = {}" using Cons.prems(2) by simp
  from Cons.IH [OF r1 this rest]
  have ih: "if n \<in> set names then \<forall>k \<in> env_names n. seen rest k = seen (secret_variables (sanitize_env_name n) pk) k
      else fst ` set rest \<inter> env_names n = {}" .
  show ?case
  proof (cases "m = n")
    case True
    then have "st = SSM_OK" "p = pk" using get_private_readable [OF Cons.prems(1) law] g by auto
    moreover have "seen rest k = None" if "fst ` set rest \<inter> env_names n = {}" "k \<in> env_names n" for k
      using that by (intro seen_None) blast
    ultimately show ?thesis using ih True
      by (auto simp: vars seen_append split: if_splits option.split)
  next
    case False
    then have out: "fst ` set ?here \<inter> env_names n = {}"
      using Cons.prems(2) secret_variables_names [of m p] by auto
    have here: "seen ?here k = None" if "k \<in> env_names n" for k
      by (rule seen_None) (use out that in blast)
    have "seen vars k = seen rest k" if "k \<in> env_names n" for k
      unfolding vars seen_append here [OF that] by (simp split: option.split)
    moreover have "fst ` set vars \<inter> env_names n = fst ` set rest \<inter> env_names n"
      unfolding vars set_append image_Un Int_Un_distrib2 out by simp
    ultimately show ?thesis using ih False by (auto split: if_splits)
  qed
qed simp

lemma env_calls_seen:
  assumes h: "healthy (v_db v)" "vault_ok cr v" "m_alloc (v_mach v) = []" and law: "lawful cr"
    and rows: "find_user u (db_tabs (v_db v)) = Some r" "find_kek (u_id r) (db_tabs (v_db v)) = Some kr"
      "\<not> kek_is_expired (m_now (v_mach v)) (Some (k_expires_at kr))" "contents cr (db_tabs (v_db v)) (u, n) = Some pk"
    and apart: "\<forall>x \<in> set (secrets_of_user (u_id r) (db_tabs (v_db v))). sr_name (read_secret_row x) \<noteq> n
      \<longrightarrow> env_names (sr_name (read_secret_row x)) \<inter> env_names n = {}" "''SSM_COUNT'' \<notin> env_names n"
    and run: "env_calls cr u pw v = (Some vars, v')"
  shows "\<forall>k \<in> env_names n. seen vars k = seen (secret_variables (sanitize_env_name n) pk) k"
proof -
  obtain s where s: "find_secret (u_id r) n (db_tabs (v_db v)) = Some s"
    using contents_Some [OF rows(4)] rows(1) by auto
  have r: "readable cr v u n s pk" using h rows s by (simp add: readable_def)
  obtain st a v1 where auth: "ssm_user_authenticate cr (Some u) (Some (c_str pw)) (Some 0) v = (st, a, v1)"
    by (metis prod_cases3)
  have vv: "v\<lparr>v_db := v_db v\<rparr> = v" by simp
  have "alike v v1"
    using auth log_audit_alike [OF h(1,3)] alike_refl [OF h(1,3)] vv
    by (auto simp: ssm_user_authenticate_def users_find_healthy [OF h(1)] Let_def split: if_splits option.splits)
  moreover have "vault_ok cr v1" using authenticate_ok [OF h(2), of "Some u" "Some (c_str pw)" "Some 0"] auth by simp
  ultimately have r1: "readable cr v1 u n s pk" "alike v v1" "vault_ok cr v1" using readable_alike [OF r] by blast+
  obtain st2 items v2 where list: "ssm_secret_list (Some u) True v1 = (st2, items, v2)" by (metis prod_cases3)
  have h1: "healthy (v_db v1)" "m_alloc (v_mach v1) = []" using r1(2) by (simp_all add: alike_def)
  note same = same_but_auditD [of "db_tabs (v_db v)" "db_tabs (v_db v1)"]
  have rows1: "find_user u (db_tabs (v_db v1)) = Some r" "find_kek (u_id r) (db_tabs (v_db v1)) = Some kr"
    "\<not> kek_is_expired (m_now (v_mach v1)) (Some (k_expires_at kr))"
    "secrets_of_user (u_id r) (db_tabs (v_db v1)) = secrets_of_user (u_id r) (db_tabs (v_db v))"
    using rows same r1(2) by (simp_all add: alike_def find_user_def find_kek_def secrets_of_user_def)
  have vv1: "v1\<lparr>v_db := v_db v1\<rparr> = v1" and fl: "v_db v1\<lparr>fl_row := []\<rparr> = v_db v1"
    using healthyD(4) [OF h1(1)] by simp_all
  have os: "open_session ''secret_list'' u None v1
      = Inr (\<lparr>ur_id = u_id r, ur_password_hash = u_password_hash r\<rparr>, read_kek_row kr, v1)"
    using h1 rows1 by (simp add: open_session_def users_find_healthy kek_find_healthy read_kek_row_def vv1)
  have sl: "secrets_list_for_user (v_db v1) (u_id r)
      = (Some (map read_secret_row (secrets_of_user (u_id r) (db_tabs (v_db v)))), v_db v1)"
    using h1(1) rows1(4) healthyD [OF h1(1)] fl
    by (simp add: secrets_list_for_user_def healthy_def sql_prepare_def sql_call_def)
  have l: "map fst items = map (\<lambda>x. sr_name (read_secret_row x)) (secrets_of_user (u_id r) (db_tabs (v_db v)))" "alike v1 v2"
    using list log_audit_alike [OF h1] by (auto simp: ssm_secret_list_def os sl vv1 comp_def)
  have "vault_ok cr v2" using list_secrets_ok [OF r1(3), of "Some u" True] list by simp
  then have r2: "readable cr v2 u n s pk" using readable_alike [OF r1(1) l(2)] by blast
  obtain vars1 v3 where ss: "set_secrets cr u (map fst items) v2 = (vars1, v3)" by fastforce
  have vars: "vars = vars1 @ [(''SSM_COUNT'', take 15 (decimal (length (map fst items))))]"
    using run auth list ss by (auto simp: env_calls_def Let_def split: if_splits)
  have "s \<in> set (secrets_of_user (u_id r) (db_tabs (v_db v)))" "sr_name (read_secret_row s) = n"
    using find_secret_Some [OF s] by (auto simp: secrets_of_user_def has_name_def read_secret_row_def)
  then have "n \<in> set (map fst items)" using l(1) by (metis image_eqI list.set_map)
  moreover have "\<forall>m \<in> set (map fst items). m \<noteq> n \<longrightarrow> env_names m \<inter> env_names n = {}"
    using apart(1) l(1) by auto
  ultimately have "\<forall>k \<in> env_names n. seen vars1 k = seen (secret_variables (sanitize_env_name n) pk) k"
    using set_secrets_seen [OF r2 law _ ss] by simp
  then show ?thesis using apart(2) by (auto simp: vars seen_append) (auto simp: seen_def)
qed

text \<open>
  C39. The command that \<open>env exec\<close> starts finds each of the user's secrets in its environment, whatever the
  bytes: where the machine works and the KEK has not expired, and no other secret of the user claims the
  variables of \<open>n\<close> (nor \<open>SSM_COUNT\<close> does), the last value set for the variable of \<open>n\<close> has no NUL that would
  cut it off, and it is either the key itself, and no \<open>_ENC\<close> variable is set for it, or its Base64, which the
  \<open>_ENC\<close> variable announces and an RFC 4648 decoder reads back.
\<close>

theorem env_exec_brings_secrets:
  assumes run: "handle_env_exec cr g w (u # args) = (Exec vars command, text, w')" and law: "lawful cr"
    and pw: "gl_password g \<noteq> []" and w: "working g w"
    and f: "read_tables (db_key_of g) w (gl_db_path g) = Some t" "current t" "wf_tables t"
    and rows: "find_user u t = Some r" "find_kek (u_id r) t = Some kr"
      "\<not> kek_is_expired (m_now (wo_mach w)) (Some (k_expires_at kr))" "contents cr t (u, n) = Some pk"
    and apart: "\<forall>x \<in> set (secrets_of_user (u_id r) t). sr_name (read_secret_row x) \<noteq> n
      \<longrightarrow> env_names (sr_name (read_secret_row x)) \<inter> env_names n = {}" "''SSM_COUNT'' \<notin> env_names n"
  shows "\<exists>s. map_of (rev vars) (sanitize_env_name n) = Some s \<and> CHR 0x00 \<notin> set s
    \<and> (map_of (rev vars) (sanitize_env_name n @ ''_ENC'') = None \<and> map (\<lambda>c. word_of_nat (char_code c)) s = pk
       \<or> map_of (rev vars) (sanitize_env_name n @ ''_ENC'') = Some ''base64'' \<and> base64_decode s = Some pk)"
proof -
  obtain v where i: "ssm_init (os_of (db_key_of g) w) True (Some (gl_db_path g)) (db_key_of g) = (SSM_OK, Some v, None)"
    and v: "healthy (v_db v)" "vault_ok cr v" "same_but_audit t (db_tabs (v_db v))" "v_mach v = wo_mach w"
    using working_init [OF w f] by blast
  note same = same_but_auditD [OF v(3)]
  obtain v' where e: "env_calls cr u (gl_password g) v = (Some vars, v')"
    using run pw i by (auto simp: handle_env_exec_def with_vault_def Let_def split_beta prod_eq_iff
        split: list.splits if_splits option.splits)
  have "contents cr (db_tabs (v_db v)) = contents cr t" by (rule contents_same) (use same in auto)
  then have "\<forall>k \<in> env_names n. seen vars k = seen (secret_variables (sanitize_env_name n) pk) k"
    using env_calls_seen [OF v(1,2) _ law _ _ _ _ _ _ e, of r kr n pk] rows apart same v(4) w
    by (simp add: find_user_def find_kek_def secrets_of_user_def working_def)
  then show ?thesis
    using value_brings_key [of "sanitize_env_name n" pk] by (auto simp: env_names_def seen_def)
qed

end
