(* ===== verification/Sample_Processes.thy ===== *)
theory Sample_Processes
  imports Sample_Tools Two_Processes Env_Exec
begin

section \<open>A server and a command on one file, applied to one machine\<close>

text \<open>The sample server after it has served \<open>ann\<close>: the wrapping key of the old password is in its cache.\<close>

definition old_key :: bytes where
  "old_key = replicate KEK_KEY_LEN 202"

definition serving :: server where
  "serving = sample_server\<lparr>sv_vault := sample_vault\<lparr>v_cache := cache_insert 1000 1 old_key new_cache\<rparr>\<rparr>"

lemma old_key_is_derived:
  "kek_derive_wrapping_key sample (vec_data (u_password_hash sample_user)) (vec_data (k_salt sample_kek)) KEK_KEY_LEN
    = Some old_key"
  by (simp add: evaluate old_key_def)







text \<open>The server gets the secret that the command stores beside it, with the cached key.\<close>

theorem stored_beside_server_is_served_witness:
  "\<exists>text w1 t1. handle_secret_store sample sample_globals sample_world [''ann'', ''j'', ''key''] = (Exit 0, text, w1)
    \<and> read_tables (db_key_of sample_globals) w1 (gl_db_path sample_globals) = Some t1
    \<and> fst (request_handler sample_json sample sample_vd sample_get (serving\<lparr>sv_vault := sees t1 (sv_vault serving)\<rparr>))
       = Reply HTTP_OK (JObj [(''private_key'', JStr (hex_encode [7, 8]))])"
proof -
  obtain w1 msg where run: "handle_secret_store sample sample_globals sample_world [''ann'', ''j'', ''key''] = (Exit 0, msg, w1)"
    using sample_store_command by blast
  have ready: "ready sample_globals sample_world"
    using sample_working sample_image_law sample_file sample_wf by (auto simp: ready_def)
  obtain v1 where st: "ssm_secret_store sample (Some ''ann'') (Some [7, 8]) None 0 (Some ''j'') None sample_vault = (SSM_OK, v1)"
    and w1: "closes sample_globals v1 w1"
    using store_run [OF ready sample_file(4) sample_init sample_ok sample_lawful _ run] closes_saved [OF ready]
    by (auto simp: sample_world_def)
  have now: "m_now (wo_mach w1) = 1000" using store_keys [OF st sample_ok sample_lawful] w1 by (simp add: closes_def)
  have key: "dk_files (ho_disk (wo_host sample_world)) ''key'' = Some [7, 8]" by (simp add: sample_world_def)
  have t: "read_tables (db_key_of sample_globals) sample_world (gl_db_path sample_globals)
      = Some (db_tabs (v_db (sv_vault serving)))" using sample_file(1) by (simp add: serving_def)
  have "wrapping_key_of sample sample_tables 1 old_key"
    using old_key_is_derived by (simp add: wrapping_key_of_def evaluate)
  then have ok: "vault_ok sample (sv_vault serving)"
    using sample_ok cached_insert [OF new_cache_ok, of 1 old_key 1000] cache_insert_ok [OF new_cache_ok, of 1 old_key 1000]
    by (auto simp: vault_ok_def coherent_def serving_def old_key_def split: if_splits)
  from stored_beside_server_is_served [OF sample_lawful ready sample_file(4) key _ run t _ ok _ _ _ sample_parts(1,2)]
  show ?thesis using run w1 now
    by (auto simp: closes_def serving_def sample_get_def check_api_key_def sample_server_def simp del: hex_encode_simps)
qed

text \<open>The sample handle with a public key of 65537 bytes beside the secret.\<close>

definition wide_secret :: secret_rec where
  "wide_secret = sample_secret\<lparr>s_public_key := Some (replicate 65537 0)\<rparr>"

definition wide_vault :: vault where
  "wide_vault = sample_vault\<lparr>v_db := sample_db\<lparr>db_tabs := sample_tables\<lparr>t_secrets := [wide_secret]\<rparr>\<rparr>\<rparr>"

lemma wide_simps [simp]:
  "s_user_id wide_secret = s_user_id sample_secret" "s_name wide_secret = s_name sample_secret"
  "s_id wide_secret = s_id sample_secret" "s_private_key wide_secret = s_private_key sample_secret"
  "s_nonce wide_secret = s_nonce sample_secret" "s_tag wide_secret = s_tag sample_secret"
  "s_public_key wide_secret = Some (replicate 65537 0)"
  by (simp_all add: wide_secret_def)

lemma open_wide: "(\<lambda>kek. open_secret cr kek wide_secret) = (\<lambda>kek. open_secret cr kek sample_secret)"
  by (simp add: open_secret_def fun_eq_iff)

lemma wide_readable: "readable sample wide_vault ''ann'' ''k'' wide_secret [1, 2, 3]"
proof -
  have "wf_tables (db_tabs (v_db wide_vault))"
    using sample_wf by (simp add: wide_vault_def wf_tables_def users_ok_def keks_ok_def secrets_ok_def sizes_ok_def
        audit_ok_def secret_key_def sample_tables_def)
  then have ok: "vault_ok sample wide_vault"
    by (simp add: vault_ok_def coherent_def wide_vault_def new_cache_ok) (simp add: steady_def sample_db_def)
  have "contents sample (db_tabs (v_db wide_vault)) (''ann'', ''k'') = contents sample sample_tables (''ann'', ''k'')"
    by (simp add: wide_vault_def contents_def stored_plaintext_def find_user_def find_kek_def find_secret_def has_name_def
        open_wide sample_tables_def)
  then have c: "contents sample (db_tabs (v_db wide_vault)) (''ann'', ''k'') = Some [1, 2, 3]" using sample_contents by simp
  have h: "healthy (v_db wide_vault)" "m_alloc (v_mach wide_vault) = []"
    by (simp_all add: wide_vault_def sample_db_def sample_tables_def)
  have r: "find_user ''ann'' (db_tabs (v_db wide_vault)) = Some sample_user"
    "find_kek (u_id sample_user) (db_tabs (v_db wide_vault)) = Some sample_kek"
    "find_secret (u_id sample_user) ''k'' (db_tabs (v_db wide_vault)) = Some wide_secret"
    "\<not> kek_is_expired (m_now (v_mach wide_vault)) (Some (k_expires_at sample_kek))"
    using sample_times(2)
    by (simp_all add: wide_vault_def find_user_def find_kek_def find_secret_def has_name_def sample_tables_def sample_user_def
        sample_kek_def sample_secret_def)
  show ?thesis using ok c h r by (auto simp: readable_def)
qed

theorem large_public_key_unreadable_witness:
  "fst (get_with_retry sample ''ann'' ''k'' wide_vault) = SSM_ERR_INTERNAL
    \<and> contents sample (db_tabs (v_db wide_vault)) (''ann'', ''k'') = Some [1, 2, 3]"
  using large_public_key_unreadable [OF wide_readable sample_lawful, of "replicate 65537 0"] wide_readable
  by (simp add: readable_def)

text \<open>The command that \<open>env exec\<close> starts for \<open>ann\<close> finds the bytes of \<open>k\<close>.\<close>

theorem env_exec_brings_secrets_witness:
  "\<exists>vars text w'. handle_env_exec sample sample_globals sample_world [''ann'', ''--'', ''sh''] = (Exec vars [''sh''], text, w')
    \<and> (\<exists>s. map_of (rev vars) ''SSM_K'' = Some s
         \<and> (map (\<lambda>c. word_of_nat (char_code c)) s = [1 :: byte, 2, 3] \<or> base64_decode s = Some [1, 2, 3]))"
proof -
  obtain vars printed w' where run:
    "handle_env_exec sample sample_globals sample_world [''ann'', ''--'', ''sh''] = (Exec vars [''sh''], printed, w')"
    using env_exec_sample by blast
  have "wo_mach sample_world = sample_machine" by (simp add: sample_world_def)
  then have rows: "find_user ''ann'' sample_tables = Some sample_user" "find_kek (u_id sample_user) sample_tables = Some sample_kek"
    "\<not> kek_is_expired (m_now (wo_mach sample_world)) (Some (k_expires_at sample_kek))"
    using sample_find sample_times(2)
    by (simp_all add: find_kek_def sample_tables_def sample_kek_def sample_user_def)
  have one: "secrets_of_user (u_id sample_user) sample_tables = [sample_secret]" "sr_name (read_secret_row sample_secret) = ''k''"
    by (simp_all add: secrets_of_user_def sample_tables_def sample_secret_def sample_user_def read_secret_row_def)
  have e: "sanitize_env_name ''k'' = ''SSM_K''" by code_simp
  have "\<forall>x \<in> set (secrets_of_user (u_id sample_user) sample_tables). sr_name (read_secret_row x) \<noteq> ''k''
      \<longrightarrow> env_names (sr_name (read_secret_row x)) \<inter> env_names ''k'' = {}" "''SSM_COUNT'' \<notin> env_names ''k''"
    unfolding one(1) using one(2) e by (simp_all add: env_names_def)
  from env_exec_brings_secrets [OF run sample_lawful sample_file(4) sample_working sample_file(1,2) sample_wf rows sample_contents this]
  have "\<exists>s. map_of (rev vars) (sanitize_env_name ''k'') = Some s
    \<and> (map (\<lambda>c. word_of_nat (char_code c)) s = [1 :: byte, 2, 3] \<or> base64_decode s = Some [1, 2, 3])"
    by (elim exE conjE disjE) (intro exI conjI, assumption, simp)+
  then show ?thesis using run unfolding e by (intro exI [of _ vars] exI [of _ printed] exI [of _ w'] conjI)
qed

end
