(* ===== verification/Sample_Node.thy ===== *)
theory Sample_Node
  imports Sample_Cli Node_Behaviour
begin

section \<open>The theorems about the Node.js binding, applied to one object\<close>

definition sample_napi :: napi where
  "sample_napi = \<lparr>na_string = (\<lambda>x n. case x of Js_String s \<Rightarrow> Some (take (n - 1) s) | _ \<Rightarrow> None),
     na_buffer = (\<lambda>x. case x of Js_Buffer b \<Rightarrow> Some b | _ \<Rightarrow> None),
     na_data = (\<lambda>b. if b = [] then None else Some b),
     na_int32 = (\<lambda>x. case x of Js_Number i \<Rightarrow> Some (sint (word_of_int i :: 32 word)) | _ \<Rightarrow> None),
     na_int64 = (\<lambda>x. case x of Js_Number i \<Rightarrow> Some i | _ \<Rightarrow> None),
     na_bool = (\<lambda>x. case x of Js_Bool b \<Rightarrow> Some b | _ \<Rightarrow> None),
     na_object = (\<lambda>x. case x of Js_Buffer b \<Rightarrow> True | Js_Object kvs \<Rightarrow> True | Js_Array xs \<Rightarrow> True | Js_Vaultine \<Rightarrow> True | _ \<Rightarrow> False),
     na_member = (\<lambda>x k. case x of Js_Object kvs \<Rightarrow> map_of kvs k | _ \<Rightarrow> None)\<rparr>"

lemma sample_napi_law: "napi_law sample_napi"
  by (simp add: napi_law_def sample_napi_def signed_take_bit_int_eq_self sint_sbintrunc')

definition sample_node :: node where
  "sample_node = \<lparr>nd_self = Some \<lparr>in_handle = Some sample_vault, in_opened = opened_on ''v.db'' []\<rparr>,
     nd_world = sample_world, nd_memory = True\<rparr>"

lemma sample_node_ok: "node_ok sample sample_node"
  using sample_ok by (simp add: node_ok_def sample_node_def)

lemma sample_fits: "fits 256 ''ann''" "fits 256 ''j''" "fits 4096 ''v.db''"
  by code_simp+

lemma sample_opened:
  "js_new sample_napi [Js_String ''v.db'', Js_Buffer []] (sample_node\<lparr>nd_self := None\<rparr>) = (Return Js_Vaultine, sample_node)"
proof -
  have k: "db_key_of (opened_on ''v.db'' []) = db_key_of sample_globals" "gl_db_path sample_globals = ''v.db''"
    by (simp_all add: db_key_of_def opened_on_def sample_globals_def initial_globals_def)
  show ?thesis
    using sample_init get_text_fits [OF sample_napi_law sample_fits(3)] k sample_napi_law
    by (simp add: js_new_def check_napi_def napi_law_def sample_node_def)
qed

lemma sample_node_store:
  "\<exists>v1. js_secret_store sample_napi sample [Js_String ''ann'', Js_Buffer [7, 8], Js_Null, Js_String ''j''] sample_node
      = (Return Js_Undefined, put_vault v1 sample_node)
    \<and> ssm_secret_store sample (Some ''ann'') (Some [7, 8]) None 0 (Some ''j'') None sample_vault = (SSM_OK, v1)
    \<and> healthy (v_db v1) \<and> m_alloc (v_mach v1) = []"
proof -
  obtain v1 where st: "ssm_secret_store sample (Some ''ann'') (Some [7, 8]) None 0 (Some ''j'') None sample_vault = (SSM_OK, v1)"
    "healthy (v_db v1)" "m_alloc (v_mach v1) = []" using store_sample by blast
  have t: "get_text sample_napi 256 (Js_String ''ann'') = Some ''ann''" "get_text sample_napi 256 (Js_String ''j'') = Some ''j''"
    using get_text_fits [OF sample_napi_law] sample_fits by simp_all
  have n: "na_data sample_napi [7, 8] = Some [7, 8]" "na_buffer sample_napi (Js_Buffer [7, 8]) = Some [7, 8]"
    "\<not> na_object sample_napi Js_Null" by (simp_all add: sample_napi_def)
  show ?thesis
    using st t n by (auto simp: js_secret_store_def unwrap_def check_napi_def check_ssm_def sample_node_def)
qed

theorem object_keeps_invariant_witness:
  "node_ok sample (snd (call_methods sample_napi sample sample_vd [(''destroy'', []), (''kekRotate'', [Js_Null])] sample_node))"
  using object_keeps_invariant [OF sample_node_ok sample_lawful,
      of "[(''destroy'', []), (''kekRotate'', [Js_Null])]" sample_napi sample_vd] by simp

theorem destroyed_object_refuses_witness:
  "\<exists>nd1. js_destroy sample_node = (Return Js_Undefined, nd1)
    \<and> call_method sample_napi sample sample_vd ''kekRotate'' [Js_String ''ann''] nd1 = Some (Napi_Failed, nd1)"
proof -
  obtain nd1 where d: "js_destroy sample_node = (Return Js_Undefined, nd1)"
    by (simp add: js_destroy_def unwrap_def sample_node_def)
  obtain r where r: "call_method sample_napi sample sample_vd ''kekRotate'' [Js_String ''ann''] nd1 = Some r"
    by (simp add: call_method_def vaultine_methods_def)
  show ?thesis using destroyed_object_refuses [OF d r] d r by simp
qed

theorem long_text_is_cut_witness:
  "js_user_authenticate sample_napi sample [Js_String ''ann'', Js_String (replicate 255 (CHR ''x'') @ ''y'')] sample_node
    = js_user_authenticate sample_napi sample [Js_String ''ann'', Js_String (replicate 255 (CHR ''x'') @ ''z'')] sample_node"
proof -
  have "ascii (replicate 255 (CHR ''x'') @ ''y'')" "ascii (replicate 255 (CHR ''x'') @ ''z'')" by code_simp+
  from long_text_is_cut [OF sample_napi_law this] show ?thesis by simp
qed

definition long_password :: string where
  "long_password = replicate 255 (CHR ''x'')"

lemma long_password_simps:
  "c_str (take 255 (long_password @ ''y'')) = long_password"
  "ascii (long_password @ ''y'')" "ascii (long_password @ ''z'')"
  "take 255 (long_password @ ''y'') = take 255 (long_password @ ''z'')"
  by code_simp+

lemma register_long:
  "\<exists>w. ssm_user_register sample sample_vd (Some ''bob'') (Some long_password) sample_vault = (SSM_OK, w) \<and> healthy (v_db w)"
  by (simp add: evaluate ssm_user_register_def register_new_def long_password_def)

text \<open>Registered with 255 letters and a \<open>y\<close>, and let in with the same letters and a \<open>z\<close>.\<close>

theorem cut_password_admits_witness:
  "\<exists>nd1. js_user_register sample_napi sample sample_vd [Js_String ''bob'', Js_String (long_password @ ''y'')] sample_node
      = (Return Js_Undefined, nd1)
    \<and> fst (js_user_authenticate sample_napi sample [Js_String ''bob'', Js_String (long_password @ ''z'')] nd1)
      = Return (Js_Bool True)"
proof -
  let ?vi = "\<lparr>in_handle = Some sample_vault, in_opened = opened_on ''v.db'' []\<rparr>"
  obtain w where st: "ssm_user_register sample sample_vd (Some ''bob'') (Some long_password) sample_vault = (SSM_OK, w)"
    and h: "healthy (v_db w)" using register_long by blast
  have b: "fits 256 ''bob''" by code_simp
  have self: "nd_self sample_node = Some ?vi" "nd_self (put_vault w sample_node) = Some (?vi\<lparr>in_handle := Some w\<rparr>)"
    by (simp_all add: sample_node_def put_vault_def)
  have "get_text sample_napi 256 (Js_String ''bob'') = Some ''bob''"
    "get_text sample_napi 256 (Js_String (long_password @ ''y'')) = Some long_password"
    using get_text_fits [OF sample_napi_law b] sample_napi_law long_password_simps by (simp_all add: get_text_def napi_law_def)
  then have run: "js_user_register sample_napi sample sample_vd [Js_String ''bob'', Js_String (long_password @ ''y'')] sample_node
      = (Return Js_Undefined, put_vault w sample_node)"
    using st self(1) by (simp add: js_user_register_def unwrap_def check_napi_def check_ssm_def)
  have "find_user ''bob'' (db_tabs (v_db sample_vault)) = None" by (simp add: evaluate)
  from cut_password_admits [OF sample_lawful sample_napi_law sample_node_ok b long_password_simps(2-4) self(1) _ _ this run self(2)]
  show ?thesis using run h by simp
qed

theorem node_secret_comes_back_witness:
  "\<exists>nd1. js_secret_store sample_napi sample [Js_String ''ann'', Js_Buffer [7, 8], Js_Null, Js_String ''j''] sample_node
      = (Return Js_Undefined, nd1)
    \<and> fst (js_secret_get sample_napi sample [Js_String ''ann'', Js_String ''j'', Js_Number 1] nd1)
      = Return (Js_Object [(''privateKey'', Js_Buffer [7, 8])])"
proof -
  obtain v1 where run: "js_secret_store sample_napi sample [Js_String ''ann'', Js_Buffer [7, 8], Js_Null, Js_String ''j''] sample_node
      = (Return Js_Undefined, put_vault v1 sample_node)" and h: "healthy (v_db v1)" "m_alloc (v_mach v1) = []"
    using sample_node_store by blast
  have self: "nd_self (put_vault v1 sample_node) = Some \<lparr>in_handle = Some v1, in_opened = opened_on ''v.db'' []\<rparr>"
    by (simp add: put_vault_def sample_node_def)
  from node_secret_comes_back [OF sample_lawful sample_napi_law sample_node_ok sample_fits(1,2) _ _ _ run self _ h, of 1]
  show ?thesis using run by simp
qed

theorem node_secret_read_by_cli_witness:
  "\<exists>nd1 nd2 nd3 w2. js_new sample_napi [Js_String ''v.db'', Js_Buffer []] (sample_node\<lparr>nd_self := None\<rparr>) = (Return Js_Vaultine, nd1)
    \<and> js_secret_store sample_napi sample [Js_String ''ann'', Js_Buffer [7, 8], Js_Null, Js_String ''j''] nd1 = (Return Js_Undefined, nd2)
    \<and> js_destroy nd2 = (Return Js_Undefined, nd3)
    \<and> handle_secret_get sample sample_globals (nd_world nd3) [''ann'', ''j'', ''--out'', ''copy'']
      = (Exit 0, [written_key ''private'' [7, 8] ''copy''], w2)
    \<and> dk_files (ho_disk (wo_host w2)) ''copy'' = Some [7, 8]"
proof -
  let ?nd = "sample_node\<lparr>nd_self := None\<rparr>"
  obtain v1 where run: "js_secret_store sample_napi sample [Js_String ''ann'', Js_Buffer [7, 8], Js_Null, Js_String ''j''] sample_node
      = (Return Js_Undefined, put_vault v1 sample_node)" and a: "m_alloc (v_mach v1) = []"
    and st: "ssm_secret_store sample (Some ''ann'') (Some [7, 8]) None 0 (Some ''j'') None sample_vault = (SSM_OK, v1)"
    using sample_node_store by blast
  have ok: "vault_ok sample v1"
    using store_secret_ok [OF sample_ok sample_lawful, of "Some ''ann''" "Some [7, 8]" None 0 "Some ''j''" None] st by simp
  obtain nd3 where d: "js_destroy (put_vault v1 sample_node) = (Return Js_Undefined, nd3)" and m: "m_alloc (wo_mach (nd_world nd3)) = []"
    using close_handle_ok [OF ok] a by (simp add: js_destroy_def unwrap_def put_vault_def sample_node_def)
  have w: "nd_world ?nd = sample_world" by (simp add: sample_node_def)
  have p: "gl_db_path sample_globals = ''v.db''" "db_key_of sample_globals = None"
    by (simp_all add: sample_globals_def initial_globals_def db_key_of_def)
  from node_secret_read_by_cli [where nd = ?nd and g = sample_globals, unfolded w, OF sample_lawful sample_napi_law
      sample_image_law sample_file(3) sample_working sample_file(4) _ sample_file(1,2) sample_wf _ _ _ sample_fits(1,2) _ run d m,
      where key = "[]" and f = "''copy''"]
  show ?thesis using sample_opened sample_fits(3) run d p by auto
qed

end
