(* ===== verification/Interface.thy ===== *)
theory Interface
  imports Vault_Audit Cache_Transparency Vault_Users Backup Export
begin

section \<open>The whole interface and its runs\<close>

text \<open>
  Every function of \<open>include/ssm/ssm.h\<close> that takes a handle, and \<open>ssm_set_password_validator\<close>, as one
  operation on what the library works on: the handle, the machine with its files, and the global
  validator. What follows are the properties that hold of all of them and over runs of them.
  \<open>ssm_backup_restore\<close> is in it; a restore that has replaced the database leaves the handle on another
  one with the old keys in its cache, and the theorems say so where they leave it out.

  The failures in these runs are those of statements, row fetches, allocations and files. A \<open>BEGIN\<close> or
  \<open>COMMIT\<close> that fails is outside: \<open>vault_ok\<close> asks for a connection on which they work, because the code
  does not look at their results in \<open>kek_rotate\<close> and \<open>ssm_user_change_password\<close>.
\<close>

datatype operation =
    Call call
  | Backup_Create "string option" "bytes option"
  | Backup_Restore "string option" "bytes option"
  | Export_Metadata ssm_export_format bool bool
  | Set_Password_Validator "validator option"

datatype answer = Replied reply | Status ssm_status | Exported ssm_status "string option" | No_Answer

record library =
  lb_vault :: vault
  lb_host :: host
  lb_validator :: validator

text \<open>\<open>None\<close>: the overrun of the buffer in \<open>ssm_backup_restore\<close>, after which nothing is defined.\<close>

definition run_operation :: "provider \<Rightarrow> operation \<Rightarrow> library \<Rightarrow> (answer \<times> library) option" where
  "run_operation cr op s =
     (case op of
        Call c \<Rightarrow> (let (r, v) = run_call cr (lb_validator s) c (lb_vault s) in Some (Replied r, s\<lparr>lb_vault := v\<rparr>))
      | Backup_Create path key \<Rightarrow>
          (let (st, v, h) = ssm_backup_create cr path key (lb_vault s) (lb_host s)
           in Some (Status st, s\<lparr>lb_vault := v, lb_host := h\<rparr>))
      | Backup_Restore path key \<Rightarrow>
          map_option (\<lambda>(st, v, h). (Status st, s\<lparr>lb_vault := v, lb_host := h\<rparr>))
            (ssm_backup_restore cr path key (lb_vault s) (lb_host s))
      | Export_Metadata format redact callback \<Rightarrow>
          (let (st, x, v) = ssm_export format redact callback (lb_vault s)
           in Some (Exported st x, s\<lparr>lb_vault := v\<rparr>))
      | Set_Password_Validator f \<Rightarrow> Some (No_Answer, s\<lparr>lb_validator := ssm_set_password_validator f\<rparr>))"

text \<open>A restore after which the handle is not what it was: it got as far as replacing the database.\<close>

definition replaces :: "operation \<Rightarrow> library \<Rightarrow> library \<Rightarrow> bool" where
  "replaces op s s' \<longleftrightarrow> (case op of Backup_Restore path key \<Rightarrow> lb_vault s' \<noteq> lb_vault s | _ \<Rightarrow> False)"

lemma backup_create_vault:
  "ssm_backup_create cr path key v h = (st, v', h') \<Longrightarrow> \<exists>m. v' = v\<lparr>v_mach := m\<rparr>"
  by (auto simp: ssm_backup_create_def Let_def split: if_splits prod.splits) (metis vault.surjective vault.update_convs(4))+

text \<open>All operations but the calls of \<open>Vault_Api\<close> leave tables and cache alone.\<close>

lemma operation_cases [consumes 2]:
  assumes "run_operation cr op s = Some (r, s')" and "\<not> replaces op s s'"
  obtains (call) c rep where "op = Call c" "r = Replied rep"
      "run_call cr (lb_validator s) c (lb_vault s) = (rep, lb_vault s')" "lb_host s' = lb_host s"
  | (other) db m where "\<forall>c. op \<noteq> Call c" "lb_vault s' = (lb_vault s)\<lparr>v_db := db, v_mach := m\<rparr>"
      "same_conn (v_db (lb_vault s)) db" "db_tabs db = db_tabs (v_db (lb_vault s))"
proof (cases op)
  case (Call c)
  then show ?thesis using assms(1) call by (auto simp: run_operation_def split: prod.splits)
next
  case (Backup_Create path key)
  obtain st v h where b: "ssm_backup_create cr path key (lb_vault s) (lb_host s) = (st, v, h)" by (metis prod_cases3)
  obtain m where "v = (lb_vault s)\<lparr>v_mach := m\<rparr>" using backup_create_vault [OF b] by blast
  then show ?thesis
    using assms(1) b Backup_Create other [where db = "v_db (lb_vault s)" and m = m] by (auto simp: run_operation_def)
next
  case (Backup_Restore path key)
  then have "lb_vault s' = lb_vault s" using assms(2) by (simp add: replaces_def)
  then show ?thesis using Backup_Restore other [where db = "v_db (lb_vault s)" and m = "v_mach (lb_vault s)"] by simp
next
  case (Export_Metadata format redact cb)
  obtain st x db where e: "export_metadata (v_db (lb_vault s)) format redact cb = (st, x, db)" by (metis prod_cases3)
  have "lb_vault s' = lb_vault s \<or> lb_vault s' = (lb_vault s)\<lparr>v_db := db\<rparr>"
    using assms(1) Export_Metadata e by (auto simp: run_operation_def ssm_export_def split: if_splits)
  then show ?thesis
    using export_frame [OF e] Export_Metadata other [where db = db and m = "v_mach (lb_vault s)"]
      other [where db = "v_db (lb_vault s)" and m = "v_mach (lb_vault s)"] by auto
next
  case (Set_Password_Validator f)
  then show ?thesis
    using assms(1) other [where db = "v_db (lb_vault s)" and m = "v_mach (lb_vault s)"] by (auto simp: run_operation_def)
qed

subsection \<open>The invariant over runs\<close>

lemma run_operation_ok:
  assumes "run_operation cr op s = Some (r, s')" and "\<not> replaces op s s'"
    and "lawful cr" and "vault_ok cr (lb_vault s)"
  shows "vault_ok cr (lb_vault s')"
  using assms(1,2)
proof (cases rule: operation_cases)
  case (call c rep)
  then show ?thesis using run_call_ok [OF assms(4,3), of "lb_validator s" c] by simp
next
  case (other db m)
  then show ?thesis using vault_ok_read [OF assms(4) other(3,4)] by (simp add: vault_ok_def coherent_def)
qed

text \<open>
  A step of the world: an operation, time passing, or the surroundings changing: the files, and which
  statements, row fetches, allocations and file operations are going to fail.
\<close>

inductive library_step :: "provider \<Rightarrow> library \<Rightarrow> library \<Rightarrow> bool" for cr where
  operation: "run_operation cr op s = Some (r, s') \<Longrightarrow> \<not> replaces op s s' \<Longrightarrow> library_step cr s s'"
| tick: "library_step cr s (s\<lparr>lb_vault := (lb_vault s)\<lparr>v_mach := (v_mach (lb_vault s))\<lparr>m_now := m_now (v_mach (lb_vault s)) + d\<rparr>\<rparr>\<rparr>)"
| surroundings: "library_step cr s (s\<lparr>lb_vault := (lb_vault s)\<lparr>v_db := (v_db (lb_vault s))\<lparr>fl_stmt := a, fl_row := b\<rparr>,
     v_mach := (v_mach (lb_vault s))\<lparr>m_alloc := e\<rparr>\<rparr>, lb_host := h\<rparr>)"

inductive library_run :: "provider \<Rightarrow> library \<Rightarrow> library \<Rightarrow> bool" for cr s0 where
  start: "library_run cr s0 s0"
| step: "library_run cr s0 s \<Longrightarrow> library_step cr s s' \<Longrightarrow> library_run cr s0 s'"

inductive_cases library_stepE: "library_step cr s s'"

lemma library_step_ok:
  assumes "library_step cr s s'" and "lawful cr" and "vault_ok cr (lb_vault s)"
  shows "vault_ok cr (lb_vault s')"
  using assms(1)
proof cases
  case (operation op r)
  then show ?thesis using run_operation_ok assms(2,3) by blast
next
  case (surroundings a b e h)
  then show ?thesis using assms(3) by (simp add: vault_ok_def coherent_def steady_def)
qed (use assms(3) in simp)

interpretation interface: step_invariant
  "\<lambda>s s'. lawful cr \<and> library_step cr s s'" "\<lambda>s s'. lawful cr \<and> library_run cr s s'" "\<lambda>s. vault_ok cr (lb_vault s)"
  for cr
proof unfold_locales
  fix s0 s and P :: "library \<Rightarrow> bool"
  assume "lawful cr \<and> library_run cr s0 s" and "P s0"
    and "\<And>a b. lawful cr \<and> library_run cr s0 a \<Longrightarrow> P a \<Longrightarrow> lawful cr \<and> library_step cr a b \<Longrightarrow> P b"
  then have "lawful cr \<Longrightarrow> library_run cr s0 s \<Longrightarrow> P s"
    by (rotate_tac -1) (erule library_run.induct, auto)
  then show "P s" using \<open>lawful cr \<and> library_run cr s0 s\<close> by blast
next
  fix a b
  assume "vault_ok cr (lb_vault a)" and "lawful cr \<and> library_step cr a b"
  then show "vault_ok cr (lb_vault b)" using library_step_ok by blast
qed

text \<open>
  C3. Whatever operations of the interface are made, in whatever order and with whatever arguments, while
  time passes, files change, and statements, row fetches, allocations and file operations fail at will, a
  handle that starts well-formed stays so: no transaction is open, the tables keep their keys and
  references, and every key in the cache is the wrapping key the tables give for that user. Two things are
  excluded: restores that have replaced the database, and \<open>BEGIN\<close> and \<open>COMMIT\<close> failing.
\<close>

theorem interface_keeps_invariant:
  assumes "library_run cr s0 s" and "lawful cr" and "vault_ok cr (lb_vault s0)"
  shows "vault_ok cr (lb_vault s)"
  by (rule interface.reach_inv [of cr s0]) (use assms in auto)

end
