(* ===== verification/Interface_Behaviour.thy ===== *)
theory Interface_Behaviour
  imports Interface
begin

section \<open>What the operations do to the vault\<close>

text \<open>
  The refinement of the map of secrets, the isolation of users, the invisibility of the key cache, the
  append-only audit log and the ids of deleted users, for every operation of the interface.
\<close>

subsection \<open>The abstract map\<close>

text \<open>Backups, exports and the validator do nothing to the map.\<close>

definition spec_operation :: "operation \<Rightarrow> answer \<Rightarrow> holdings \<Rightarrow> holdings \<Rightarrow> bool" where
  "spec_operation op a m m' = (case (op, a) of (Call c, Replied r) \<Rightarrow> spec_step c r m m' | _ \<Rightarrow> m' = m)"

definition storable_operation :: "operation \<Rightarrow> bool" where
  "storable_operation op = (case op of Call c \<Rightarrow> storable c | _ \<Rightarrow> True)"

definition operation_user :: "operation \<Rightarrow> string option" where
  "operation_user op = (case op of Call c \<Rightarrow> call_user c | _ \<Rightarrow> None)"

lemma call_operation [simp]:
  "spec_operation (Call c) (Replied r) m m' = spec_step c r m m'"
  "storable_operation (Call c) = storable c" "operation_user (Call c) = call_user c"
  by (simp_all add: spec_operation_def storable_operation_def operation_user_def)

lemma other_operation: "\<forall>c. op \<noteq> Call c \<Longrightarrow> spec_operation op a m m' \<longleftrightarrow> m' = m"
  by (auto simp: spec_operation_def split: operation.split)

text \<open>
  C1. Every operation of the interface but a restore that replaces the database does to the vault what an
  abstract map from user and name to bytes says, and nothing else: a successful store (of less than 2 GiB)
  adds exactly one entry that was not there, a successful delete removes exactly one, a successful user
  deletion removes exactly that user's, a successful get delivers exactly what the map holds, and every
  other operation, and every one that fails, leaves the map as it is; a rotation does so as long as no row
  fetch fails, whatever statements and allocations do. (\<open>BEGIN\<close> and \<open>COMMIT\<close> work, by \<open>vault_ok\<close>.)
\<close>

theorem interface_refines_map:
  assumes "run_operation cr op s = Some (a, s')" and "\<not> replaces op s s'"
    and "vault_ok cr (lb_vault s)" and "lawful cr" and "storable_operation op"
    and "\<forall>u. op = Call (Rotate u) \<longrightarrow> fl_row (v_db (lb_vault s)) = []"
  shows "spec_operation op a (contents cr (db_tabs (v_db (lb_vault s)))) (contents cr (db_tabs (v_db (lb_vault s'))))"
  using assms(1,2)
proof (cases rule: operation_cases)
  case (call c r)
  then show ?thesis using run_call_refines [OF call(3) assms(3,4)] assms(5,6) by simp
next
  case (other db m)
  then show ?thesis by (simp add: other_operation)
qed

subsection \<open>Isolation of users\<close>

text \<open>A run in which no operation is made for the user \<open>x\<close>.\<close>

inductive library_run_of_others :: "provider \<Rightarrow> string \<Rightarrow> library \<Rightarrow> library \<Rightarrow> bool" for cr x s0 where
  start: "library_run_of_others cr x s0 s0"
| operation: "library_run_of_others cr x s0 s \<Longrightarrow> run_operation cr op s = Some (a, s') \<Longrightarrow> \<not> replaces op s s' \<Longrightarrow>
     storable_operation op \<Longrightarrow> operation_user op \<noteq> Some x \<Longrightarrow> library_run_of_others cr x s0 s'"
| tick: "library_run_of_others cr x s0 s \<Longrightarrow> library_run_of_others cr x s0
     (s\<lparr>lb_vault := (lb_vault s)\<lparr>v_mach := (v_mach (lb_vault s))\<lparr>m_now := m_now (v_mach (lb_vault s)) + d\<rparr>\<rparr>\<rparr>)"
| surroundings: "library_run_of_others cr x s0 s \<Longrightarrow> library_run_of_others cr x s0
     (s\<lparr>lb_vault := (lb_vault s)\<lparr>v_db := (v_db (lb_vault s))\<lparr>fl_stmt := a, fl_row := b\<rparr>,
       v_mach := (v_mach (lb_vault s))\<lparr>m_alloc := e\<rparr>\<rparr>, lb_host := h\<rparr>)"

lemma others_run: "library_run_of_others cr x s0 s \<Longrightarrow> library_run cr s0 s"
  by (induction rule: library_run_of_others.induct) (blast intro: library_run.intros library_step.intros)+

lemma operation_isolates:
  assumes "run_operation cr op s = Some (a, s')" and "\<not> replaces op s s'" and "vault_ok cr (lb_vault s)" and "lawful cr"
    and "storable_operation op" and "operation_user op \<noteq> Some x"
  shows "holds_of cr (lb_vault s') (x, n) = holds_of cr (lb_vault s) (x, n)"
  using assms(1,2)
proof (cases rule: operation_cases)
  case (call c r)
  then show ?thesis using run_call_isolates [OF call(3) assms(3,4)] assms(5,6) by simp
qed simp

text \<open>
  C10. Users are isolated: over any run of operations none of which is made for a user, restores that
  replace the database left out, with time passing, other processes at the files, and statements, row
  fetches, allocations and file operations failing at any point (\<open>BEGIN\<close> and \<open>COMMIT\<close> work, and every
  secret stored is below 2 GiB), that user's secrets stay exactly as they are.
\<close>

theorem interface_isolates_users:
  assumes "library_run_of_others cr x s0 s" and "vault_ok cr (lb_vault s0)" and "lawful cr"
  shows "contents cr (db_tabs (v_db (lb_vault s))) (x, n) = contents cr (db_tabs (v_db (lb_vault s0))) (x, n)"
  using assms(1)
proof (induction rule: library_run_of_others.induct)
  case (operation s op a s')
  have "vault_ok cr (lb_vault s)"
    using interface.reach_inv [of cr s0 s] others_run [OF operation.hyps(1)] assms(2,3) by blast
  from operation_isolates [OF operation.hyps(2,3) this assms(3) operation.hyps(4,5), of n] operation.IH
  show ?case by simp
qed simp_all

subsection \<open>The key cache\<close>

text \<open>A sequence of operations with their answers, on a library and on one whose cache is emptied before each.\<close>

fun run_operations :: "provider \<Rightarrow> operation list \<Rightarrow> library \<Rightarrow> (answer list \<times> library) option" where
  "run_operations cr [] s = Some ([], s)"
| "run_operations cr (op # ops) s =
     (case run_operation cr op s of
        None \<Rightarrow> None
      | Some (a, s1) \<Rightarrow> map_option (map_prod (Cons a) id) (run_operations cr ops s1))"

definition emptied :: "library \<Rightarrow> library" where
  "emptied s = s\<lparr>lb_vault := (lb_vault s)\<lparr>v_cache := new_cache\<rparr>\<rparr>"

fun run_emptied :: "provider \<Rightarrow> operation list \<Rightarrow> library \<Rightarrow> (answer list \<times> library) option" where
  "run_emptied cr [] s = Some ([], s)"
| "run_emptied cr (op # ops) s =
     (case run_operation cr op (emptied s) of
        None \<Rightarrow> None
      | Some (a, s1) \<Rightarrow> map_option (map_prod (Cons a) id) (run_emptied cr ops s1))"

definition same_library :: "library \<Rightarrow> library \<Rightarrow> bool" where
  "same_library s t \<longleftrightarrow> same_but_cache (lb_vault s) (lb_vault t) \<and> lb_host t = lb_host s \<and> lb_validator t = lb_validator s"

definition cache_blind :: "operation \<Rightarrow> bool" where
  "cache_blind op = (case op of Call c \<Rightarrow> \<not> reads_stats c | Backup_Restore path key \<Rightarrow> False | _ \<Rightarrow> True)"

lemma backup_create_cache:
  "ssm_backup_create cr path key (v\<lparr>v_cache := c\<rparr>) h
    = map_prod id (map_prod (\<lambda>x. x\<lparr>v_cache := c\<rparr>) id) (ssm_backup_create cr path key v h)"
  by (simp add: ssm_backup_create_def wal_checkpoint_def Let_def split: prod.split)

lemma operation_cache:
  assumes v: "vault_ok cr (lb_vault s)" and w: "vault_ok cr (lb_vault t)" and same: "same_library s t" and law: "lawful cr"
    and b: "cache_blind op"
  shows "\<exists>a s' t'. run_operation cr op s = Some (a, s') \<and> run_operation cr op t = Some (a, t') \<and> same_library s' t'
    \<and> vault_ok cr (lb_vault s') \<and> vault_ok cr (lb_vault t')"
proof -
  obtain ch where ch: "lb_vault t = (lb_vault s)\<lparr>v_cache := ch\<rparr>" and rest: "lb_host t = lb_host s" "lb_validator t = lb_validator s"
    using same by (auto simp: same_library_def same_but_cache_iff)
  have "\<exists>a s' t'. run_operation cr op s = Some (a, s') \<and> run_operation cr op t = Some (a, t') \<and> same_library s' t'"
  proof (cases op)
    case (Call c)
    obtain r v1 where r: "run_call cr (lb_validator s) c (lb_vault s) = (r, v1)" by fastforce
    obtain r' w1 where r': "run_call cr (lb_validator s) c (lb_vault t) = (r', w1)" by fastforce
    have "r' = r \<and> same_but_cache v1 w1"
      using run_call_cache [OF v w _ law _ r r'] same b Call by (simp add: same_library_def cache_blind_def)
    then show ?thesis using Call r r' rest by (simp add: run_operation_def same_library_def)
  next
    case (Backup_Create path key)
    then show ?thesis
      using rest by (auto simp: run_operation_def ch backup_create_cache same_library_def split: prod.split)
  next
    case (Export_Metadata format redact cb)
    then show ?thesis
      using rest by (auto simp: run_operation_def ch ssm_export_def same_library_def split: prod.split)
  qed (use b rest ch in \<open>auto simp: cache_blind_def run_operation_def same_library_def\<close>)
  moreover have "\<not> replaces op x y" for x y
    using b by (auto simp: cache_blind_def replaces_def split: operation.splits)
  ultimately show ?thesis using run_operation_ok law v w by blast
qed

lemma run_operations_emptied:
  assumes "vault_ok cr (lb_vault s)" and "vault_ok cr (lb_vault t)" and "same_library s t" and law: "lawful cr"
    and "\<forall>op \<in> set ops. cache_blind op"
  shows "\<exists>as s' t'. run_operations cr ops s = Some (as, s') \<and> run_emptied cr ops t = Some (as, t') \<and> same_library s' t'"
  using assms(1-3,5)
proof (induction ops arbitrary: s t)
  case (Cons op ops)
  have e: "vault_ok cr (lb_vault (emptied t))" "same_library s (emptied t)" and b: "cache_blind op"
    using vault_ok_uncached [OF Cons.prems(2)] Cons.prems(3,4) by (simp_all add: emptied_def same_library_def)
  obtain a s1 t1 where
    1: "run_operation cr op s = Some (a, s1)" "run_operation cr op (emptied t) = Some (a, t1)" "same_library s1 t1"
    "vault_ok cr (lb_vault s1)" "vault_ok cr (lb_vault t1)" using operation_cache [OF Cons.prems(1) e law b] by blast
  from Cons.IH [OF 1(4,5,3)] Cons.prems(4) 1 show ?case by auto
qed simp

text \<open>
  C9. The key cache is invisible: on a handle whose cache is right (\<open>vault_ok\<close>, as on every handle a run
  reaches), any sequence of operations, cache statistics and restores left out, gets the same answers and
  leaves the same database, files and machine as one before each of whose operations the cache is emptied,
  whatever statements, row fetches, allocations and file operations fail on the way.
\<close>

theorem interface_hides_cache:
  assumes "vault_ok cr (lb_vault s)" and "lawful cr" and "\<forall>op \<in> set ops. cache_blind op"
  shows "\<exists>as s1 s2. run_operations cr ops s = Some (as, s1) \<and> run_emptied cr ops s = Some (as, s2)
    \<and> v_db (lb_vault s2) = v_db (lb_vault s1) \<and> v_mach (lb_vault s2) = v_mach (lb_vault s1) \<and> lb_host s2 = lb_host s1"
  using run_operations_emptied [OF assms(1,1) _ assms(2,3)] by (fastforce simp: same_library_def same_but_cache_def)

subsection \<open>The audit log\<close>

text \<open>
  C25. The audit log is append-only: whatever operation is made, a restore that replaces the database left
  out, and whether it succeeds or fails (\<open>BEGIN\<close> and \<open>COMMIT\<close> work, everything else may fail), the entries
  that were there stay as they are, at most one is added, and it carries the name of the user the
  operation was made for.
\<close>

theorem interface_appends_to_audit_log:
  assumes "run_operation cr op s = Some (a, s')" and "\<not> replaces op s s'" and "vault_ok cr (lb_vault s)" and "lawful cr"
  shows "\<exists>es. t_audit (db_tabs (v_db (lb_vault s'))) = t_audit (db_tabs (v_db (lb_vault s))) @ es \<and> length es \<le> 1
    \<and> (\<forall>e \<in> set es. Some (a_username e) = operation_user op)"
  using assms(1,2)
proof (cases rule: operation_cases)
  case (call c r)
  then show ?thesis using run_call_logged [OF call(3) assms(3,4)] by (simp add: logged_def)
qed simp

end
