(* ===== verification/User_Ids.thy ===== *)
theory User_Ids
  imports Interface
begin

section \<open>The ids of users\<close>

text \<open>
  \<open>AUTOINCREMENT\<close> gives a user an id that no user has had before, also when that user is gone. Every
  operation but registration and deletion leaves the ids as they are; those two add the next one or remove
  one. So an id that is free, and below the counter, stays free.
\<close>

definition same_ids :: "tables \<Rightarrow> tables \<Rightarrow> bool" where
  "same_ids t t' \<longleftrightarrow> t_user_seq t' = t_user_seq t \<and> map u_id (t_users t') = map u_id (t_users t)"

definition ids_grow :: "tables \<Rightarrow> tables \<Rightarrow> bool" where
  "ids_grow t t' \<longleftrightarrow> t_user_seq t \<le> t_user_seq t'
     \<and> (\<forall>r \<in> set (t_users t'). u_id r \<in> u_id ` set (t_users t) \<or> t_user_seq t < u_id r)"

lemma same_ids_refl [simp]: "same_ids t t"
  by (simp add: same_ids_def)

lemma same_ids_trans: "same_ids a b \<Longrightarrow> same_ids b c \<Longrightarrow> same_ids a c"
  by (simp add: same_ids_def)

lemma same_ids_grow: "same_ids t t' \<Longrightarrow> ids_grow t t'"
  by (auto simp: same_ids_def ids_grow_def dest!: map_eq_imp_length_eq arg_cong [where f = set] simp: image_set [symmetric])

lemma same_but_audit_ids: "same_but_audit t t' \<Longrightarrow> same_ids t t'"
  by (simp add: same_ids_def same_but_auditD)

lemma ids_grow_trans:
  assumes "ids_grow a b" and "ids_grow b c"
  shows "ids_grow a c"
  using assms by (fastforce simp: ids_grow_def)

named_theorems id_frame \<open>operations that leave the ids of users alone\<close>

lemma same_ids_iff: "same_ids a b \<Longrightarrow> same_ids t b \<longleftrightarrow> same_ids t a"
  by (auto simp: same_ids_def)

lemma tables_same_ids:
  "same_ids (db_tabs db) (db_tabs (snd (update_password_hash db i h)))"
  "same_ids (db_tabs db) (db_tabs (snd (kek_store db i w s e)))"
  "same_ids (db_tabs db) (db_tabs (snd (update_wrapped_kek db i wr)))"
  "same_ids (db_tabs db) (db_tabs (snd (secrets_store now db i nm pk pub l nc tg d)))"
  "same_ids (db_tabs db) (db_tabs (snd (secrets_delete db i nm)))"
  subgoal by (auto simp: same_ids_def update_password_hash_def set_password_hash_def Let_def
      dest!: sql_frameD split: prod.splits)
  subgoal by (auto simp: same_ids_def kek_store_def insert_kek_def Let_def dest!: sql_frameD
      split: prod.splits option.splits if_splits)
  subgoal by (auto simp: same_ids_def update_wrapped_kek_def set_wrapped_kek_def Let_def dest!: sql_frameD
      split: prod.splits if_splits)
  subgoal by (auto simp: same_ids_def secrets_store_def insert_secret_def Let_def dest!: sql_frameD
      split: prod.splits option.splits if_splits)
  subgoal by (auto simp: same_ids_def secrets_delete_def delete_secret_def Let_def dest!: sql_frameD
      split: prod.splits option.splits if_splits)
  done

lemma reads_same_ids:
  "same_ids (db_tabs db) (db_tabs (snd (secrets_list_for_user db i)))"
  "same_ids (db_tabs db) (db_tabs (snd (kek_find_by_user db i)))"
  "same_ids (db_tabs db) (db_tabs (snd (secrets_find db i nm')))"
  "same_ids (db_tabs db) (db_tabs (snd (users_find_by_username db n)))"
  "same_ids (db_tabs db) (db_tabs (snd (audit_log_query db u op r l' off)))"
  subgoal by (auto simp: same_ids_def secrets_list_for_user_def Let_def dest!: sql_frameD split: prod.splits)
  subgoal by (auto simp: same_ids_def kek_find_by_user_def Let_def dest!: sql_frameD split: prod.splits option.splits list.splits if_splits)
  subgoal by (auto simp: same_ids_def secrets_find_def Let_def dest!: sql_frameD split: prod.splits option.splits list.splits if_splits)
  subgoal by (simp add: users_find_frame)
  subgoal by (simp add: query_frame)
  done

lemmas [id_frame] = tables_same_ids [THEN same_ids_iff] reads_same_ids [THEN same_ids_iff]

lemma log_audit_ids [id_frame]:
  "same_ids t (db_tabs (v_db (log_audit u i op st tgt det v))) \<longleftrightarrow> same_ids t (db_tabs (v_db v))"
  using same_but_audit_ids [OF log_audit_frame(4), of v u i op st tgt det] by (simp add: same_ids_def)

lemma open_session_ids:
  "case open_session op u tgt v of
     Inl (st, v') \<Rightarrow> same_ids (db_tabs (v_db v)) (db_tabs (v_db v'))
   | Inr (user, km, v') \<Rightarrow> same_ids (db_tabs (v_db v)) (db_tabs (v_db v'))"
  by (simp add: open_session_def split_beta Let_def id_frame split: option.split)

lemma load_kek_ids [id_frame]: "same_ids t (db_tabs (v_db (snd (load_kek cr user km v)))) \<longleftrightarrow> same_ids t (db_tabs (v_db v))"
  by (simp add: load_kek_db)

subsection \<open>Every call\<close>

lemma store_ids: "same_ids (db_tabs (v_db v)) (db_tabs (v_db (snd (ssm_secret_store cr u pk pub l n d v))))"
proof (cases "u = None \<or> pk = None \<or> n = None")
  case False
  then obtain u' pk' n' where a: "u = Some u'" "pk = Some pk'" "n = Some n'" by auto
  note os = open_session_ids [where op = "''secret_store''" and u = u' and tgt = "Some n'" and v = v]
  show ?thesis
  proof (cases "open_session ''secret_store'' u' (Some n') v")
    case (Inl r)
    then show ?thesis using os by (cases r) (simp add: ssm_secret_store_def a)
  next
    case (Inr x)
    then show ?thesis using os
      by (cases x) (simp add: ssm_secret_store_def a split_beta Let_def id_frame split: option.split)
  qed
qed (auto simp: ssm_secret_store_def split: option.split)

lemma get_ids: "same_ids (db_tabs (v_db v)) (db_tabs (v_db (snd (snd (ssm_secret_get cr u n g v)))))"
proof (cases "u = None \<or> n = None \<or> go_private g = None \<or> go_private_len g = None")
  case False
  then obtain u' n' b l where a: "u = Some u'" "n = Some n'" "go_private g = Some b"
    "go_private_len g = Some l" by auto
  note os = open_session_ids [where op = "''secret_get''" and u = u' and tgt = "Some n'" and v = v]
  show ?thesis
  proof (cases "open_session ''secret_get'' u' (Some n') v")
    case (Inl r)
    then show ?thesis using os by (cases r) (simp add: ssm_secret_get_def a)
  next
    case (Inr x)
    then show ?thesis using os
      by (cases x) (simp add: ssm_secret_get_def deliver_secret_def a split_beta Let_def id_frame split: option.split)
  qed
qed (auto simp: ssm_secret_get_def split: option.split)

lemma delete_ids: "same_ids (db_tabs (v_db v)) (db_tabs (v_db (snd (ssm_secret_delete u n v))))"
proof (cases "u = None \<or> n = None")
  case False
  then obtain u' n' where a: "u = Some u'" "n = Some n'" by auto
  note os = open_session_ids [where op = "''secret_delete''" and u = u' and tgt = "Some n'" and v = v]
  show ?thesis
  proof (cases "open_session ''secret_delete'' u' (Some n') v")
    case (Inl r)
    then show ?thesis using os by (cases r) (simp add: ssm_secret_delete_def a)
  next
    case (Inr x)
    then show ?thesis using os by (cases x) (simp add: ssm_secret_delete_def a split_beta Let_def id_frame)
  qed
qed (auto simp: ssm_secret_delete_def split: option.split)

lemma list_ids: "same_ids (db_tabs (v_db v)) (db_tabs (v_db (snd (snd (ssm_secret_list u cb v)))))"
proof (cases u)
  case (Some u')
  note os = open_session_ids [where op = "''secret_list''" and u = u' and tgt = None and v = v]
  show ?thesis
  proof (cases "open_session ''secret_list'' u' None v")
    case (Inl r)
    then show ?thesis using os by (cases r) (simp add: ssm_secret_list_def Some)
  next
    case (Inr x)
    then show ?thesis using os
      by (cases x) (simp add: ssm_secret_list_def Some split_beta Let_def id_frame split: option.split)
  qed
qed (simp add: ssm_secret_list_def)

lemma rotate_ids:
  assumes ok: "vault_ok cr v" and law: "lawful cr"
  shows "same_ids (db_tabs (v_db v)) (db_tabs (v_db (snd (ssm_kek_rotate cr u v))))"
proof (cases u)
  case (Some u')
  obtain ro db1 where f: "users_find_by_username (v_db v) u' = (ro, db1)" by fastforce
  have d1: "same_conn (v_db v) db1" "db_tabs db1 = db_tabs (v_db v)"
    using users_find_frame [of "v_db v" u'] f by simp_all
  show ?thesis
  proof (cases ro)
    case None
    then show ?thesis using Some f d1 by (simp add: ssm_kek_rotate_def id_frame)
  next
    case (Some user)
    obtain b db2 m2 where rot: "kek_rotate cr db1 (ur_id user) (vec_data (ur_password_hash user)) (v_mach v)
        = (b, db2, m2)" by (metis prod_cases3)
    have s1: "steady db1" using same_conn_steady [OF d1(1)] vault_ok_D(1) [OF ok] by simp
    have wf1: "wf_tables (db_tabs db1)" using vault_ok_D(2) [OF ok] d1 by simp
    have "same_ids (db_tabs (v_db v)) (db_tabs db2)"
    proof (cases b)
      case True
      show ?thesis
        using kek_rotate_effect [OF rot [unfolded eqTrueI [OF True]] law s1 wf1] d1(2)
        by (auto simp: rotation_result_def update_kek_def same_ids_def)
    next
      case False
      then show ?thesis using kek_rotate_failed [of cr db1 _ _ _ db2 m2] rot s1 d1 by simp
    qed
    then show ?thesis using \<open>u = Some u'\<close> Some f rot by (simp add: ssm_kek_rotate_def Let_def id_frame)
  qed
qed (simp add: ssm_kek_rotate_def)

lemma change_body_ids:
  assumes run: "change_password_body cr user h db m = (r, db', m')"
  shows "same_ids (db_tabs db) (db_tabs db')"
proof -
  let ?i = "ur_id user"
  obtain ok1 db1 where up: "update_password_hash db ?i h = (ok1, db1)" by fastforce
  obtain ko db2 where k: "kek_find_by_user db1 ?i = (ko, db2)" by fastforce
  have t: "same_ids (db_tabs db) (db_tabs db1)" "same_ids (db_tabs db) (db_tabs db2)"
    using tables_same_ids(1) [of db ?i h] reads_same_ids(2) [of db1 ?i] up k same_ids_trans by force+
  consider "db' = db1" | "db' = db2" | w r where "update_wrapped_kek db2 ?i w = (r, db')"
    using run [unfolded change_password_body_def Let_def up prod.case k]
    by (cases ko) (auto split: if_splits prod.splits option.splits)
  then show ?thesis
  proof cases
    case 3
    then show ?thesis using t(2) tables_same_ids(3) [of db2 ?i w] same_ids_trans by force
  qed (use t in simp_all)
qed

lemma change_transaction_ids:
  assumes s: "steady (v_db v)"
  shows "same_ids (db_tabs (v_db v)) (db_tabs (v_db (snd (change_password_in_transaction cr u user h v))))"
proof -
  let ?d = "v_db v"
  let ?begun = "?d\<lparr>fl_begin := tl (fl_begin ?d), db_snap := Some (db_tabs ?d)\<rparr>"
  have b: "exec_begin ?d = (True, ?begun)" using s by (intro exec_begin_ok) (auto simp: steady_def)
  obtain a db1 m1 where body: "change_password_body cr user h ?begun (v_mach v) = (a, db1, m1)"
    by (metis prod_cases3)
  have snap: "db_snap db1 = Some (db_tabs ?d)"
    using change_password_body_frame [OF body] by (simp add: same_conn_def)
  have t: "same_ids (db_tabs ?d) (db_tabs db1)" using change_body_ids [OF body] by simp
  have c: "db_tabs (snd (exec_commit db1)) = db_tabs db1"
    by (simp add: exec_commit_def Let_def split_beta)
  show ?thesis
    unfolding change_password_in_transaction_def b snd_conv body prod.case Let_def
    using t snap c by (cases a) (simp_all add: id_frame exec_rollback_def)
qed

lemma change_password_ids:
  assumes ok: "vault_ok cr v"
  shows "same_ids (db_tabs (v_db v)) (db_tabs (v_db (snd (ssm_user_change_password cr vd u p q v))))"
proof (cases "u = None \<or> p = None \<or> q = None")
  case False
  then obtain u' p' q' where a: "u = Some u'" "p = Some p'" "q = Some q'" by auto
  obtain ro db1 where f: "users_find_by_username (v_db v) u' = (ro, db1)" by fastforce
  have d1: "same_conn (v_db v) db1" "db_tabs db1 = db_tabs (v_db v)"
    using users_find_frame [of "v_db v" u'] f by simp_all
  have s1: "steady db1" using same_conn_steady [OF d1(1)] vault_ok_D(1) [OF ok] by simp
  have tx: "same_ids (db_tabs (v_db v))
      (db_tabs (v_db (snd (change_password_in_transaction cr u' user h (v\<lparr>v_db := db1, v_mach := m\<rparr>)))))" for user h m
    using change_transaction_ids [of "v\<lparr>v_db := db1, v_mach := m\<rparr>" cr u' user h] s1 d1 by simp
  show ?thesis
    using tx by (simp add: ssm_user_change_password_def a f d1 id_frame Let_def split: option.split prod.split)
qed (auto simp: ssm_user_change_password_def split: option.split)

lemma insert_ids: "insert_user now u h t = Some (t', i) \<Longrightarrow> ids_grow t t'"
  using insert_user_eq(1,2) [of now u h t t' i] by (auto simp: ids_grow_def)

lemma users_create_ids: "db_tabs db = t \<Longrightarrow> ids_grow t (db_tabs (snd (users_create now db u h)))"
  by (auto simp: users_create_def Let_def same_ids_grow insert_ids dest!: sql_frameD split: prod.splits option.splits)

lemma ids_grow_same: "same_ids b c \<Longrightarrow> ids_grow a c \<longleftrightarrow> ids_grow a b"
proof -
  assume s: "same_ids b c"
  then have "t_user_seq c = t_user_seq b" "u_id ` set (t_users c) = u_id ` set (t_users b)"
    by (auto simp: same_ids_def image_set dest: arg_cong [where f = set] simp del: set_map simp flip: set_map)
  moreover have "ids_grow a x \<longleftrightarrow> t_user_seq a \<le> t_user_seq x
      \<and> (\<forall>i \<in> u_id ` set (t_users x). i \<in> u_id ` set (t_users a) \<or> t_user_seq a < i)" for x
    by (simp add: ids_grow_def)
  ultimately show ?thesis by (simp only:)
qed

lemma log_audit_grow: "ids_grow t (db_tabs (v_db (log_audit u i op st tgt det v))) \<longleftrightarrow> ids_grow t (db_tabs (v_db v))"
  by (rule ids_grow_same) (simp add: id_frame)

lemma kek_store_grow: "ids_grow t (db_tabs (snd (kek_store db i w s e))) \<longleftrightarrow> ids_grow t (db_tabs db)"
  by (rule ids_grow_same) (rule tables_same_ids)

lemma register_ids: "ids_grow (db_tabs (v_db v)) (db_tabs (v_db (snd (ssm_user_register cr vd u p v))))"
  by (simp add: ssm_user_register_def register_new_def split_beta Let_def users_create_ids log_audit_grow kek_store_grow same_ids_grow
      split: option.split)

lemma user_delete_ids: "ids_grow (db_tabs (v_db v)) (db_tabs (v_db (snd (ssm_user_delete cr u p v))))"
proof -
  have d: "db_tabs db = t \<Longrightarrow> ids_grow t (db_tabs (snd (users_delete db i)))" for db i t
    using users_delete_cases(2) [of db i "fst (users_delete db i)" "snd (users_delete db i)"]
    by (auto simp: ids_grow_def delete_user_row_users) (auto simp: delete_user_row_def Let_def)
  show ?thesis
    by (simp add: ssm_user_delete_def split_beta Let_def d log_audit_grow same_ids_grow split: option.split)
qed

lemma authenticate_ids: "same_ids (db_tabs (v_db v)) (db_tabs (v_db (snd (snd (ssm_user_authenticate cr u p i v)))))"
  by (simp add: ssm_user_authenticate_def split_beta Let_def id_frame split: option.split)

lemma run_call_ids:
  assumes run: "run_call cr vd c v = (r, v')" and ok: "vault_ok cr v" and law: "lawful cr"
  shows "ids_grow (db_tabs (v_db v)) (db_tabs (v_db v'))"
proof -
  have v': "v' = snd (run_call cr vd c v)" using run by simp
  note same = authenticate_ids store_ids get_ids delete_ids list_ids rotate_ids [OF ok law] change_password_ids [OF ok]
  show ?thesis
  proof (cases c)
    case Db_Migrate
    obtain b db1 where m: "db_migrate (v_db v) = (b, db1)" by fastforce
    have "grown (db_tabs (v_db v)) (db_tabs db1)" using db_migrate_steady [OF m vault_ok_D(1) [OF ok]] by blast
    then show ?thesis using Db_Migrate m
      by (simp add: v' run_call_def ssm_db_migrate_def grown_def same_rows_def same_ids_def same_ids_grow)
  next
    case (Db_Version out)
    then show ?thesis
      by (auto simp: v' run_call_def ssm_db_version_def Let_def same_ids_grow dest!: db_get_versionD
          split: option.split prod.split)
  next
    case (Cache_Stats out)
    then show ?thesis by (simp add: v' run_call_def ssm_cache_get_stats_def same_ids_grow split: option.split)
  next
    case (Query_Audit u op res l off cb)
    then show ?thesis
      by (simp add: v' run_call_def ssm_audit_log_query_def split_beta query_frame same_ids_grow split: option.split)
  qed (simp_all add: v' run_call_def split_beta register_ids user_delete_ids same [THEN same_ids_grow])
qed

lemma run_operation_ids:
  assumes "run_operation cr op s = Some (a, s')" and "\<not> replaces op s s'" and "vault_ok cr (lb_vault s)" and "lawful cr"
  shows "ids_grow (db_tabs (v_db (lb_vault s))) (db_tabs (v_db (lb_vault s')))"
  using assms(1,2)
proof (cases rule: operation_cases)
  case (call c r)
  then show ?thesis using run_call_ids [OF call(3) assms(3,4)] by simp
next
  case (other db m)
  then show ?thesis by (simp add: same_ids_grow)
qed

lemma library_run_ids:
  assumes "library_run cr s0 s" and "vault_ok cr (lb_vault s0)" and "lawful cr"
  shows "ids_grow (db_tabs (v_db (lb_vault s0))) (db_tabs (v_db (lb_vault s)))"
  using assms(1)
proof induction
  case (step s s')
  have ok: "vault_ok cr (lb_vault s)" using interface.reach_inv [of cr s0 s] step.hyps(1) assms(2,3) by blast
  have "ids_grow (db_tabs (v_db (lb_vault s))) (db_tabs (v_db (lb_vault s')))"
    using step.hyps(2) by cases (simp_all add: run_operation_ids ok assms(3) same_ids_grow)
  then show ?case using step.IH ids_grow_trans by blast
qed (simp add: same_ids_grow)

subsection \<open>A deleted user does not come back\<close>

lemma no_user_no_rows:
  assumes "wf_tables t" and "\<forall>x \<in> set (t_users t). u_id x \<noteq> i"
  shows "find_kek i t = None \<and> (\<forall>x \<in> set (t_keks t). k_user_id x \<noteq> i) \<and> (\<forall>x \<in> set (t_secrets t). s_user_id x \<noteq> i)"
  using assms by (fastforce simp: wf_tables_def keks_ok_def secrets_ok_def find_kek_def find_None_iff)

text \<open>
  C24. A deletion that answers \<open>SSM_OK\<close> took the user's password and is final: at once, and in every state
  that later operations lead to (registrations among them, also of the same name; restores that replace the
  database left out), no user has the id the deleted user had, and no KEK and no secret carries it. While
  they run, time passes, other processes change files, and statements, row fetches, allocations and file
  operations fail at will; \<open>BEGIN\<close> and \<open>COMMIT\<close> work.
\<close>

theorem deleted_user_never_returns:
  assumes run: "ssm_user_delete cr (Some u) (Some p) v = (SSM_OK, v')" and ok: "vault_ok cr v" and law: "lawful cr"
    and later: "library_run cr s0 s" and s0: "lb_vault s0 = v'"
  shows "\<exists>r. find_user u (db_tabs (v_db v)) = Some r \<and> argon2id_verify cr (bytes_of_string p) (u_password_hash r)
    \<and> find_user u (db_tabs (v_db v')) = None
    \<and> (\<forall>x \<in> set (t_users (db_tabs (v_db (lb_vault s)))). u_id x \<noteq> u_id r)
    \<and> (\<forall>x \<in> set (t_keks (db_tabs (v_db (lb_vault s)))). k_user_id x \<noteq> u_id r)
    \<and> (\<forall>x \<in> set (t_secrets (db_tabs (v_db (lb_vault s)))). s_user_id x \<noteq> u_id r)"
proof -
  obtain r where r: "find_user u (db_tabs (v_db v)) = Some r" "argon2id_verify cr (bytes_of_string p) (u_password_hash r)"
    "find_user u (db_tabs (v_db v')) = None" "u_id r \<le> t_user_seq (db_tabs (v_db v'))"
    "\<forall>x \<in> set (t_users (db_tabs (v_db v'))). u_id x \<noteq> u_id r"
    using delete_user_effect_on_rows [OF run ok] by blast
  have "run_call cr vd (Delete_User (Some u) (Some p)) v = (Plain SSM_OK, v')" for vd
    using run by (simp add: run_call_def)
  then have ok': "vault_ok cr (lb_vault s0)" using run_call_ok [OF ok law] s0 by (metis snd_conv)
  have wf: "wf_tables (db_tabs (v_db (lb_vault s)))"
    by (rule vault_ok_D(2) [OF interface.reach_inv [of cr s0 s]]) (use later law ok' in auto)
  have "\<forall>x \<in> set (t_users (db_tabs (v_db (lb_vault s)))). u_id x \<noteq> u_id r"
    using library_run_ids [OF later ok' law] r(4,5) s0 by (fastforce simp: ids_grow_def)
  then show ?thesis using r no_user_no_rows [OF wf] by blast
qed

end
