(* ===== verification/Sample_Interface.thy ===== *)
theory Sample_Interface
  imports Sample_Claims Interface_Behaviour User_Ids
begin

section \<open>The theorems about the whole interface, applied to the sample handle\<close>

definition sample_library :: library where
  "sample_library = \<lparr>lb_vault = sample_vault, lb_host = sample_host, lb_validator = sample_vd\<rparr>"

lemma sample_library_simps [simp]:
  "lb_vault sample_library = sample_vault" "lb_validator sample_library = sample_vd" "lb_host sample_library = sample_host"
  by (simp_all add: sample_library_def)

lemma call_runs:
  "run_operation cr (Call c) s = Some (Replied (fst (run_call cr (lb_validator s) c (lb_vault s))),
     s\<lparr>lb_vault := snd (run_call cr (lb_validator s) c (lb_vault s))\<rparr>)"
  by (simp add: run_operation_def split_beta)

lemma call_answers: "\<exists>a s'. run_operation cr (Call c) s = Some (a, s')"
  using call_runs by blast

lemma sample_deletes:
  "\<exists>s. run_operation sample (Call (Delete (Some ''ann'') (Some ''k''))) sample_library = Some (Replied (Plain SSM_OK), s)"
  using delete_sample by (simp add: call_runs run_call_def)

lemma call_replaces_not [simp]: "\<not> replaces (Call c) s s'"
  by (simp add: replaces_def)

text \<open>A backup is taken, then the secret is deleted.\<close>

theorem interface_keeps_invariant_witness:
  "\<exists>s a. library_run sample sample_library s \<and> run_operation sample (Backup_Create (Some ''b'') (Some sample_key)) sample_library = Some (a, s)
    \<and> vault_ok sample (lb_vault s)"
proof -
  obtain v h where b: "ssm_backup_create sample (Some ''b'') (Some sample_key) sample_vault sample_host = (SSM_OK, v, h)"
    using backup_sample by blast
  let ?s = "sample_library\<lparr>lb_vault := v, lb_host := h\<rparr>"
  have run: "run_operation sample (Backup_Create (Some ''b'') (Some sample_key)) sample_library = Some (Status SSM_OK, ?s)"
    using b by (simp add: run_operation_def)
  have "library_run sample sample_library ?s"
    by (rule library_run.step [OF library_run.start library_step.operation [OF run]]) (simp add: replaces_def)
  moreover from interface_keeps_invariant [OF this sample_lawful] have "vault_ok sample (lb_vault ?s)" using sample_ok by simp
  ultimately show ?thesis using run by blast
qed

theorem interface_refines_map_witness:
  "\<exists>s. run_operation sample (Call (Delete (Some ''ann'') (Some ''k''))) sample_library = Some (Replied (Plain SSM_OK), s)
    \<and> contents sample (db_tabs (v_db (lb_vault s))) = (contents sample sample_tables)((''ann'', ''k'') := None)"
proof -
  obtain s where run: "run_operation sample (Call (Delete (Some ''ann'') (Some ''k''))) sample_library = Some (Replied (Plain SSM_OK), s)"
    using sample_deletes by blast
  from interface_refines_map [OF run _ _ sample_lawful] show ?thesis
    using run sample_ok by (simp add: storable.simps spec_step_def)
qed

theorem interface_isolates_users_witness:
  "\<exists>a s. run_operation sample (Call (Register (Some ''bob'') (Some ''pw2''))) sample_library = Some (a, s)
    \<and> contents sample (db_tabs (v_db (lb_vault s))) (''ann'', ''k'') = Some [1, 2, 3]"
proof -
  obtain a s where run: "run_operation sample (Call (Register (Some ''bob'') (Some ''pw2''))) sample_library = Some (a, s)"
    using call_answers by blast
  have "library_run_of_others sample ''ann'' sample_library s"
    by (rule library_run_of_others.operation [OF library_run_of_others.start run]) (simp_all add: storable.simps call_user.simps)
  from interface_isolates_users [OF this _ sample_lawful, of "''k''"] show ?thesis
    using run sample_contents sample_ok by auto
qed

theorem interface_hides_cache_witness:
  "\<exists>as s1 s2. run_operations sample [Call (Rotate (Some ''ann'')), Call (Delete (Some ''ann'') (Some ''k''))] sample_library = Some (as, s1)
    \<and> run_emptied sample [Call (Rotate (Some ''ann'')), Call (Delete (Some ''ann'') (Some ''k''))] sample_library = Some (as, s2)
    \<and> v_db (lb_vault s2) = v_db (lb_vault s1)"
proof -
  have "\<forall>op \<in> set [Call (Rotate (Some ''ann'')), Call (Delete (Some ''ann'') (Some ''k''))]. cache_blind op"
    by (simp add: cache_blind_def reads_stats_def)
  from interface_hides_cache [OF _ sample_lawful this, of sample_library] show ?thesis using sample_ok by auto
qed

theorem interface_appends_to_audit_log_witness:
  "\<exists>a s. run_operation sample (Call (Rotate (Some ''ann''))) sample_library = Some (a, s)
    \<and> hd (t_audit (db_tabs (v_db (lb_vault s)))) = sample_entry"
proof -
  obtain a s where run: "run_operation sample (Call (Rotate (Some ''ann''))) sample_library = Some (a, s)"
    using call_answers by blast
  have "t_audit sample_tables = [sample_entry]" by (simp add: sample_tables_def)
  with interface_appends_to_audit_log [OF run _ _ sample_lawful] show ?thesis using run sample_ok by auto
qed

text \<open>\<open>ann\<close> is deleted and registered again: nobody has the old id.\<close>

theorem deleted_user_never_returns_witness:
  "\<exists>v1 a s. ssm_user_delete sample (Some ''ann'') (Some ''pw'') sample_vault = (SSM_OK, v1)
    \<and> run_operation sample (Call (Register (Some ''ann'') (Some ''new''))) (sample_library\<lparr>lb_vault := v1\<rparr>) = Some (a, s)
    \<and> (\<forall>x \<in> set (t_users (db_tabs (v_db (lb_vault s)))). u_id x \<noteq> 1)"
proof -
  have "fst (ssm_user_delete sample (Some ''ann'') (Some ''pw'') sample_vault) = SSM_OK"
    by (simp add: text_evaluate ssm_user_delete_def)
  then obtain v1 where del: "ssm_user_delete sample (Some ''ann'') (Some ''pw'') sample_vault = (SSM_OK, v1)"
    by (metis prod.collapse)
  let ?s = "sample_library\<lparr>lb_vault := v1\<rparr>"
  obtain a s where run: "run_operation sample (Call (Register (Some ''ann'') (Some ''new''))) ?s = Some (a, s)"
    using call_answers by blast
  have "library_run sample ?s s"
    by (rule library_run.step [OF library_run.start library_step.operation [OF run]]) simp
  from deleted_user_never_returns [OF del sample_ok sample_lawful this]
  obtain r where "find_user ''ann'' sample_tables = Some r"
    "\<forall>x \<in> set (t_users (db_tabs (v_db (lb_vault s)))). u_id x \<noteq> u_id r" by auto
  moreover have "find_user ''ann'' sample_tables = Some sample_user" "u_id sample_user = 1"
    by (simp_all add: find_user_def sample_tables_def sample_user_def)
  ultimately show ?thesis using del run by auto
qed

end
