(* ===== verification/Spec2Isabelle.thy ===== *)
theory Spec2Isabelle
  imports Sample_Processes Sample_Node Sample_Interface
begin

text \<open>
  This library models Vaultine, a multi-tenant secret manager written in C++ over SQLite, libsodium and
  OpenSSL, and proves what its C interface promises. The code is under \<open>src\<close>; file names below are
  relative to it.

  \<^bold>\<open>The program.\<close> A handle (\<open>src/ssm.cc\<close>) holds a database connection, a cache of 256 wrapping keys and
  a mutex. Each user has a password hash (Argon2id), and a key encryption key (KEK) that is stored wrapped
  (AES-KW) under a key derived from that hash; the user's secrets are stored encrypted (AES-GCM) under the
  KEK. The interface registers, authenticates and deletes users, stores, gets, deletes and lists secrets,
  changes passwords, rotates KEKs, queries the audit log, exports metadata and makes and restores backups.
  Three programs use the library: the command line tool (\<open>cli/ssm_cli.cc\<close>), where each command is a
  process with a handle of its own, the REST server (\<open>cli/ssm_server.cc\<close>), one process with one handle for
  all requests, and the terminal interface (\<open>cli/ssm_tui.cc\<close>), a command that opens a handle per form. So do
  the objects of the Node.js binding, each with a handle of its own.

  \<^bold>\<open>The theories\<close>, from the bottom up:
  \<^item> \<open>Prelude\<close>: types, \<open>c_int\<close> (the cast of a size to \<open>int\<close>), decimal numbers, fault lists, the locale
    \<open>codec\<close>. \<open>Status\<close>: the status codes of \<open>include/ssm/ssm.h\<close>.
  \<^item> \<open>Time_Format\<close>: the time stamps of \<open>kek/kek.cc\<close> and of SQLite, down to the calendar.
  \<^item> \<open>Secure_Memory\<close>: \<open>utils/secure_memory\<close> and \<open>crypto/random.cc\<close>. \<open>Crypto\<close>: the wrappers of \<open>crypto\<close>
    over a record \<open>provider\<close> of library functions; \<open>lawful\<close> is what their documentation promises, and
    \<open>Sample_Provider\<close> a provider that satisfies it.
  \<^item> \<open>Database\<close> (\<open>db/database.cc\<close>), \<open>Users_Table\<close>, \<open>Kek_Table\<close>, \<open>Secrets_Table\<close>, \<open>Audit_Log\<close> (the files
    of \<open>db\<close> of these names) and \<open>Migrations\<close> (\<open>db/migrations.cc\<close>): the four tables as a record, each
    statement a function on them. The locale \<open>keyed_table\<close> is the contract the three keyed tables share,
    interpreted on each.
  \<^item> \<open>Key_Cache\<close>: the cache of \<open>ssm.cc\<close>; its contract is the locale \<open>key_store\<close>. \<open>Kek\<close>: \<open>kek/kek.cc\<close>, the
    rotation included.
  \<^item> \<open>Vault_Api\<close>: every operation of \<open>ssm.cc\<close> on a handle but those named next. \<open>Lifecycle\<close>: \<open>ssm_init\<close>
    and \<open>ssm_destroy\<close>. \<open>Backup\<close>: \<open>backup/backup.cc\<close> and the two backup calls. \<open>Export\<close>:
    \<open>export/export.cc\<close> and \<open>ssm_export\<close>.
  \<^item> The programs: \<open>Hex_Utils\<close> (\<open>cli/hex_utils.h\<close>), \<open>C_Text\<close> (\<open>strtol\<close>, \<open>fgets\<close> and \<open>c_str\<close> as the programs
    use them), \<open>Rest_Server\<close> (the handlers, routes and options of \<open>cli/ssm_server.cc\<close>) and \<open>Server_Start\<close>
    (its process: the event loop between opening and closing the handle), \<open>Cli\<close> (every command and the
    settings of \<open>cli/ssm_cli.cc\<close>), \<open>Tui\<close> (the widgets, screens and the loop of \<open>cli/ssm_tui.cc\<close>) and
    \<open>Node_Binding\<close> (the class \<open>Vaultine\<close> of \<open>bindings/node/src/vaultine.cc\<close>). A
    process is a function on a \<open>world\<close>: the files with the tables in them, the environment, the passwords
    typed and the oracles.
  \<^item> \<open>Vault_Spec\<close> to \<open>Vault_Audit\<close> hold no code: they prove what the operations on a handle promise.
    \<open>Interface\<close> puts every function of the header that works on a handle, backup and restore, the export and
    the validator included, behind one type \<open>operation\<close> on a record \<open>library\<close> (handle, files, validator);
    the runs of \<open>Interface\<close>, \<open>Interface_Behaviour\<close> and \<open>User_Ids\<close> are runs of these.
  \<^item> No code is in \<open>Rest_Behaviour\<close>, \<open>Cli_Behaviour\<close>, \<open>Base64\<close>, \<open>Cli_Safety\<close>, \<open>Env_Exec\<close>, \<open>Tui_Behaviour\<close>,
    \<open>Tui_Forms\<close>, \<open>Node_Behaviour\<close>, \<open>Large_Keys\<close> and \<open>Two_Processes\<close> either, which are about the programs. What every program that opens a handle
    and closes it promises is the locale \<open>vault_program\<close> of \<open>Cli_Behaviour\<close>, what one that stores a secret
    promises is its extension \<open>secret_writer\<close>; they are interpreted on the command line's \<open>secret store\<close>, on the
    server that gets a POST, on an object of the Node.js binding, and on the command that changes a password.
  \<^item> The theories \<open>Sample_\<dots>\<close> apply the theorems to concrete handles, requests, worlds and keystrokes.

  \<^bold>\<open>The model.\<close> An operation is a function from its arguments and the state to its result and the new
  state, in the order of the calls and returns of the code. Pointers that may be null are options, C
  strings are character lists, bytes are 8-bit words, lengths are natural numbers, with \<open>c_int\<close> where the
  code casts them. What the surroundings decide is a list of answers in the state (an oracle), consumed
  call by call; the empty list means that nothing fails. \<open>fl_stmt\<close> decides about statements, \<open>fl_row\<close>
  about row fetches, \<open>fl_begin\<close> and \<open>fl_commit\<close> about transactions, \<open>m_alloc\<close> about allocations,
  \<open>dk_io\<close> about files; \<open>m_rand\<close> is the random stream and \<open>m_now\<close> the clock. No theorem needs fuel: every
  loop of the library is structural recursion in the model, so every call is a total function. The loops of
  the terminal interface, over keys and over screens, need not end; they are \<open>partial_function\<close>s into
  \<open>option\<close>, and \<open>None\<close>, their least fixpoint, means that they run for ever.

  The terminal is the list of the events \<open>getch\<close> returns; at its end \<open>getch\<close> returns \<open>ERR\<close> for ever. A
  blob of more than 1000000000 bytes is not bound to a statement (the limit SQLite is built with). The
  JSON library, whose parser may also throw, N-API, libevent's loop, the text that SQLite keeps in the database file and the content validator
  are parameters; what is relied on (a JSON object gives back its members, a loaded image has the saved tables)
  is a hypothesis with a concrete instance in \<open>Sample_Server\<close>, \<open>Sample_Cli\<close> or \<open>Sample_Node\<close>.

  \<^bold>\<open>What is proved.\<close> \<open>vault_ok\<close> (\<open>Vault_Spec\<close>) says that no transaction is open, the tables satisfy the
  constraints of the schema, and the cache holds at most the wrapping key that the tables determine.
  It also asks for a connection on which \<open>BEGIN\<close> and \<open>COMMIT\<close> work (\<open>steady\<close>), because \<open>kek_rotate\<close> and
  \<open>ssm_user_change_password\<close> do not look at their results; what is proved under \<open>vault_ok\<close> is about such
  connections. Statements, row fetches, allocations and files may fail wherever a theorem does not say
  otherwise. A restore that has replaced the database leaves the handle on other tables with the old keys
  in its cache: the theorems on runs leave it out (\<open>replaces\<close>); a restore that fails before is in them.
  \<^item> \<open>Vault_Spec\<close>, \<open>Interface\<close>: every operation keeps \<open>vault_ok\<close>, and so does every run of them;
    \<open>Lifecycle\<close>: every new handle satisfies it.
  \<^item> \<open>Vault_Contents\<close>, \<open>Vault_Refinement\<close>, \<open>Interface_Behaviour\<close>: \<open>contents\<close> reads a vault as a map from
    user and name to bytes; every operation refines the obvious operation of that map (a rotation as long as
    no row fetch fails), and over a run nobody's operations touch another user's entries.
  \<^item> \<open>Vault_Behaviour\<close>: the answers of \<open>ssm_secret_get\<close> on every branch, and what is stored comes back.
    \<open>Cache_Transparency\<close>, \<open>Interface_Behaviour\<close>: within one process the cache cannot be observed, but for
    its statistics.
  \<^item> \<open>Kek\<close>: a rotation keeps every plaintext, where every row is fetched, or fails and changes nothing.
    \<open>Vault_Users\<close>: registration, authentication, password change, deletion, expiry. \<open>User_Ids\<close>: the id of
    a deleted user is not given out again. \<open>Vault_Audit\<close>, \<open>Interface_Behaviour\<close>: the audit log only grows.
  \<^item> \<open>Migrations\<close>: where every row is fetched, success reaches the current schema and failure is
    consistent; roll-back is the inverse.
  \<^item> \<open>Backup\<close>: round trips of files and of the vault, nothing unauthenticated is written, and how a
    restore can lose the vault. \<open>Export\<close>: values are read back, no key material is shown.
  \<^item> \<open>Rest_Behaviour\<close>: no access without the API key, the invariant over any requests, the round trip of a
    posted secret, what the route parser cuts off, which bodies end the process. \<open>Server_Start\<close>: a secret
    posted to the server is read by a later \<open>ssm-cli\<close>. \<open>Two_Processes\<close>: a server beside a command on the same
    file: it serves what the command stores, and a password changed by the command locks the user out of the
    secrets. \<open>Large_Keys\<close>: public keys that \<open>secret get\<close>, the server and the terminal interface cannot read.
  \<^item> \<open>Cli_Behaviour\<close>: the round trip over two runs of the program, and that the commands on secrets never look at the
    password. \<open>Cli_Safety\<close> and \<open>Base64\<close>: the decoded keys fit their arrays, what \<open>env exec\<close> may set, and an
    RFC 4648 decoder that reads its values back. \<open>Env_Exec\<close>: what the command it starts finds.
  \<^item> \<open>Tui_Behaviour\<close>: five times Esc ends the interface, a lost terminal never does. \<open>Tui_Forms\<close>: the form for a
    secret does what the command does, the bounds of the fields and of the list.
  \<^item> \<open>Node_Behaviour\<close>: the invariant over any calls of an object, what a destroyed one does, the round trips of
    a secret within an object and to \<open>ssm-cli\<close>, how the text buffers cut names and passwords, and who gets in
    with what is left of a long password.
  \<^item> \<open>Time_Format\<close>, \<open>Audit_Log\<close>, \<open>Key_Cache\<close>, \<open>Crypto\<close>, \<open>Secure_Memory\<close>, \<open>Hex_Utils\<close>: the component's own
    contracts and bounds.

  \<^bold>\<open>Bounds.\<close> Dates go up to the year 9999 (\<open>time_limit\<close>): there the stamps have four-digit years, as the
  code's text comparison needs. Secrets are shorter than 2 GiB where a theorem says so: beyond that the
  cast to \<open>int\<close> takes over (\<open>Crypto.gcm_length_wraps\<close>). The tools read at most 65536 bytes of a secret into
  a first buffer and ask again with the length the library names, as the code does; the Node.js binding lets
  its caller choose the first size. Five Escs (\<open>escape_leaves_tui\<close>) are enough wherever a session stands:
  \<open>bound_to_end\<close> is the invariant, at most three go into a form, and two leave a menu and the main menu.

  \<^bold>\<open>Not modelled.\<close> SQLite, OpenSSL, libsodium, JsonCpp, libevent, ncurses and \<open>getopt\<close> themselves
  (parameters, or their documented answers); the mutex (it makes the calls a sequence); C++ exceptions of
  \<open>new\<close> and \<open>std::string\<close>; \<open>mlock\<close>; texts longer than SQLite takes; standard error, the wording of the help and the shell completion, the
  layout of the screens; the echo of the password prompt; the child of \<open>--daemonize\<close> (it leaves for
  another directory, where a relative name is another file; the model's files have one name each) and the signal
  handlers. Exceptions thrown by getters, a constructor called without \<open>new\<close>, and the bindings
  for other languages, which are not C++.
\<close>

end
